(* ===== verification/Prelude.thy ===== *)
theory Prelude
  imports Main "HOL-Library.Word"
begin

text \<open>
  Shared ground of the development: the machine integer types, the type of computations that
  may stop abnormally (a kernel bug, an assertion, a faulting instruction), its sequencing
  operator, and the generic lemmas on words, alignment and maps that every component uses.
\<close>

unbundle bit_operations_syntax

section \<open>Machine integers\<close>

type_synonym u8 = "8 word"
type_synonym u16 = "16 word"
type_synonym u32 = "32 word"
type_synonym u64 = "64 word"

text \<open>Facts that decide the guards of the handlers, collected for their proofs.\<close>

named_theorems guard_simps

section \<open>Computations that may stop abnormally\<close>

text \<open>
  A C function that returns is \<open>Inr\<close> of its results; one that does not return normally is
  \<open>Inl\<close> of the reason.
\<close>

datatype crash =
    BugOn          \<comment> \<open>BUG_ON in the kernel\<close>
  | AssertFail     \<comment> \<open>assert in the library: the process aborts\<close>
  | NullDeref      \<comment> \<open>a read or write through NULL\<close>
  | UseAfterFree   \<comment> \<open>an access to an object that kfree or free has released\<close>
  | BadUnlock      \<comment> \<open>a lock released that the caller does not hold\<close>
  | Deadlock       \<comment> \<open>a lock taken that is held already\<close>
  | Misaligned     \<comment> \<open>an instruction that requires alignment given an unaligned address\<close>
  | OutOfBounds    \<comment> \<open>an array accessed outside its bounds\<close>
  | Overlap        \<comment> \<open>memcpy on overlapping regions: undefined behaviour\<close>

type_synonym 'a run = "crash + 'a"

definition bindE :: "'a run \<Rightarrow> ('a \<Rightarrow> 'b run) \<Rightarrow> 'b run" where
  "bindE m f = (case m of Inl e \<Rightarrow> Inl e | Inr x \<Rightarrow> f x)"

definition checkE :: "bool \<Rightarrow> crash \<Rightarrow> unit run" where
  "checkE b e = (if b then Inr () else Inl e)"

lemma bindE_Inr [simp]: "bindE (Inr x) f = f x"
  by (simp add: bindE_def)

lemma bindE_Inl [simp]: "bindE (Inl e) f = Inl e"
  by (simp add: bindE_def)

lemma bindE_eq_Inr: "bindE m f = Inr y \<longleftrightarrow> (\<exists>x. m = Inr x \<and> f x = Inr y)"
  by (cases m) simp_all

lemma bindE_InrE [elim!]:
  assumes "bindE m f = Inr y"
  obtains x where "m = Inr x" and "f x = Inr y"
  using assms by (auto simp: bindE_eq_Inr)

lemma bindE_assoc: "bindE (bindE m f) g = bindE m (\<lambda>x. bindE (f x) g)"
  by (cases m) simp_all

lemma bindE_cong [fundef_cong]:
  assumes "m = m'" and "\<And>x. m' = Inr x \<Longrightarrow> f x = f' x"
  shows "bindE m f = bindE m' f'"
  using assms by (cases m') simp_all

lemma checkE_eq_Inr [simp]: "checkE b e = Inr u \<longleftrightarrow> b"
  by (simp add: checkE_def)

lemma checkE_True [simp]: "checkE True e = Inr ()"
  by (simp add: checkE_def)

lemma checkE_False [simp]: "checkE False e = Inl e"
  by (simp add: checkE_def)

section \<open>Words\<close>

lemma word_and_minus_one_mask:
  fixes x :: "'a::len word"
  shows "x AND (2 ^ k - 1) = take_bit k x"
  by (simp add: take_bit_eq_mask mask_eq_exp_minus_1)

lemma unat_and_low:
  fixes x :: "'a::len word"
  shows "unat (x AND (2 ^ k - 1)) = unat x mod 2 ^ k"
  unfolding word_and_minus_one_mask unsigned_take_bit_eq by (simp only: take_bit_eq_mod)

lemma and_not_low_eq:
  fixes x :: "'a::len word"
  shows "x AND NOT (2 ^ k - 1) = x - take_bit k x"
proof -
  have "x = (x AND NOT (mask k)) + take_bit k x"
    by (subst disjunctive_add) (auto simp: bit_simps intro!: bit_eqI)
  then show ?thesis
    by (metis add_diff_cancel_right' mask_eq_exp_minus_1)
qed

lemma unat_and_not_low:
  fixes x :: "'a::len word"
  shows "unat (x AND NOT (2 ^ k - 1)) = unat x - unat x mod 2 ^ k"
proof -
  have le: "take_bit k x \<le> x"
    unfolding word_le_nat_alt unsigned_take_bit_eq by (simp add: take_bit_eq_mod)
  show ?thesis
    unfolding and_not_low_eq unat_sub [OF le] unsigned_take_bit_eq by (simp only: take_bit_eq_mod)
qed

lemma unat_drop_bit_div:
  fixes x :: "'a::len word"
  shows "unat (drop_bit k x) = unat x div 2 ^ k"
  unfolding unat_drop_bit_eq by (simp only: drop_bit_eq_div)

text \<open>Membership in a region \<open>[d, d + n)\<close> of the 64-bit address space, wrapping at its end.\<close>

lemma unat_diff_shift:
  fixes a d :: u64
  assumes "j + k \<le> 2 ^ 64"
  shows "unat (a - (d + of_nat j)) < k \<longleftrightarrow> j \<le> unat (a - d) \<and> unat (a - d) < j + k"
proof -
  define w where "w = a - d"
  have eq: "a - (d + of_nat j) = w - of_nat j"
    by (simp add: w_def)
  show ?thesis
  proof (cases "k = 0")
    case False
    then have j: "j < 2 ^ 64" using assms by linarith
    then have uj: "unat (of_nat j :: u64) = j"
      by (simp add: unat_of_nat take_bit_nat_eq_self unsigned_of_nat)
    have "unat w < 2 ^ 64" using unsigned_less [of w] by simp
    then show ?thesis
      using assms j unfolding eq w_def [symmetric]
      by (auto simp: unat_sub_if' uj)
  qed auto
qed

lemma unat_exp64: "n < 64 \<Longrightarrow> unat ((2::u64) ^ n) = 2 ^ n"
proof -
  assume "n < 64"
  then have "(2::nat) ^ n < 2 ^ 64" by (rule power_strict_increasing) simp
  moreover have "(2::u64) ^ n = of_nat (2 ^ n)" by simp
  ultimately show ?thesis by (simp only: unat_of_nat) simp
qed

lemma push_drop_aligned:
  fixes x :: u64
  assumes "x AND (2 ^ k - 1) = 0"
  shows "push_bit k (drop_bit k x) = x"
proof -
  have "take_bit k x = 0" using assms by (simp add: word_and_minus_one_mask)
  then show ?thesis using bits_ident [of k x] by simp
qed

lemma unat_of_nat64: "n < 2 ^ 64 \<Longrightarrow> unat (of_nat n :: u64) = n"
  by (simp add: unsigned_of_nat take_bit_nat_eq_self)

lemma of_nat_unat64 [simp]: "of_nat (unat w) = (w :: u64)"
  by simp

end
