(* ===== verification/Drv_Types.thy ===== *)
theory Drv_Types
  imports Prelude
begin

text \<open>
  Data of the kernel driver (src/gdrdrv/gdrdrv.c, src/gdrdrv/gdrdrv.h): the build and platform
  configuration, the memory region object \<open>gdr_mr\<close>, the per-file object \<open>gdr_info\<close>, the VMAs
  of the processes that map the device, the global state, and the calls the driver makes into
  the kernel's memory manager and the NVIDIA driver.

  Objects that the C code reaches through pointers live in a store: a \<open>gdr_mr\<close> is named by the
  address \<open>kmalloc\<close> gave it, a VMA by an address, and an open file (and the \<open>gdr_info\<close> its
  \<open>private_data\<close> points to) by a number. kfree removes an object from its store, so that a later
  access is \<^const>\<open>UseAfterFree\<close>.
\<close>

section \<open>Error numbers\<close>

text \<open>The values of include/uapi/asm-generic/errno.h; a handler returns their negation.\<close>

definition EIO :: int where "EIO = 5"
definition ENXIO :: int where "ENXIO = 6"
definition EAGAIN :: int where "EAGAIN = 11"
definition ENOMEM :: int where "ENOMEM = 12"
definition EACCES :: int where "EACCES = 13"
definition EFAULT :: int where "EFAULT = 14"
definition EBUSY :: int where "EBUSY = 16"
definition EINVAL :: int where "EINVAL = 22"
definition ENOTTY :: int where "ENOTTY = 25"
definition EOPNOTSUPP :: int where "EOPNOTSUPP = 95"

lemmas errno_defs = EIO_def ENXIO_def EAGAIN_def ENOMEM_def EACCES_def EFAULT_def EBUSY_def
  EINVAL_def ENOTTY_def EOPNOTSUPP_def

declare errno_defs [guard_simps]

section \<open>Constants of gdrdrv.h and gdrdrv.c\<close>

definition GPU_PAGE_SHIFT :: nat where "GPU_PAGE_SHIFT = 16"
definition GPU_PAGE_SIZE :: u64 where "GPU_PAGE_SIZE = push_bit GPU_PAGE_SHIFT 1"
definition GPU_PAGE_OFFSET :: u64 where "GPU_PAGE_OFFSET = GPU_PAGE_SIZE - 1"
definition GPU_PAGE_MASK :: u64 where "GPU_PAGE_MASK = NOT GPU_PAGE_OFFSET"

definition GDRDRV_MAJOR_VERSION_SHIFT :: nat where "GDRDRV_MAJOR_VERSION_SHIFT = 16"
definition GDRDRV_VERSION :: u32 where
  "GDRDRV_VERSION = push_bit GDRDRV_MAJOR_VERSION_SHIFT 2 OR 5"
definition MINIMUM_GDR_API_VERSION :: u32 where
  "MINIMUM_GDR_API_VERSION = push_bit 16 2 OR 0"

definition GDRDRV_PIN_BUFFER_FLAG_DEFAULT :: u32 where "GDRDRV_PIN_BUFFER_FLAG_DEFAULT = 0"
definition GDRDRV_PIN_BUFFER_FLAG_FORCE_PCIE :: u32 where
  "GDRDRV_PIN_BUFFER_FLAG_FORCE_PCIE = 1"

definition GDRDRV_ATTR_USE_PERSISTENT_MAPPING :: u32 where
  "GDRDRV_ATTR_USE_PERSISTENT_MAPPING = 1"
definition GDRDRV_ATTR_SUPPORT_PIN_FLAG_FORCE_PCIE :: u32 where
  "GDRDRV_ATTR_SUPPORT_PIN_FLAG_FORCE_PCIE = 2"

text \<open>The enumeration \<open>gdr_mr_type_t\<close> and its values as they cross the ioctl interface.\<close>

datatype mr_type = GDR_MR_NONE | GDR_MR_WC | GDR_MR_CACHING | GDR_MR_DEVICE

fun mr_type_val :: "mr_type \<Rightarrow> u32" where
  "mr_type_val GDR_MR_NONE = 0"
| "mr_type_val GDR_MR_WC = 1"
| "mr_type_val GDR_MR_CACHING = 2"
| "mr_type_val GDR_MR_DEVICE = 3"

definition mr_type_of :: "u32 \<Rightarrow> mr_type option" where
  "mr_type_of v =
     (if v = 0 then Some GDR_MR_NONE else if v = 1 then Some GDR_MR_WC
      else if v = 2 then Some GDR_MR_CACHING else if v = 3 then Some GDR_MR_DEVICE else None)"

lemma mr_type_of_val [simp]: "mr_type_of (mr_type_val t) = Some t"
  by (cases t) (simp_all add: mr_type_of_def)

lemma mr_type_of_Some: "mr_type_of v = Some t \<longleftrightarrow> v = mr_type_val t"
  by (cases t) (auto simp: mr_type_of_def split: if_splits)

lemma mr_type_val_inject [simp]: "mr_type_val a = mr_type_val b \<longleftrightarrow> a = b"
  by (cases a; cases b) simp_all

section \<open>Build and platform configuration\<close>

datatype cpu_arch = X86 | PPC64 | ARM64

text \<open>
  What the preprocessor, the module parameters and the running kernel fix: the page size
  (\<open>PAGE_SHIFT\<close>), the architecture, the NVIDIA driver flavour (\<open>GDRDRV_OPENSOURCE_NVIDIA\<close>), which
  \<open>NVIDIA_P2P_*\<close> macros nv-p2p.h defines, and the kernel functions and constants that the
  driver calls, as parameters.
\<close>

record drv_cfg =
  PAGE_SHIFT :: nat
  arch :: cpu_arch
  opensource :: bool                     \<comment> \<open>GDRDRV_OPENSOURCE_NVIDIA\<close>
  kernel_5_13_x86_64 :: bool             \<comment> \<open>LINUX_VERSION_CODE >= 5.13 and CONFIG_X86_64\<close>
  kernel_pat_enabled :: bool             \<comment> \<open>pat_enabled()\<close>
  use_persistent_mapping :: bool         \<comment> \<open>module parameter\<close>
  dbg_enabled :: bool                    \<comment> \<open>module parameter\<close>
  persistent_api :: bool                 \<comment> \<open>NVIDIA_P2P_CAP_GET_PAGES_PERSISTENT_API is defined\<close>
  persistent_pages :: "bool option"      \<comment> \<open>NVIDIA_P2P_CAP_PERSISTENT_PAGES: its variable\<close>
  force_bar1 :: "u32 option"             \<comment> \<open>NVIDIA_P2P_FLAGS_FORCE_BAR1_MAPPING: its value\<close>
  p2p_version :: u32                     \<comment> \<open>NVIDIA_P2P_PAGE_TABLE_VERSION\<close>
  power9 :: bool                         \<comment> \<open>PVR_POWER9 defined and pvr_version_is(PVR_POWER9)\<close>
  bf3_root :: "u32 \<Rightarrow> u32 \<Rightarrow> bool"        \<comment> \<open>pci_get_device(vendor, device) finds a device\<close>
  k_page_is_ram :: "u64 \<Rightarrow> bool"          \<comment> \<open>page_is_ram(pfn)\<close>
  k_round_up :: "u64 \<Rightarrow> u64 \<Rightarrow> u64"        \<comment> \<open>round_up(x, y)\<close>
  k_writecombine :: "u64 \<Rightarrow> u64"          \<comment> \<open>pgprot_writecombine\<close>
  k_device :: "u64 \<Rightarrow> u64"                \<comment> \<open>pgprot_device\<close>
  k_page_pse :: u64                      \<comment> \<open>_PAGE_PSE\<close>
  k_page_pcd :: u64                      \<comment> \<open>_PAGE_PCD\<close>
  k_page_pwt :: u64                      \<comment> \<open>_PAGE_PWT\<close>
  k_vm_dontcopy :: u64                   \<comment> \<open>VM_DONTCOPY\<close>
  cc_platform :: bool                    \<comment> \<open>CONFIG_ARCH_HAS_CC_PLATFORM\<close>
  k_sme_clr :: "u64 \<Rightarrow> u64"               \<comment> \<open>__sme_clr on a page protection\<close>

definition PAGE_SIZE :: "drv_cfg \<Rightarrow> u64" where
  "PAGE_SIZE c = push_bit (PAGE_SHIFT c) 1"

section \<open>Page tables of the NVIDIA driver\<close>

text \<open>
  \<open>nvidia_p2p_page_table_t\<close>: its version, page size class, the CPU_CACHEABLE flag and the physical
  addresses of its pages (\<open>entries\<close> is the length of the list). \<open>pt_id\<close> names the object.
\<close>

datatype p2p_page_size =
    NVIDIA_P2P_PAGE_SIZE_4KB | NVIDIA_P2P_PAGE_SIZE_64KB | NVIDIA_P2P_PAGE_SIZE_128KB
  | P2P_PAGE_SIZE_OTHER nat

record page_table =
  pt_id :: nat
  pt_version :: u32
  pt_page_size :: p2p_page_size
  pt_cacheable :: bool
  pt_pages :: "u64 list"

abbreviation pt_entries :: "page_table \<Rightarrow> nat" where
  "pt_entries pt \<equiv> length (pt_pages pt)"

section \<open>Objects of the driver\<close>

datatype rwsem = SemFree | SemReaders nat | SemWriter

record gdr_mr =
  mr_handle :: u64
  mr_offset :: u64
  mr_p2p_token :: u64
  mr_va_space :: u32
  mr_page_size :: u32
  mr_va :: u64
  mr_mapped_size :: u64
  mr_cpu_mapping_type :: mr_type
  mr_req_mapping_type :: mr_type
  mr_page_table :: "page_table option"
  mr_cb_flag :: bool
  mr_tm_cycles :: u64
  mr_tsc_khz :: u32
  mr_vma :: "nat option"
  mr_mapping :: "nat option"
  mr_sem :: rwsem
  mr_force_pci :: bool

text \<open>The object after \<open>memset(mr, 0, sizeof(*mr))\<close> and \<open>init_rwsem\<close>.\<close>

definition zero_mr :: gdr_mr where
  "zero_mr = \<lparr>mr_handle = 0, mr_offset = 0, mr_p2p_token = 0, mr_va_space = 0, mr_page_size = 0,
     mr_va = 0, mr_mapped_size = 0, mr_cpu_mapping_type = GDR_MR_NONE,
     mr_req_mapping_type = GDR_MR_NONE, mr_page_table = None, mr_cb_flag = False,
     mr_tm_cycles = 0, mr_tsc_khz = 0, mr_vma = None, mr_mapping = None, mr_sem = SemFree,
     mr_force_pci = False\<rparr>"

record gdr_info =
  mr_list :: "nat list"
  info_lock :: bool
  tgid :: nat
  next_handle :: u64
  next_handle_overflow :: bool

record vma =
  vm_start :: u64
  vm_end :: u64
  vm_pgoff :: u64
  vm_file :: "nat option"
  vm_flags :: u64
  vm_page_prot :: u64
  vm_ops :: bool                         \<comment> \<open>vm_ops points to gdrdrv_vm_ops\<close>

text \<open>
  Calls out of the driver, in the order it makes them: pages mapped into a VMA
  (\<open>io_remap_pfn_range\<close>: VMA, address, pfn, size, protection, status), a range of a file's
  mappings removed (\<open>unmap_mapping_range\<close>: address space, offset, length), a page table given
  back (\<open>nvidia_p2p_put_pages*\<close>: page table, status) or released inside the callback
  (\<open>nvidia_p2p_free_page_table\<close>).
\<close>

datatype kcall =
    RemapPfn nat u64 u64 u64 u64 int
  | UnmapRange "nat option" u64 u64
  | PutPages nat int
  | FreePageTable nat

record drv =
  mrs :: "nat \<rightharpoonup> gdr_mr"
  private_data :: "nat \<rightharpoonup> gdr_info"
  f_mapping :: "nat \<rightharpoonup> nat"
  vmas :: "nat \<rightharpoonup> vma"
  nv_get_pages_refcount :: int
  gdrdrv_major :: int
  cpu_could_cache_gpu_mappings :: bool
  cpu_must_use_device_mapping :: bool
  calls :: "kcall list"

section \<open>Access to the stores\<close>

definition mr_at :: "nat \<Rightarrow> drv \<Rightarrow> gdr_mr run" where
  "mr_at p s = (case mrs s p of None \<Rightarrow> Inl UseAfterFree | Some m \<Rightarrow> Inr m)"

definition info_at :: "nat \<Rightarrow> drv \<Rightarrow> gdr_info run" where
  "info_at f s = (case private_data s f of None \<Rightarrow> Inl NullDeref | Some i \<Rightarrow> Inr i)"

definition vma_at :: "nat \<Rightarrow> drv \<Rightarrow> vma run" where
  "vma_at v s = (case vmas s v of None \<Rightarrow> Inl UseAfterFree | Some a \<Rightarrow> Inr a)"

definition set_mr :: "nat \<Rightarrow> gdr_mr \<Rightarrow> drv \<Rightarrow> drv" where
  "set_mr p m s = s\<lparr>mrs := (mrs s)(p \<mapsto> m)\<rparr>"

definition set_info :: "nat \<Rightarrow> gdr_info \<Rightarrow> drv \<Rightarrow> drv" where
  "set_info f i s = s\<lparr>private_data := (private_data s)(f \<mapsto> i)\<rparr>"

definition set_vma :: "nat \<Rightarrow> vma \<Rightarrow> drv \<Rightarrow> drv" where
  "set_vma v a s = s\<lparr>vmas := (vmas s)(v \<mapsto> a)\<rparr>"

definition emit :: "kcall \<Rightarrow> drv \<Rightarrow> drv" where
  "emit k s = s\<lparr>calls := calls s @ [k]\<rparr>"

lemma mr_at_eq_Inr [simp]: "mr_at p s = Inr m \<longleftrightarrow> mrs s p = Some m"
  by (simp add: mr_at_def split: option.splits)

lemma info_at_eq_Inr [simp]: "info_at f s = Inr i \<longleftrightarrow> private_data s f = Some i"
  by (simp add: info_at_def split: option.splits)

lemma vma_at_eq_Inr [simp]: "vma_at v s = Inr a \<longleftrightarrow> vmas s v = Some a"
  by (simp add: vma_at_def split: option.splits)

lemma mr_at_Some [simp]: "mrs s p = Some m \<Longrightarrow> mr_at p s = Inr m"
  by simp

lemma info_at_Some [simp]: "private_data s f = Some i \<Longrightarrow> info_at f s = Inr i"
  by simp

lemma vma_at_Some [simp]: "vmas s v = Some a \<Longrightarrow> vma_at v s = Inr a"
  by simp

lemma set_mr_simps [simp]:
  "mrs (set_mr p m s) = (mrs s)(p \<mapsto> m)"
  "private_data (set_mr p m s) = private_data s"
  "f_mapping (set_mr p m s) = f_mapping s"
  "vmas (set_mr p m s) = vmas s"
  "nv_get_pages_refcount (set_mr p m s) = nv_get_pages_refcount s"
  "gdrdrv_major (set_mr p m s) = gdrdrv_major s"
  "cpu_could_cache_gpu_mappings (set_mr p m s) = cpu_could_cache_gpu_mappings s"
  "cpu_must_use_device_mapping (set_mr p m s) = cpu_must_use_device_mapping s"
  "calls (set_mr p m s) = calls s"
  by (simp_all add: set_mr_def)

lemma set_info_simps [simp]:
  "mrs (set_info f i s) = mrs s"
  "private_data (set_info f i s) = (private_data s)(f \<mapsto> i)"
  "f_mapping (set_info f i s) = f_mapping s"
  "vmas (set_info f i s) = vmas s"
  "nv_get_pages_refcount (set_info f i s) = nv_get_pages_refcount s"
  "gdrdrv_major (set_info f i s) = gdrdrv_major s"
  "cpu_could_cache_gpu_mappings (set_info f i s) = cpu_could_cache_gpu_mappings s"
  "cpu_must_use_device_mapping (set_info f i s) = cpu_must_use_device_mapping s"
  "calls (set_info f i s) = calls s"
  by (simp_all add: set_info_def)

lemma set_vma_simps [simp]:
  "mrs (set_vma v a s) = mrs s"
  "private_data (set_vma v a s) = private_data s"
  "f_mapping (set_vma v a s) = f_mapping s"
  "vmas (set_vma v a s) = (vmas s)(v \<mapsto> a)"
  "nv_get_pages_refcount (set_vma v a s) = nv_get_pages_refcount s"
  "gdrdrv_major (set_vma v a s) = gdrdrv_major s"
  "cpu_could_cache_gpu_mappings (set_vma v a s) = cpu_could_cache_gpu_mappings s"
  "cpu_must_use_device_mapping (set_vma v a s) = cpu_must_use_device_mapping s"
  "calls (set_vma v a s) = calls s"
  by (simp_all add: set_vma_def)

lemma emit_simps [simp]:
  "mrs (emit k s) = mrs s"
  "private_data (emit k s) = private_data s"
  "f_mapping (emit k s) = f_mapping s"
  "vmas (emit k s) = vmas s"
  "nv_get_pages_refcount (emit k s) = nv_get_pages_refcount s"
  "gdrdrv_major (emit k s) = gdrdrv_major s"
  "cpu_could_cache_gpu_mappings (emit k s) = cpu_could_cache_gpu_mappings s"
  "cpu_must_use_device_mapping (emit k s) = cpu_must_use_device_mapping s"
  "calls (emit k s) = calls s @ [k]"
  by (simp_all add: emit_def)

lemma set_mr_twice [simp]: "set_mr p m (set_mr p n s) = set_mr p m s"
  by (simp add: set_mr_def)

lemma set_info_twice [simp]: "set_info f i (set_info f j s) = set_info f i s"
  by (simp add: set_info_def)

lemma set_mr_same: "mrs s p = Some m \<Longrightarrow> set_mr p m s = s"
  by (simp add: set_mr_def fun_upd_idem)

lemma set_info_same: "private_data s f = Some i \<Longrightarrow> set_info f i s = s"
  by (simp add: set_info_def fun_upd_idem)

lemma set_mr_set_info: "set_mr p m (set_info f i s) = set_info f i (set_mr p m s)"
  by (simp add: set_mr_def set_info_def)

lemma set_mr_set_vma: "set_mr p m (set_vma v a s) = set_vma v a (set_mr p m s)"
  by (simp add: set_mr_def set_vma_def)

lemma info_lock_same: "\<not> info_lock i \<Longrightarrow> i\<lparr>info_lock := False\<rparr> = i"
  by (cases i) simp

section \<open>Locks\<close>

text \<open>
  \<open>down_write\<close>, \<open>down_read\<close>, \<open>up_write\<close> and \<open>up_read\<close> on \<open>mr->sem\<close>, \<open>mutex_lock\<close> and
  \<open>mutex_unlock\<close> on \<open>info->lock\<close>. An operation of the driver runs here as one step, so a lock it
  finds taken is one it holds itself (\<^const>\<open>Deadlock\<close>); releasing a lock that is not held is
  \<^const>\<open>BadUnlock\<close>.
\<close>

definition down_write :: "nat \<Rightarrow> drv \<Rightarrow> drv run" where
  "down_write p s = bindE (mr_at p s) (\<lambda>m.
     if mr_sem m = SemFree then Inr (set_mr p (m\<lparr>mr_sem := SemWriter\<rparr>) s) else Inl Deadlock)"

definition up_write :: "nat \<Rightarrow> drv \<Rightarrow> drv run" where
  "up_write p s = bindE (mr_at p s) (\<lambda>m.
     if mr_sem m = SemWriter then Inr (set_mr p (m\<lparr>mr_sem := SemFree\<rparr>) s) else Inl BadUnlock)"

definition down_read :: "nat \<Rightarrow> drv \<Rightarrow> drv run" where
  "down_read p s = bindE (mr_at p s) (\<lambda>m.
     case mr_sem m of
       SemFree \<Rightarrow> Inr (set_mr p (m\<lparr>mr_sem := SemReaders 1\<rparr>) s)
     | SemReaders n \<Rightarrow> Inr (set_mr p (m\<lparr>mr_sem := SemReaders (Suc n)\<rparr>) s)
     | SemWriter \<Rightarrow> Inl Deadlock)"

definition up_read :: "nat \<Rightarrow> drv \<Rightarrow> drv run" where
  "up_read p s = bindE (mr_at p s) (\<lambda>m.
     case mr_sem m of
       SemReaders (Suc 0) \<Rightarrow> Inr (set_mr p (m\<lparr>mr_sem := SemFree\<rparr>) s)
     | SemReaders (Suc (Suc n)) \<Rightarrow> Inr (set_mr p (m\<lparr>mr_sem := SemReaders (Suc n)\<rparr>) s)
     | _ \<Rightarrow> Inl BadUnlock)"

definition mutex_lock :: "nat \<Rightarrow> drv \<Rightarrow> drv run" where
  "mutex_lock f s = bindE (info_at f s) (\<lambda>i.
     if info_lock i then Inl Deadlock else Inr (set_info f (i\<lparr>info_lock := True\<rparr>) s))"

definition mutex_unlock :: "nat \<Rightarrow> drv \<Rightarrow> drv run" where
  "mutex_unlock f s = bindE (info_at f s) (\<lambda>i.
     if info_lock i then Inr (set_info f (i\<lparr>info_lock := False\<rparr>) s) else Inl BadUnlock)"

lemmas lock_defs = down_write_def up_write_def down_read_def up_read_def mutex_lock_def
  mutex_unlock_def

end
