(* ===== verification/Drv_Platform.thy ===== *)
theory Drv_Platform
  imports Drv_Types
begin

text \<open>
  The driver's platform layer (src/gdrdrv/gdrdrv.c): PAT awareness, page protections per
  architecture, whether a physical page is RAM, the version check of the NVIDIA page table, and
  the two features that depend on the NVIDIA driver (persistent mappings, forced PCIe mappings).
\<close>

section \<open>PAT and page protections\<close>

definition GDRDRV_KERNEL_MAY_USE_PAT :: "drv_cfg \<Rightarrow> bool" where
  "GDRDRV_KERNEL_MAY_USE_PAT c \<longleftrightarrow> kernel_5_13_x86_64 c"

definition GDRDRV_CAN_CALL_PAT_ENABLED :: "drv_cfg \<Rightarrow> bool" where
  "GDRDRV_CAN_CALL_PAT_ENABLED c \<longleftrightarrow> kernel_5_13_x86_64 c \<and> opensource c"

definition gdrdrv_pat_enabled :: "drv_cfg \<Rightarrow> bool" where
  "gdrdrv_pat_enabled c =
     (if GDRDRV_CAN_CALL_PAT_ENABLED c then kernel_pat_enabled c
      else if GDRDRV_KERNEL_MAY_USE_PAT c then True else False)"

definition pgprot_modify_writecombine :: "drv_cfg \<Rightarrow> u64 \<Rightarrow> u64" where
  "pgprot_modify_writecombine c old_prot =
     (case arch c of
        X86 \<Rightarrow>
          (let new_prot = old_prot AND NOT (k_page_pse c OR k_page_pcd c OR k_page_pwt c)
           in new_prot OR k_page_pwt c)
      | PPC64 \<Rightarrow> k_writecombine c old_prot
      | ARM64 \<Rightarrow> k_writecombine c old_prot)"

definition pgprot_modify_device :: "drv_cfg \<Rightarrow> u64 \<Rightarrow> u64 run" where
  "pgprot_modify_device c old_prot =
     (case arch c of
        X86 \<Rightarrow> Inl BugOn
      | PPC64 \<Rightarrow> Inl BugOn
      | ARM64 \<Rightarrow> Inr (k_device c old_prot))"

section \<open>RAM or BAR\<close>

text \<open>
  On POWER with the proprietary flavour, memory below 2^47 counts as RAM when the platform could
  cache GPU mappings at all.
\<close>

definition gdr_pfn_is_ram :: "drv_cfg \<Rightarrow> drv \<Rightarrow> u64 \<Rightarrow> bool" where
  "gdr_pfn_is_ram c s pfn =
     (case arch c of
        X86 \<Rightarrow> False
      | PPC64 \<Rightarrow>
          if opensource c then k_page_is_ram c pfn
          else
            (let start = push_bit (PAGE_SHIFT c) pfn; mask_47bits = push_bit 47 1 - 1
             in cpu_could_cache_gpu_mappings s \<and> start AND NOT mask_47bits = 0)
      | ARM64 \<Rightarrow> if opensource c then k_page_is_ram c pfn else False)"

section \<open>Version of the page table\<close>

definition NVIDIA_P2P_MAJOR_VERSION :: "u32 \<Rightarrow> u32" where
  "NVIDIA_P2P_MAJOR_VERSION v = drop_bit 16 (v AND 0xffff0000)"

definition NVIDIA_P2P_MINOR_VERSION :: "u32 \<Rightarrow> u32" where
  "NVIDIA_P2P_MINOR_VERSION v = v AND 0x0000ffff"

definition NVIDIA_P2P_VERSION_COMPATIBLE :: "u32 \<Rightarrow> u32 \<Rightarrow> bool" where
  "NVIDIA_P2P_VERSION_COMPATIBLE pv v \<longleftrightarrow>
     NVIDIA_P2P_MAJOR_VERSION pv = NVIDIA_P2P_MAJOR_VERSION v \<and>
     NVIDIA_P2P_MINOR_VERSION pv \<ge> NVIDIA_P2P_MINOR_VERSION v"

definition NVIDIA_P2P_PAGE_TABLE_VERSION_COMPATIBLE :: "drv_cfg \<Rightarrow> page_table \<Rightarrow> bool" where
  "NVIDIA_P2P_PAGE_TABLE_VERSION_COMPATIBLE c pt \<longleftrightarrow>
     NVIDIA_P2P_VERSION_COMPATIBLE (pt_version pt) (p2p_version c)"

definition GDRDRV_NVIDIA_P2P_PAGE_TABLE_VERSION_COMPATIBLE :: "u32 \<Rightarrow> u32 \<Rightarrow> bool" where
  "GDRDRV_NVIDIA_P2P_PAGE_TABLE_VERSION_COMPATIBLE cur_ver min_ver \<longleftrightarrow>
     NVIDIA_P2P_MAJOR_VERSION cur_ver = NVIDIA_P2P_MAJOR_VERSION min_ver \<and>
     NVIDIA_P2P_MINOR_VERSION cur_ver \<ge> NVIDIA_P2P_MINOR_VERSION min_ver"

text \<open>The \<open>#if\<close> that admits a build at all, and the one that admits the page table's flags.\<close>

definition p2p_build_supported :: "drv_cfg \<Rightarrow> bool" where
  "p2p_build_supported c \<longleftrightarrow>
     GDRDRV_NVIDIA_P2P_PAGE_TABLE_VERSION_COMPATIBLE (p2p_version c) 0x00010000 \<or>
     GDRDRV_NVIDIA_P2P_PAGE_TABLE_VERSION_COMPATIBLE (p2p_version c) 0x00020000"

definition page_table_has_flags :: "drv_cfg \<Rightarrow> bool" where
  "page_table_has_flags c \<longleftrightarrow>
     GDRDRV_NVIDIA_P2P_PAGE_TABLE_VERSION_COMPATIBLE (p2p_version c) 0x00010003 \<or>
     GDRDRV_NVIDIA_P2P_PAGE_TABLE_VERSION_COMPATIBLE (p2p_version c) 0x00020000"

section \<open>Features\<close>

definition gdr_support_persistent_mapping :: "drv_cfg \<Rightarrow> bool" where
  "gdr_support_persistent_mapping c =
     (if persistent_api c then True
      else (case persistent_pages c of Some v \<Rightarrow> v | None \<Rightarrow> False))"

definition gdr_use_persistent_mapping :: "drv_cfg \<Rightarrow> bool" where
  "gdr_use_persistent_mapping c \<longleftrightarrow> use_persistent_mapping c \<and> gdr_support_persistent_mapping c"

definition gdr_support_force_pcie :: "drv_cfg \<Rightarrow> bool" where
  "gdr_support_force_pcie c =
     (case force_bar1 c of Some f \<Rightarrow> gdr_use_persistent_mapping c | None \<Rightarrow> False)"

definition gdr_mr_supports_cache_mapping :: "drv_cfg \<Rightarrow> drv \<Rightarrow> gdr_mr \<Rightarrow> bool" where
  "gdr_mr_supports_cache_mapping c s mr =
     (if \<not> cpu_could_cache_gpu_mappings s then False
      else case mr_page_table mr of
          None \<Rightarrow> False
        | Some pt \<Rightarrow>
            (case pt_pages pt of
               [] \<Rightarrow> False
             | pa # _ \<Rightarrow>
                 gdr_pfn_is_ram c s (drop_bit (PAGE_SHIFT c) pa) \<or>
                 (page_table_has_flags c \<and> pt_cacheable pt)))"

lemma no_cache_mapping_on_x86:
  "cpu_could_cache_gpu_mappings s = False \<Longrightarrow> \<not> gdr_mr_supports_cache_mapping c s mr"
  by (simp add: gdr_mr_supports_cache_mapping_def)

text \<open>A forced PCIe mapping needs the flag at build time and persistent mappings at run time.\<close>

lemma force_pcie_iff:
  "gdr_support_force_pcie c \<longleftrightarrow> force_bar1 c \<noteq> None \<and> gdr_use_persistent_mapping c"
  by (auto simp: gdr_support_force_pcie_def split: option.splits)

end
