(* ===== verification/Drv_Mr.thy ===== *)
theory Drv_Mr
  imports Drv_Platform
begin

text \<open>
  Memory regions (src/gdrdrv/gdrdrv.c): destroying the mapping of a region, finding a region by
  its handle and locking it, generating handles, freeing a region, and the callback by which the
  NVIDIA driver takes the pages back.
\<close>

section \<open>Mapping state\<close>

definition gdr_mr_is_mapped :: "gdr_mr \<Rightarrow> bool" where
  "gdr_mr_is_mapped mr \<longleftrightarrow> mr_cpu_mapping_type mr \<noteq> GDR_MR_NONE"

definition gdrdrv_zap_vma :: "drv_cfg \<Rightarrow> nat option \<Rightarrow> vma \<Rightarrow> drv \<Rightarrow> drv" where
  "gdrdrv_zap_vma c mapping a s =
     emit (UnmapRange mapping (push_bit (PAGE_SHIFT c) (vm_pgoff a)) (vm_end a - vm_start a)) s"

definition gdr_mr_destroy_all_mappings :: "drv_cfg \<Rightarrow> nat \<Rightarrow> drv \<Rightarrow> drv run" where
  "gdr_mr_destroy_all_mappings c p s =
     bindE (mr_at p s) (\<lambda>mr.
     bindE (case mr_vma mr of
              None \<Rightarrow> Inr s
            | Some v \<Rightarrow> bindE (vma_at v s) (\<lambda>a. Inr (gdrdrv_zap_vma c (mr_mapping mr) a s)))
       (\<lambda>s1. Inr (set_mr p (mr\<lparr>mr_cpu_mapping_type := GDR_MR_NONE\<rparr>) s1)))"

section \<open>Finding and locking a region\<close>

text \<open>
  \<open>list_for_each\<close> over \<open>mr_list\<close>. The cursor \<open>mr\<close> is assigned before the handle is compared, so
  after a loop that finds no match it holds the last element, not NULL.
\<close>

fun gdr_mr_from_handle_loop :: "drv \<Rightarrow> u64 \<Rightarrow> nat list \<Rightarrow> nat option \<Rightarrow> nat option run" where
  "gdr_mr_from_handle_loop s h [] mr = Inr mr"
| "gdr_mr_from_handle_loop s h (p # ps) mr =
     bindE (mr_at p s) (\<lambda>m.
       if h = mr_handle m then Inr (Some p) else gdr_mr_from_handle_loop s h ps (Some p))"

definition gdr_mr_from_handle_unlocked :: "nat \<Rightarrow> u64 \<Rightarrow> drv \<Rightarrow> nat option run" where
  "gdr_mr_from_handle_unlocked f h s =
     bindE (info_at f s) (\<lambda>i. gdr_mr_from_handle_loop s h (mr_list i) None)"

definition gdr_get_mr_from_handle :: "nat \<Rightarrow> u64 \<Rightarrow> bool \<Rightarrow> drv \<Rightarrow> (nat option \<times> drv) run" where
  "gdr_get_mr_from_handle f h write s =
     bindE (mutex_lock f s) (\<lambda>s1.
     bindE (gdr_mr_from_handle_unlocked f h s1) (\<lambda>mr.
     bindE (case mr of
              None \<Rightarrow> Inr s1
            | Some p \<Rightarrow> if write then down_write p s1 else down_read p s1) (\<lambda>s2.
     bindE (mutex_unlock f s2) (\<lambda>s3. Inr (mr, s3)))))"

definition gdr_put_mr :: "nat \<Rightarrow> bool \<Rightarrow> drv \<Rightarrow> drv run" where
  "gdr_put_mr p write s = (if write then up_write p s else up_read p s)"

definition gdrdrv_handle_from_off :: "u64 \<Rightarrow> u64" where
  "gdrdrv_handle_from_off off = off"

section \<open>Handles\<close>

text \<open>
  A handle is a page offset of the device file: region \<open>mr\<close> owns the file pages
  \<open>[handle, handle + MAX(1, mapped_size >> PAGE_SHIFT))\<close>. The function returns 0 or -1.
\<close>

definition handle_pages :: "drv_cfg \<Rightarrow> u64 \<Rightarrow> u64" where
  "handle_pages c mapped_size = max 1 (drop_bit (PAGE_SHIFT c) mapped_size)"

definition gdr_generate_mr_handle :: "drv_cfg \<Rightarrow> nat \<Rightarrow> nat \<Rightarrow> drv \<Rightarrow> (int \<times> drv) run" where
  "gdr_generate_mr_handle c f p s =
     bindE (info_at f s) (\<lambda>i.
     bindE (mr_at p s) (\<lambda>mr.
       if next_handle_overflow i then Inr (-1, s)
       else
         (let nxt = next_handle i + handle_pages c (mr_mapped_size mr);
              ovf = (nxt AND drop_bit (PAGE_SHIFT c) (-1)) < next_handle i;
              s1 = set_mr p (mr\<lparr>mr_handle := next_handle i\<rparr>) s
          in Inr (0, set_info f
               (i\<lparr>next_handle := nxt,
                  next_handle_overflow := (if ovf then True else next_handle_overflow i)\<rparr>) s1))))"

section \<open>Giving the pages back\<close>

text \<open>
  What the NVIDIA driver and the allocator answer during one operation of the driver.
\<close>

record ext =
  x_kmalloc :: "nat option"   \<comment> \<open>kmalloc or kzalloc: the new object's address, NULL\<close>
  x_get_pages :: "u64 \<Rightarrow> u32 \<Rightarrow> u64 \<Rightarrow> u64 \<Rightarrow> int \<times> page_table option"
  x_get_pages_persistent :: "u64 \<Rightarrow> u64 \<Rightarrow> u32 \<Rightarrow> int \<times> page_table option"
  x_put_pages :: "u64 \<Rightarrow> u32 \<Rightarrow> u64 \<Rightarrow> page_table \<Rightarrow> int"
  x_put_pages_persistent :: "u64 \<Rightarrow> page_table \<Rightarrow> u32 \<Rightarrow> int"
  x_cycles :: "u64 \<times> u64"     \<comment> \<open>get_cycles() before and after the pinning call\<close>
  x_tsc_khz :: u32            \<comment> \<open>get_tsc_khz()\<close>

text \<open>
  \<open>gdr_free_mr_unlocked\<close> in two parts. The first ends when \<open>mr->sem\<close> is released, with the page
  table it read; from there on the callback may run, until \<open>nvidia_p2p_put_pages\<close> returns. The
  second gives the page table back and frees the object.
\<close>

definition gdr_free_mr_begin :: "nat \<Rightarrow> drv \<Rightarrow> (page_table option \<times> drv) run" where
  "gdr_free_mr_begin p s =
     bindE (mr_at p s) (\<lambda>mr.
     bindE (checkE (\<not> gdr_mr_is_mapped mr) BugOn) (\<lambda>_.
     bindE (up_write p s) (\<lambda>s1. Inr (mr_page_table mr, s1))))"

definition put_pages_status :: "drv_cfg \<Rightarrow> ext \<Rightarrow> gdr_mr \<Rightarrow> page_table \<Rightarrow> int" where
  "put_pages_status c x mr pt =
     (if persistent_api c \<and> gdr_use_persistent_mapping c
      then x_put_pages_persistent x (mr_va mr) pt 0
      else x_put_pages x (mr_p2p_token mr) (mr_va_space mr) (mr_va mr) pt)"

definition gdr_free_mr_finish :: "drv_cfg \<Rightarrow> ext \<Rightarrow> nat \<Rightarrow> page_table option \<Rightarrow> drv \<Rightarrow> drv run" where
  "gdr_free_mr_finish c x p page_table s =
     bindE (mr_at p s) (\<lambda>mr.
     bindE (case page_table of
         None \<Rightarrow> Inr s
       | Some pt \<Rightarrow>
           (let status = put_pages_status c x mr pt;
                s1 = emit (PutPages (pt_id pt) status) s
            in Inr (if status = 0
                    then s1\<lparr>nv_get_pages_refcount := nv_get_pages_refcount s1 - 1\<rparr> else s1)))
     (\<lambda>s2. Inr (s2\<lparr>mrs := (mrs s2)(p := None)\<rparr>)))"

definition gdr_free_mr_unlocked :: "drv_cfg \<Rightarrow> ext \<Rightarrow> nat \<Rightarrow> drv \<Rightarrow> drv run" where
  "gdr_free_mr_unlocked c x p s =
     bindE (gdr_free_mr_begin p s) (\<lambda>(pt, s1). gdr_free_mr_finish c x p pt s1)"

text \<open>
  The callback given to \<open>nvidia_p2p_get_pages\<close>; its argument is the region's address.
\<close>

definition gdrdrv_get_pages_free_callback :: "drv_cfg \<Rightarrow> nat \<Rightarrow> drv \<Rightarrow> drv run" where
  "gdrdrv_get_pages_free_callback c p s =
     bindE (down_write p s) (\<lambda>s1.
     bindE (mr_at p s1) (\<lambda>mr0.
     bindE (Inr (set_mr p (mr0\<lparr>mr_cb_flag := True\<rparr>) s1)) (\<lambda>s2.
     bindE (case mr_page_table mr0 of
              None \<Rightarrow> Inr s2
            | Some pt \<Rightarrow>
                (let s3 = emit (FreePageTable (pt_id pt)) s2;
                     s4 = s3\<lparr>nv_get_pages_refcount := nv_get_pages_refcount s3 - 1\<rparr>
                 in if gdr_mr_is_mapped mr0 then gdr_mr_destroy_all_mappings c p s4 else Inr s4))
       (\<lambda>s5.
     bindE (mr_at p s5) (\<lambda>mr.
     up_write p (set_mr p (mr\<lparr>mr_page_table := None\<rparr>) s5))))))"

section \<open>Lookup\<close>

text \<open>
  What the lookup loop computes on a list of live regions: the first region with the handle;
  without one, the last region of the list, and NULL only on an empty list.
\<close>

definition pick_mr :: "drv \<Rightarrow> u64 \<Rightarrow> nat list \<Rightarrow> nat option" where
  "pick_mr s h ps =
     (case List.find (\<lambda>p. h = mr_handle (the (mrs s p))) ps of
        Some p \<Rightarrow> Some p
      | None \<Rightarrow> (if ps = [] then None else Some (last ps)))"

definition live_mrs :: "drv \<Rightarrow> nat list \<Rightarrow> bool" where
  "live_mrs s ps \<longleftrightarrow> (\<forall>p \<in> set ps. \<exists>m. mrs s p = Some m)"

lemma live_mrs_Cons [simp]:
  "live_mrs s (p # ps) \<longleftrightarrow> (\<exists>m. mrs s p = Some m) \<and> live_mrs s ps"
  by (simp add: live_mrs_def)

lemma live_mrs_Nil [simp]: "live_mrs s []"
  by (simp add: live_mrs_def)

lemma from_handle_loop_eq:
  assumes "live_mrs s ps"
  shows "gdr_mr_from_handle_loop s h ps mr =
    Inr (case List.find (\<lambda>p. h = mr_handle (the (mrs s p))) ps of
           Some p \<Rightarrow> Some p
         | None \<Rightarrow> (if ps = [] then mr else Some (last ps)))"
  using assms
proof (induction ps arbitrary: mr)
  case Nil
  then show ?case by simp
next
  case (Cons p ps)
  then show ?case by (auto split: option.splits)
qed

lemma from_handle_eq:
  assumes "private_data s f = Some i" and "live_mrs s (mr_list i)"
  shows "gdr_mr_from_handle_unlocked f h s = Inr (pick_mr s h (mr_list i))"
  using assms by (simp add: gdr_mr_from_handle_unlocked_def from_handle_loop_eq pick_mr_def)

lemma pick_mr_in: "pick_mr s h ps = Some p \<Longrightarrow> p \<in> set ps"
  by (auto simp: pick_mr_def find_Some_iff split: option.splits if_splits)

lemma pick_mr_Nil [simp]: "pick_mr s h [] = None"
  by (simp add: pick_mr_def)

lemma pick_mr_None: "pick_mr s h ps = None \<longleftrightarrow> ps = []"
  by (auto simp: pick_mr_def split: option.splits)

lemma pick_mr_hit:
  assumes "p \<in> set ps" and "mrs s p = Some m" and "mr_handle m = h"
    and uniq: "\<And>q n. q \<in> set ps \<Longrightarrow> mrs s q = Some n \<Longrightarrow> mr_handle n = h \<Longrightarrow> q = p"
    and live: "live_mrs s ps"
  shows "pick_mr s h ps = Some p"
proof -
  have "List.find (\<lambda>p. h = mr_handle (the (mrs s p))) ps \<noteq> None"
    using assms(1-3) by (auto simp: find_None_iff)
  then obtain q where q: "List.find (\<lambda>p. h = mr_handle (the (mrs s p))) ps = Some q"
    by auto
  then have "q \<in> set ps" and "h = mr_handle (the (mrs s q))"
    by (auto simp: find_Some_iff)
  with live uniq have "q = p" by (fastforce simp: live_mrs_def)
  with q show ?thesis by (simp add: pick_mr_def)
qed

section \<open>States between operations\<close>

text \<open>
  Between two operations no lock is held, every list holds distinct live regions, and no region
  is on two lists.
\<close>

definition file_ok :: "drv \<Rightarrow> gdr_info \<Rightarrow> bool" where
  "file_ok s i \<longleftrightarrow> \<not> info_lock i \<and> distinct (mr_list i) \<and>
     (\<forall>p \<in> set (mr_list i). \<exists>m. mrs s p = Some m \<and> mr_sem m = SemFree)"

definition drv_ok :: "drv \<Rightarrow> bool" where
  "drv_ok s \<longleftrightarrow>
     (\<forall>f i. private_data s f = Some i \<longrightarrow> file_ok s i) \<and>
     (\<forall>f g i j. private_data s f = Some i \<longrightarrow> private_data s g = Some j \<longrightarrow> f \<noteq> g \<longrightarrow>
        set (mr_list i) \<inter> set (mr_list j) = {})"

lemma drv_ok_file: "drv_ok s \<Longrightarrow> private_data s f = Some i \<Longrightarrow> file_ok s i"
  by (simp add: drv_ok_def)

lemma file_ok_live: "file_ok s i \<Longrightarrow> live_mrs s (mr_list i)"
  by (auto simp: file_ok_def live_mrs_def)

lemma file_ok_mr:
  "file_ok s i \<Longrightarrow> p \<in> set (mr_list i) \<Longrightarrow> \<exists>m. mrs s p = Some m \<and> mr_sem m = SemFree"
  by (simp add: file_ok_def)

text \<open>Finding and locking a region, with the locks it leaves held.\<close>

lemma get_mr_eq:
  assumes f: "private_data s f = Some i" and ok: "file_ok s i"
  shows "gdr_get_mr_from_handle f h w s =
    Inr (case pick_mr s h (mr_list i) of
           None \<Rightarrow> (None, s)
         | Some p \<Rightarrow> (Some p, set_mr p
             ((the (mrs s p))\<lparr>mr_sem := if w then SemWriter else SemReaders 1\<rparr>) s))"
proof -
  let ?s1 = "set_info f (i\<lparr>info_lock := True\<rparr>) s"
  have nl: "\<not> info_lock i" using ok by (simp add: file_ok_def)
  have lock: "mutex_lock f s = Inr ?s1"
    using f nl by (simp add: mutex_lock_def)
  have pick: "pick_mr ?s1 h (mr_list i) = pick_mr s h (mr_list i)"
    by (simp add: pick_mr_def)
  have live: "live_mrs ?s1 (mr_list i)"
    using file_ok_live [OF ok] by (simp add: live_mrs_def)
  have look: "gdr_mr_from_handle_unlocked f h ?s1 = Inr (pick_mr s h (mr_list i))"
    using from_handle_eq [of ?s1 f "i\<lparr>info_lock := True\<rparr>" h] live by (simp add: pick)
  show ?thesis
  proof (cases "pick_mr s h (mr_list i)")
    case None
    then show ?thesis
      using f nl
      by (simp add: gdr_get_mr_from_handle_def lock look mutex_unlock_def info_lock_same
          set_info_same)
  next
    case (Some p)
    then obtain m where m: "mrs s p = Some m" "mr_sem m = SemFree"
      using file_ok_mr [OF ok] pick_mr_in by blast
    then show ?thesis
      using f nl Some
      by (simp add: gdr_get_mr_from_handle_def lock look mutex_unlock_def down_write_def
          down_read_def info_lock_same set_mr_set_info set_info_same)
  qed
qed

end
