(* ===== verification/Drv_Pin.thy ===== *)
theory Drv_Pin
  imports Drv_Mr
begin

text \<open>
  Opening and closing the device, pinning and unpinning (src/gdrdrv/gdrdrv.c): the operations
  that create and free memory regions.
\<close>

section \<open>Open and release\<close>

text \<open>
  \<open>minor\<close> is \<open>MINOR(inode->i_rdev)\<close>, \<open>filp\<close> the file, \<open>info_ok\<close> whether \<open>kzalloc\<close> succeeds, \<open>tg\<close> the task
  group of the caller. The address space of the new file is its own, named by \<open>filp\<close>.
\<close>

definition gdrdrv_open :: "nat \<Rightarrow> nat \<Rightarrow> bool \<Rightarrow> nat \<Rightarrow> drv \<Rightarrow> (int \<times> drv) run" where
  "gdrdrv_open minor filp info_ok tg s =
     (if minor \<ge> 1 then Inr (- ENXIO, s)
      else if \<not> info_ok then Inr (- ENOMEM, s)
      else
        (let info = \<lparr>mr_list = [], info_lock = False, tgid = tg, next_handle = 0,
                     next_handle_overflow = False\<rparr>
         in Inr (0, s\<lparr>f_mapping := (f_mapping s)(filp \<mapsto> filp),
                      private_data := (private_data s)(filp \<mapsto> info)\<rparr>)))"

definition list_del :: "nat \<Rightarrow> nat \<Rightarrow> drv \<Rightarrow> drv run" where
  "list_del f p s = bindE (info_at f s) (\<lambda>i. Inr (set_info f (i\<lparr>mr_list := remove1 p (mr_list i)\<rparr>) s))"

definition list_add :: "nat \<Rightarrow> nat \<Rightarrow> drv \<Rightarrow> drv run" where
  "list_add f p s = bindE (info_at f s) (\<lambda>i. Inr (set_info f (i\<lparr>mr_list := p # mr_list i\<rparr>) s))"

text \<open>The body of the loop of \<open>gdrdrv_release\<close>, and the loop over the list as it was at entry.\<close>

definition gdrdrv_release_mr :: "drv_cfg \<Rightarrow> ext \<Rightarrow> nat \<Rightarrow> nat \<Rightarrow> drv \<Rightarrow> drv run" where
  "gdrdrv_release_mr c x f p s =
     bindE (down_write p s) (\<lambda>s1.
     bindE (mr_at p s1) (\<lambda>mr.
     bindE (if gdr_mr_is_mapped mr then gdr_mr_destroy_all_mappings c p s1 else Inr s1) (\<lambda>s2.
     bindE (list_del f p s2) (\<lambda>s3.
     gdr_free_mr_unlocked c x p s3))))"

fun gdrdrv_release_loop :: "drv_cfg \<Rightarrow> ext \<Rightarrow> nat \<Rightarrow> nat list \<Rightarrow> drv \<Rightarrow> drv run" where
  "gdrdrv_release_loop c x f [] s = Inr s"
| "gdrdrv_release_loop c x f (p # ps) s =
     bindE (gdrdrv_release_mr c x f p s) (\<lambda>s1. gdrdrv_release_loop c x f ps s1)"

definition gdrdrv_release :: "drv_cfg \<Rightarrow> ext \<Rightarrow> nat \<Rightarrow> drv \<Rightarrow> (int \<times> drv) run" where
  "gdrdrv_release c x filp s =
     (case private_data s filp of
        None \<Rightarrow> Inr (- EIO, s)
      | Some _ \<Rightarrow>
          bindE (mutex_lock filp s) (\<lambda>s1.
          bindE (info_at filp s1) (\<lambda>i.
          bindE (gdrdrv_release_loop c x filp (mr_list i) s1) (\<lambda>s2.
          bindE (mutex_unlock filp s2) (\<lambda>s3.
          Inr (0, s3\<lparr>f_mapping := (f_mapping s3)(filp := None),
                     private_data := (private_data s3)(filp := None)\<rparr>))))))"

section \<open>Pinning\<close>

text \<open>
  \<open>__gdrdrv_pin_buffer\<close> in its parts. Each returns the function's \<open>ret\<close> and, where it is needed
  later, what it computed; a part with \<open>ret \<noteq> 0\<close> is a \<open>goto out\<close>.
  Part one, up to the pinning call: the object is set up and its fields checked against the
  mapping mode. The flags of the pinning call are the second result.
\<close>

definition pin_setup ::
  "drv_cfg \<Rightarrow> nat \<Rightarrow> u64 \<Rightarrow> u64 \<Rightarrow> u64 \<Rightarrow> u32 \<Rightarrow> u32 \<Rightarrow> drv \<Rightarrow> int \<times> u32 \<times> drv" where
  "pin_setup c p addr sz p2p_token va_space flags s =
     (let page_virt_start = addr AND GPU_PAGE_MASK;
          page_virt_end = k_round_up c (addr + sz) GPU_PAGE_SIZE;
          rounded_size = page_virt_end - page_virt_start;
          mr1 = zero_mr\<lparr>mr_offset := addr AND GPU_PAGE_OFFSET\<rparr>;
          fin = (\<lambda>mr. mr\<lparr>mr_va := page_virt_start, mr_mapped_size := rounded_size,
                         mr_cpu_mapping_type := GDR_MR_NONE, mr_page_table := None,
                         mr_cb_flag := False\<rparr>)
      in if \<not> gdr_use_persistent_mapping c then
           (if GDRDRV_PIN_BUFFER_FLAG_DEFAULT \<noteq> flags then (- EINVAL, 0, set_mr p mr1 s)
            else (0, 0, set_mr p (fin (mr1\<lparr>mr_p2p_token := p2p_token, mr_va_space := va_space\<rparr>)) s))
         else
           (if p2p_token \<noteq> 0 \<or> va_space \<noteq> 0 then (- EINVAL, 0, set_mr p mr1 s)
            else
              (let mr2 = mr1\<lparr>mr_p2p_token := 0, mr_va_space := 0\<rparr>
               in if flags AND GDRDRV_PIN_BUFFER_FLAG_FORCE_PCIE \<noteq> 0 then
                    (case force_bar1 c of
                       Some bar1 \<Rightarrow> (0, 0 OR bar1, set_mr p (fin (mr2\<lparr>mr_force_pci := True\<rparr>)) s)
                     | None \<Rightarrow> (- EINVAL, 0, set_mr p mr2 s))
                  else (0, 0, set_mr p (fin mr2) s))))"

text \<open>Part two: the pinning call under \<open>down_write(&mr->sem)\<close>, the reference count, the timing.\<close>

definition pin_get_pages :: "drv_cfg \<Rightarrow> ext \<Rightarrow> nat \<Rightarrow> u32 \<Rightarrow> drv \<Rightarrow> (int \<times> drv) run" where
  "pin_get_pages c x p get_pages_flags s =
     bindE (down_write p s) (\<lambda>s1.
     bindE (mr_at p s1) (\<lambda>mr.
       (let free_callback_fn = \<not> gdr_use_persistent_mapping c;
            (ret, page_table) =
              (if persistent_api c \<and> \<not> free_callback_fn
               then x_get_pages_persistent x (mr_va mr) (mr_mapped_size mr) get_pages_flags
               else x_get_pages x (mr_p2p_token mr) (mr_va_space mr) (mr_va mr) (mr_mapped_size mr));
            s2 = (if ret = 0 then s1\<lparr>nv_get_pages_refcount := nv_get_pages_refcount s1 + 1\<rparr> else s1)
        in if ret < 0 then Inr (ret, s2)
           else
             (let mr1 = mr\<lparr>mr_page_table := page_table\<rparr>;
                  mr2 = (if arch c = ARM64 then mr1
                         else mr1\<lparr>mr_tm_cycles := snd (x_cycles x) - fst (x_cycles x),
                                  mr_tsc_khz := x_tsc_khz x\<rparr>)
              in Inr (ret, set_mr p mr2 s2)))))"

text \<open>Part three: the page table's version and page size.\<close>

definition pin_check_page_table :: "drv_cfg \<Rightarrow> nat \<Rightarrow> int \<Rightarrow> drv \<Rightarrow> (int \<times> drv) run" where
  "pin_check_page_table c p ret s =
     bindE (mr_at p s) (\<lambda>mr.
       case mr_page_table mr of
         None \<Rightarrow> Inl NullDeref
       | Some pt \<Rightarrow>
           if \<not> NVIDIA_P2P_PAGE_TABLE_VERSION_COMPATIBLE c pt then Inr (- EFAULT, s)
           else
             (case pt_page_size pt of
                P2P_PAGE_SIZE_OTHER _ \<Rightarrow> Inr (- EINVAL, s)
              | NVIDIA_P2P_PAGE_SIZE_4KB \<Rightarrow> Inr (- EINVAL, set_mr p (mr\<lparr>mr_page_size := 4 * 1024\<rparr>) s)
              | NVIDIA_P2P_PAGE_SIZE_128KB \<Rightarrow>
                  Inr (- EINVAL, set_mr p (mr\<lparr>mr_page_size := 128 * 1024\<rparr>) s)
              | NVIDIA_P2P_PAGE_SIZE_64KB \<Rightarrow>
                  Inr (ret, set_mr p (mr\<lparr>mr_page_size := 64 * 1024\<rparr>) s)))"

text \<open>
  Part four: the handle, and the region's place on the list. The third result is \<open>*p_handle\<close>
  where it is written.
\<close>

definition pin_publish :: "drv_cfg \<Rightarrow> nat \<Rightarrow> nat \<Rightarrow> int \<Rightarrow> drv \<Rightarrow> (int \<times> u64 option \<times> drv) run" where
  "pin_publish c f p ret0 s =
     bindE (mutex_lock f s) (\<lambda>s1.
     bindE (gdr_generate_mr_handle c f p s1) (\<lambda>(g, s2).
       (let ret = (if g \<noteq> 0 then - ENOMEM else ret0)
        in bindE (if ret = 0 then
                    bindE (list_add f p s2) (\<lambda>s3.
                    bindE (mr_at p s3) (\<lambda>mr.
                    bindE (up_write p s3) (\<lambda>s4. Inr (Some (mr_handle mr), s4))))
                  else Inr (None, s2))
             (\<lambda>(h, s5). bindE (mutex_unlock f s5) (\<lambda>s6. Inr (ret, h, s6))))))"

text \<open>The label \<open>out\<close>: on failure the object is freed.\<close>

definition pin_out :: "drv_cfg \<Rightarrow> ext \<Rightarrow> nat \<Rightarrow> int \<times> u64 option \<times> drv \<Rightarrow> (int \<times> u64 option \<times> drv) run" where
  "pin_out c x p r =
     (case r of (ret, h, s) \<Rightarrow>
        if ret \<noteq> 0 then bindE (gdr_free_mr_unlocked c x p s) (\<lambda>s1. Inr (ret, h, s1))
        else Inr (ret, h, s))"

definition gdrdrv_pin_buffer_core ::
  "drv_cfg \<Rightarrow> ext \<Rightarrow> nat \<Rightarrow> u64 \<Rightarrow> u64 \<Rightarrow> u64 \<Rightarrow> u32 \<Rightarrow> u32 \<Rightarrow> drv \<Rightarrow> (int \<times> u64 option \<times> drv) run" where
  "gdrdrv_pin_buffer_core c x f addr sz p2p_token va_space flags s =
     (case x_kmalloc x of
        None \<Rightarrow> Inr (- ENOMEM, None, s)
      | Some p \<Rightarrow>
          (let (ret, get_pages_flags, s1) = pin_setup c p addr sz p2p_token va_space flags s
           in if ret \<noteq> 0 then pin_out c x p (ret, None, s1)
              else
                bindE (pin_get_pages c x p get_pages_flags s1) (\<lambda>(ret2, s2).
                  if ret2 < 0 then pin_out c x p (ret2, None, s2)
                  else
                    bindE (pin_check_page_table c p ret2 s2) (\<lambda>(ret3, s3).
                      if ret3 < 0 then pin_out c x p (ret3, None, s3)
                      else
                        bindE (pin_publish c f p ret3 s3) (\<lambda>r. pin_out c x p r)))))"

section \<open>Unpinning\<close>

text \<open>
  \<open>__gdrdrv_unpin_buffer\<close>: the region is unmapped and taken off the list under \<open>info->lock\<close>, then
  freed. The first part returns the region that the second frees.
\<close>

definition unpin_detach :: "drv_cfg \<Rightarrow> nat \<Rightarrow> u64 \<Rightarrow> drv \<Rightarrow> (int \<times> nat option \<times> drv) run" where
  "unpin_detach c f h s =
     bindE (mutex_lock f s) (\<lambda>s1.
     bindE (gdr_mr_from_handle_unlocked f h s1) (\<lambda>mrp.
     bindE (case mrp of
              None \<Rightarrow> Inr (- EINVAL, s1)
            | Some p \<Rightarrow>
                bindE (down_write p s1) (\<lambda>s2.
                bindE (mr_at p s2) (\<lambda>mr.
                bindE (if gdr_mr_is_mapped mr then gdr_mr_destroy_all_mappings c p s2 else Inr s2)
                  (\<lambda>s3.
                bindE (list_del f p s3) (\<lambda>s4. Inr (0, s4))))))
       (\<lambda>(ret, s5). bindE (mutex_unlock f s5) (\<lambda>s6. Inr (ret, mrp, s6)))))"

definition gdrdrv_unpin_buffer_core :: "drv_cfg \<Rightarrow> ext \<Rightarrow> nat \<Rightarrow> u64 \<Rightarrow> drv \<Rightarrow> (int \<times> drv) run" where
  "gdrdrv_unpin_buffer_core c x f h s =
     bindE (unpin_detach c f h s) (\<lambda>(ret, mrp, s1).
       if ret \<noteq> 0 then Inr (ret, s1)
       else (case mrp of
               None \<Rightarrow> Inl BugOn
             | Some p \<Rightarrow> bindE (gdr_free_mr_unlocked c x p s1) (\<lambda>s2. Inr (ret, s2))))"

end
