(* ===== verification/Drv_Ioctl.thy ===== *)
theory Drv_Ioctl
  imports Drv_Pin
begin

text \<open>
  The ioctl interface (src/gdrdrv/gdrdrv.h, src/gdrdrv/gdrdrv.c): the parameter blocks, the
  command numbers, one handler per command, and the dispatcher with its access checks.
\<close>

section \<open>Parameter blocks\<close>

record pin_buffer_params =
  pb_addr :: u64
  pb_size :: u64
  pb_p2p_token :: u64
  pb_va_space :: u32
  pb_handle :: u64

record pin_buffer_v2_params =
  pv_addr :: u64
  pv_size :: u64
  pv_flags :: u32
  pv_pad :: u32
  pv_handle :: u64

record get_cb_flag_params =
  cb_handle :: u64
  cb_flag :: u32

record get_info_params =
  gi_handle :: u64
  gi_va :: u64
  gi_mapped_size :: u64
  gi_page_size :: u32
  gi_tsc_khz :: u32
  gi_tm_cycles :: u64
  gi_mapped :: u32
  gi_wc_mapping :: u32

record get_info_v2_params =
  gv_handle :: u64
  gv_va :: u64
  gv_mapped_size :: u64
  gv_page_size :: u32
  gv_tsc_khz :: u32
  gv_tm_cycles :: u64
  gv_mapping_type :: u32

record get_attr_params =
  ga_attr :: u32
  ga_val :: u32

record req_mapping_type_params =
  rq_handle :: u64
  rq_mapping_type :: u32

record get_version_params =
  ve_gdrdrv_version :: u32
  ve_minimum_gdr_api_version :: u32

text \<open>
  The memory at the user pointer: what each handler's \<open>copy_from_user\<close> reads there, and whether
  reading and writing it succeed.
\<close>

record uarg =
  ua_readable :: bool
  ua_writable :: bool
  ua_pin :: pin_buffer_params
  ua_pin_v2 :: pin_buffer_v2_params
  ua_unpin :: u64
  ua_cb :: get_cb_flag_params
  ua_info :: get_info_params
  ua_info_v2 :: get_info_v2_params
  ua_attr :: get_attr_params
  ua_req :: req_mapping_type_params

text \<open>What \<open>copy_to_user\<close> wrote there.\<close>

datatype uout =
    NoOut
  | OutPin pin_buffer_params
  | OutPinV2 pin_buffer_v2_params
  | OutCb get_cb_flag_params
  | OutInfo get_info_params
  | OutInfoV2 get_info_v2_params
  | OutAttr get_attr_params
  | OutVersion get_version_params

definition copy_to_user :: "uarg \<Rightarrow> uout \<Rightarrow> int \<Rightarrow> int \<times> uout" where
  "copy_to_user u out ret = (if ua_writable u then (ret, out) else (- EFAULT, NoOut))"

section \<open>Pinning and unpinning\<close>

text \<open>
  After a successful pin whose result cannot be written back the region is unpinned again. The
  answers \<open>x\<close> stand for both operations.
\<close>

definition gdrdrv_pin_buffer :: "drv_cfg \<Rightarrow> ext \<Rightarrow> nat \<Rightarrow> uarg \<Rightarrow> drv \<Rightarrow> (int \<times> uout \<times> drv) run" where
  "gdrdrv_pin_buffer c x f u s =
     (if \<not> ua_readable u then Inr (- EFAULT, NoOut, s)
      else if pb_addr (ua_pin u) = 0 then Inr (- EINVAL, NoOut, s)
      else
        bindE (gdrdrv_pin_buffer_core c x f (pb_addr (ua_pin u)) (pb_size (ua_pin u))
                 (pb_p2p_token (ua_pin u)) (pb_va_space (ua_pin u))
                 GDRDRV_PIN_BUFFER_FLAG_DEFAULT s)
          (\<lambda>(ret, h, s1).
            if ret \<noteq> 0 then Inr (ret, NoOut, s1)
            else
              (case h of
                 None \<Rightarrow> Inl NullDeref
               | Some hnd \<Rightarrow>
                   (let (ret2, out) = copy_to_user u (OutPin (ua_pin u\<lparr>pb_handle := hnd\<rparr>)) 0
                    in if ret2 \<noteq> 0 then
                         bindE (gdrdrv_unpin_buffer_core c x f hnd s1) (\<lambda>(_, s2). Inr (ret2, out, s2))
                       else Inr (ret2, out, s1)))))"

definition gdrdrv_pin_buffer_v2 :: "drv_cfg \<Rightarrow> ext \<Rightarrow> nat \<Rightarrow> uarg \<Rightarrow> drv \<Rightarrow> (int \<times> uout \<times> drv) run" where
  "gdrdrv_pin_buffer_v2 c x f u s =
     (if \<not> ua_readable u then Inr (- EFAULT, NoOut, s)
      else if pv_addr (ua_pin_v2 u) = 0 then Inr (- EINVAL, NoOut, s)
      else if pv_flags (ua_pin_v2 u) AND
              NOT (GDRDRV_PIN_BUFFER_FLAG_DEFAULT OR GDRDRV_PIN_BUFFER_FLAG_FORCE_PCIE) \<noteq> 0
      then Inr (- EINVAL, NoOut, s)
      else
        bindE (gdrdrv_pin_buffer_core c x f (pv_addr (ua_pin_v2 u)) (pv_size (ua_pin_v2 u)) 0 0
                 (pv_flags (ua_pin_v2 u)) s)
          (\<lambda>(ret, h, s1).
            if ret \<noteq> 0 then Inr (ret, NoOut, s1)
            else
              (case h of
                 None \<Rightarrow> Inl NullDeref
               | Some hnd \<Rightarrow>
                   (let (ret2, out) = copy_to_user u (OutPinV2 (ua_pin_v2 u\<lparr>pv_handle := hnd\<rparr>)) 0
                    in if ret2 \<noteq> 0 then
                         bindE (gdrdrv_unpin_buffer_core c x f hnd s1) (\<lambda>(_, s2). Inr (ret2, out, s2))
                       else Inr (ret2, out, s1)))))"

definition gdrdrv_unpin_buffer :: "drv_cfg \<Rightarrow> ext \<Rightarrow> nat \<Rightarrow> uarg \<Rightarrow> drv \<Rightarrow> (int \<times> uout \<times> drv) run" where
  "gdrdrv_unpin_buffer c x f u s =
     (if \<not> ua_readable u then Inr (- EFAULT, NoOut, s)
      else bindE (gdrdrv_unpin_buffer_core c x f (ua_unpin u) s) (\<lambda>(ret, s1). Inr (ret, NoOut, s1)))"

section \<open>Queries\<close>

definition of_bool32 :: "bool \<Rightarrow> u32" where
  "of_bool32 b = (if b then 1 else 0)"

definition gdrdrv_get_cb_flag :: "nat \<Rightarrow> uarg \<Rightarrow> drv \<Rightarrow> (int \<times> uout \<times> drv) run" where
  "gdrdrv_get_cb_flag f u s =
     (if \<not> ua_readable u then Inr (- EFAULT, NoOut, s)
      else
        bindE (gdr_get_mr_from_handle f (cb_handle (ua_cb u)) False s) (\<lambda>(mrp, s1).
          case mrp of
            None \<Rightarrow> Inr (- EINVAL, NoOut, s1)
          | Some p \<Rightarrow>
              bindE (mr_at p s1) (\<lambda>mr.
              bindE (gdr_put_mr p False s1) (\<lambda>s2.
              (let (ret, out) =
                     copy_to_user u (OutCb (ua_cb u\<lparr>cb_flag := of_bool32 (mr_cb_flag mr)\<rparr>)) 0
               in Inr (ret, out, s2))))))"

definition gdrdrv_get_info :: "nat \<Rightarrow> uarg \<Rightarrow> drv \<Rightarrow> (int \<times> uout \<times> drv) run" where
  "gdrdrv_get_info f u s =
     (if \<not> ua_readable u then Inr (- EFAULT, NoOut, s)
      else
        bindE (gdr_get_mr_from_handle f (gi_handle (ua_info u)) False s) (\<lambda>(mrp, s1).
          case mrp of
            None \<Rightarrow> Inr (- EINVAL, NoOut, s1)
          | Some p \<Rightarrow>
              bindE (mr_at p s1) (\<lambda>mr.
              (let params = ua_info u\<lparr>gi_va := mr_va mr, gi_mapped_size := mr_mapped_size mr,
                     gi_page_size := mr_page_size mr, gi_tm_cycles := mr_tm_cycles mr,
                     gi_tsc_khz := mr_tsc_khz mr, gi_mapped := of_bool32 (gdr_mr_is_mapped mr),
                     gi_wc_mapping := of_bool32 (mr_cpu_mapping_type mr = GDR_MR_WC)\<rparr>
               in bindE (gdr_put_mr p False s1) (\<lambda>s2.
                  (let (ret, out) = copy_to_user u (OutInfo params) 0 in Inr (ret, out, s2)))))))"

definition gdrdrv_get_info_v2 :: "nat \<Rightarrow> uarg \<Rightarrow> drv \<Rightarrow> (int \<times> uout \<times> drv) run" where
  "gdrdrv_get_info_v2 f u s =
     (if \<not> ua_readable u then Inr (- EFAULT, NoOut, s)
      else
        bindE (gdr_get_mr_from_handle f (gv_handle (ua_info_v2 u)) False s) (\<lambda>(mrp, s1).
          case mrp of
            None \<Rightarrow> Inr (- EINVAL, NoOut, s1)
          | Some p \<Rightarrow>
              bindE (mr_at p s1) (\<lambda>mr.
              (let params = ua_info_v2 u\<lparr>gv_va := mr_va mr, gv_mapped_size := mr_mapped_size mr,
                     gv_page_size := mr_page_size mr, gv_tm_cycles := mr_tm_cycles mr,
                     gv_tsc_khz := mr_tsc_khz mr,
                     gv_mapping_type := mr_type_val (mr_cpu_mapping_type mr)\<rparr>
               in bindE (gdr_put_mr p False s1) (\<lambda>s2.
                  (let (ret, out) = copy_to_user u (OutInfoV2 params) 0 in Inr (ret, out, s2)))))))"

definition gdrdrv_get_attr :: "drv_cfg \<Rightarrow> uarg \<Rightarrow> drv \<Rightarrow> (int \<times> uout \<times> drv) run" where
  "gdrdrv_get_attr c u s =
     (if \<not> ua_readable u then Inr (- EFAULT, NoOut, s)
      else
        (let (ret, params) =
               (if ga_attr (ua_attr u) = GDRDRV_ATTR_USE_PERSISTENT_MAPPING
                then (0, ua_attr u\<lparr>ga_val := of_bool32 (gdr_use_persistent_mapping c)\<rparr>)
                else if ga_attr (ua_attr u) = GDRDRV_ATTR_SUPPORT_PIN_FLAG_FORCE_PCIE
                then (0, ua_attr u\<lparr>ga_val := of_bool32 (gdr_support_force_pcie c)\<rparr>)
                else (- EINVAL, ua_attr u));
             (ret2, out) = copy_to_user u (OutAttr params) ret
         in Inr (ret2, out, s)))"

section \<open>Requesting a mapping type\<close>

definition gdrdrv_req_mapping_type :: "drv_cfg \<Rightarrow> nat \<Rightarrow> uarg \<Rightarrow> drv \<Rightarrow> (int \<times> uout \<times> drv) run" where
  "gdrdrv_req_mapping_type c f u s =
     (if \<not> ua_readable u then Inr (- EFAULT, NoOut, s)
      else
        (case mr_type_of (rq_mapping_type (ua_req u)) of
           None \<Rightarrow> Inr (- EINVAL, NoOut, s)
         | Some ty \<Rightarrow>
             bindE (gdr_get_mr_from_handle f (rq_handle (ua_req u)) True s) (\<lambda>(mrp, s1).
               case mrp of
                 None \<Rightarrow> Inr (- EINVAL, NoOut, s1)
               | Some p \<Rightarrow>
                   bindE (mr_at p s1) (\<lambda>mr.
                   bindE
                     (if gdr_mr_is_mapped mr then Inr (- EBUSY, s1)
                      else if ty = GDR_MR_CACHING \<and> \<not> gdr_mr_supports_cache_mapping c s1 mr
                      then Inr (- EOPNOTSUPP, s1)
                      else if ty = GDR_MR_WC \<and> cpu_must_use_device_mapping s1
                      then Inr (- EOPNOTSUPP, s1)
                      else if ty = GDR_MR_DEVICE \<and> \<not> cpu_must_use_device_mapping s1
                      then Inr (- EOPNOTSUPP, s1)
                      else Inr (0, set_mr p (mr\<lparr>mr_req_mapping_type := ty\<rparr>) s1))
                     (\<lambda>(ret, s2).
                   bindE (gdr_put_mr p True s2) (\<lambda>s3. Inr (ret, NoOut, s3)))))))"

definition gdrdrv_get_version :: "uarg \<Rightarrow> drv \<Rightarrow> (int \<times> uout \<times> drv) run" where
  "gdrdrv_get_version u s =
     (let params = \<lparr>ve_gdrdrv_version = GDRDRV_VERSION,
                    ve_minimum_gdr_api_version = MINIMUM_GDR_API_VERSION\<rparr>;
          (ret, out) = copy_to_user u (OutVersion params) 0
      in Inr (ret, out, s))"

section \<open>Command numbers\<close>

text \<open>
  \<open>_IOWR(GDRDRV_IOCTL, nr, type)\<close>: direction 3 in bits 30 and 31, \<open>sizeof(type)\<close> from bit 16,
  the magic from bit 8, the number below. The two pin commands name the structure (40 and 32
  bytes), the others a pointer (8 bytes).
\<close>

definition GDRDRV_IOCTL :: u32 where "GDRDRV_IOCTL = 0xDA"

definition IOWR :: "u32 \<Rightarrow> u32 \<Rightarrow> u32" where
  "IOWR nr sz = push_bit 30 3 OR push_bit 16 sz OR push_bit 8 GDRDRV_IOCTL OR nr"

definition IOC_TYPE :: "u32 \<Rightarrow> u32" where
  "IOC_TYPE cmd = drop_bit 8 cmd AND 0xff"

definition GDRDRV_IOC_PIN_BUFFER :: u32 where "GDRDRV_IOC_PIN_BUFFER = IOWR 1 40"
definition GDRDRV_IOC_UNPIN_BUFFER :: u32 where "GDRDRV_IOC_UNPIN_BUFFER = IOWR 2 8"
definition GDRDRV_IOC_GET_CB_FLAG :: u32 where "GDRDRV_IOC_GET_CB_FLAG = IOWR 3 8"
definition GDRDRV_IOC_GET_INFO :: u32 where "GDRDRV_IOC_GET_INFO = IOWR 4 8"
definition GDRDRV_IOC_GET_INFO_V2 :: u32 where "GDRDRV_IOC_GET_INFO_V2 = IOWR 5 8"
definition GDRDRV_IOC_GET_ATTR :: u32 where "GDRDRV_IOC_GET_ATTR = IOWR 6 8"
definition GDRDRV_IOC_PIN_BUFFER_V2 :: u32 where "GDRDRV_IOC_PIN_BUFFER_V2 = IOWR 7 32"
definition GDRDRV_IOC_REQ_MAPPING_TYPE :: u32 where "GDRDRV_IOC_REQ_MAPPING_TYPE = IOWR 8 8"
definition GDRDRV_IOC_GET_VERSION :: u32 where "GDRDRV_IOC_GET_VERSION = IOWR 255 8"

lemmas ioc_defs = GDRDRV_IOC_PIN_BUFFER_def GDRDRV_IOC_UNPIN_BUFFER_def GDRDRV_IOC_GET_CB_FLAG_def
  GDRDRV_IOC_GET_INFO_def GDRDRV_IOC_GET_INFO_V2_def GDRDRV_IOC_GET_ATTR_def
  GDRDRV_IOC_PIN_BUFFER_V2_def GDRDRV_IOC_REQ_MAPPING_TYPE_def GDRDRV_IOC_GET_VERSION_def
  IOWR_def GDRDRV_IOCTL_def

section \<open>Dispatch\<close>

definition gdrdrv_check_same_process :: "gdr_info \<Rightarrow> nat \<Rightarrow> bool" where
  "gdrdrv_check_same_process info tsk_tgid \<longleftrightarrow> tgid info = tsk_tgid"

text \<open>\<open>tg\<close> is the task group of \<open>current\<close>.\<close>

definition gdrdrv_ioctl ::
  "drv_cfg \<Rightarrow> ext \<Rightarrow> nat \<Rightarrow> nat \<Rightarrow> u32 \<Rightarrow> uarg \<Rightarrow> drv \<Rightarrow> (int \<times> uout \<times> drv) run" where
  "gdrdrv_ioctl c x tg filp cmd u s =
     (if IOC_TYPE cmd \<noteq> GDRDRV_IOCTL then Inr (- EINVAL, NoOut, s)
      else case private_data s filp of
        None \<Rightarrow> Inr (- EIO, NoOut, s)
      | Some info \<Rightarrow>
          if \<not> gdrdrv_check_same_process info tg then Inr (- EACCES, NoOut, s)
          else if cmd = GDRDRV_IOC_PIN_BUFFER then gdrdrv_pin_buffer c x filp u s
          else if cmd = GDRDRV_IOC_PIN_BUFFER_V2 then gdrdrv_pin_buffer_v2 c x filp u s
          else if cmd = GDRDRV_IOC_UNPIN_BUFFER then gdrdrv_unpin_buffer c x filp u s
          else if cmd = GDRDRV_IOC_GET_CB_FLAG then gdrdrv_get_cb_flag filp u s
          else if cmd = GDRDRV_IOC_GET_INFO then gdrdrv_get_info filp u s
          else if cmd = GDRDRV_IOC_GET_INFO_V2 then gdrdrv_get_info_v2 filp u s
          else if cmd = GDRDRV_IOC_GET_ATTR then gdrdrv_get_attr c u s
          else if cmd = GDRDRV_IOC_REQ_MAPPING_TYPE then gdrdrv_req_mapping_type c filp u s
          else if cmd = GDRDRV_IOC_GET_VERSION then gdrdrv_get_version u s
          else Inr (- ENOTTY, NoOut, s))"

end
