(* ===== verification/Drv_Mmap.thy ===== *)
theory Drv_Mmap
  imports Drv_Ioctl
begin

text \<open>
  Mapping a region into user space (src/gdrdrv/gdrdrv.c): the remapping of physical ranges, the
  mmap handler, which maps each physically contiguous run of GPU pages at once, and the VMA
  close handler.
\<close>

section \<open>Remapping physical ranges\<close>

text \<open>
  \<open>remap\<close> is the status the kernel's \<open>io_remap_pfn_range\<close> (or \<open>remap_pfn_range\<close>) returns for an
  address, a pfn, a size and a protection. Each call is recorded with its status.
\<close>

type_synonym remap_fn = "u64 \<Rightarrow> u64 \<Rightarrow> u64 \<Rightarrow> u64 \<Rightarrow> int"

definition gdrdrv_io_remap_pfn_range1 ::
  "drv_cfg \<Rightarrow> remap_fn \<Rightarrow> nat \<Rightarrow> u64 \<Rightarrow> u64 \<Rightarrow> u64 \<Rightarrow> u64 \<Rightarrow> drv \<Rightarrow> int \<times> drv" where
  "gdrdrv_io_remap_pfn_range1 c remap v vaddr pfn sz prot s =
     (let prot' = (if opensource c \<or> \<not> (arch c = X86 \<and> cc_platform c) then prot
                   else k_sme_clr c prot);
          status = remap vaddr pfn sz prot'
      in (status, emit (RemapPfn v vaddr pfn sz prot' status) s))"

text \<open>
  The loop over host pages. The source tests \<open>remaining_size > 0\<close>; \<open>remaining_size\<close> is a multiple
  of the page size (\<open>BUG_ON\<close> before the loop), where the condition here is the same one (lemma
  \<open>remap_guard\<close> below).
\<close>

function remap_chunks ::
  "drv_cfg \<Rightarrow> remap_fn \<Rightarrow> nat \<Rightarrow> u64 \<Rightarrow> u64 \<Rightarrow> u64 \<Rightarrow> u64 \<Rightarrow> drv \<Rightarrow> int \<times> drv" where
  "remap_chunks c remap v chunk_vaddr chunk_pfn remaining_size prot s =
     (if 0 < PAGE_SIZE c \<and> PAGE_SIZE c \<le> remaining_size then
        (let (status, s1) =
               gdrdrv_io_remap_pfn_range1 c remap v chunk_vaddr chunk_pfn (PAGE_SIZE c) prot s
         in if status \<noteq> 0 then (status, s1)
            else remap_chunks c remap v (chunk_vaddr + PAGE_SIZE c) (chunk_pfn + 1)
                   (remaining_size - PAGE_SIZE c) prot s1)
      else (0, s))"
  by pat_completeness auto
termination
proof (relation "measure (\<lambda>(c, remap, v, va, pfn, remaining_size, prot, s). unat remaining_size)",
    goal_cases)
  case 1
  show ?case by simp
next
  case (2 c remap v va pfn r prot s x status s1)
  then show ?case
    by (simp add: unat_sub word_le_nat_alt word_less_nat_alt)
qed

declare remap_chunks.simps [simp del]

definition gdrdrv_io_remap_pfn_range ::
  "drv_cfg \<Rightarrow> remap_fn \<Rightarrow> nat \<Rightarrow> u64 \<Rightarrow> u64 \<Rightarrow> u64 \<Rightarrow> u64 \<Rightarrow> drv \<Rightarrow> (int \<times> drv) run" where
  "gdrdrv_io_remap_pfn_range c remap v vaddr pfn sz prot s =
     bindE (vma_at v s) (\<lambda>a.
       if GDRDRV_KERNEL_MAY_USE_PAT c \<and> gdrdrv_pat_enabled c \<and>
          \<not> (vaddr = vm_start a \<and> sz = vm_end a - vm_start a)
       then bindE (checkE (sz mod PAGE_SIZE c = 0) BugOn) (\<lambda>_.
              Inr (remap_chunks c remap v vaddr pfn sz prot s))
       else Inr (gdrdrv_io_remap_pfn_range1 c remap v vaddr pfn sz prot s))"

definition gdrdrv_remap_gpu_mem ::
  "drv_cfg \<Rightarrow> remap_fn \<Rightarrow> nat \<Rightarrow> u64 \<Rightarrow> u64 \<Rightarrow> u64 \<Rightarrow> mr_type \<Rightarrow> drv \<Rightarrow> (int \<times> drv) run" where
  "gdrdrv_remap_gpu_mem c remap v vaddr paddr sz mapping_type s =
     (if sz = 0 then Inr (0, s)
      else if paddr AND (PAGE_SIZE c - 1) \<noteq> 0 then Inr (- EINVAL, s)
      else if vaddr AND (PAGE_SIZE c - 1) \<noteq> 0 then Inr (- EINVAL, s)
      else
        (let pfn = drop_bit (PAGE_SHIFT c) paddr
         in bindE (vma_at v s) (\<lambda>a.
            bindE (if mapping_type = GDR_MR_WC then Inr (pgprot_modify_writecombine c (vm_page_prot a))
                   else if mapping_type = GDR_MR_DEVICE then pgprot_modify_device c (vm_page_prot a)
                   else Inr (vm_page_prot a)) (\<lambda>prot.
            bindE (Inr (set_vma v (a\<lparr>vm_flags := vm_flags a OR k_vm_dontcopy c,
                                    vm_page_prot := prot\<rparr>) s)) (\<lambda>s1.
            bindE (gdrdrv_io_remap_pfn_range c remap v vaddr pfn sz prot s1) (\<lambda>(status, s2).
              if status \<noteq> 0 then Inr (- EAGAIN, s2) else Inr (0, s2)))))))"

section \<open>Runs of contiguous GPU pages\<close>

text \<open>The inner loop: from index \<open>p\<close> on, count the pages that continue the run.\<close>

function contig_scan :: "u64 list \<Rightarrow> nat \<Rightarrow> u64 \<Rightarrow> nat \<Rightarrow> nat \<times> nat" where
  "contig_scan pages p prev_page_paddr nentries =
     (if p < length pages then
        (let cur_page_paddr = pages ! p
         in if prev_page_paddr + GPU_PAGE_SIZE \<noteq> cur_page_paddr then (p, nentries)
            else contig_scan pages (Suc p) cur_page_paddr (Suc nentries))
      else (p, nentries))"
  by pat_completeness auto
termination
  by (relation "measure (\<lambda>(pages, p, prev, n). length pages - p)") auto

declare contig_scan.simps [simp del]

lemma contig_scan_ge: "p \<le> fst (contig_scan pages p prev n)"
proof (induction pages p prev n rule: contig_scan.induct)
  case (1 pages p prev n)
  then show ?case
    by (subst contig_scan.simps) (auto simp: Let_def intro: Suc_leD)
qed

text \<open>
  The outer loop: maps run after run. It returns \<open>ret\<close> and the address reached; \<open>ret \<noteq> 0\<close> is
  the \<open>goto out\<close>.
\<close>

function mmap_runs ::
  "drv_cfg \<Rightarrow> remap_fn \<Rightarrow> nat \<Rightarrow> mr_type \<Rightarrow> u64 list \<Rightarrow> nat \<Rightarrow> u64 \<Rightarrow> u64 \<Rightarrow> drv
     \<Rightarrow> (int \<times> u64 \<times> drv) run" where
  "mmap_runs c remap v ty pages p vaddr sz s =
     (let paddr = pages ! p;
          run = contig_scan pages (Suc p) paddr 1;
          p' = fst run;
          nentries = snd run;
          len = min sz (GPU_PAGE_SIZE * of_nat nentries)
      in bindE (gdrdrv_remap_gpu_mem c remap v vaddr paddr len ty s) (\<lambda>r.
           if fst r \<noteq> 0 then Inr (fst r, vaddr, snd r)
           else if sz - len \<noteq> 0 \<and> p' < length pages
           then mmap_runs c remap v ty pages p' (vaddr + len) (sz - len) (snd r)
           else Inr (0, vaddr + len, snd r)))"
  by pat_completeness auto
termination
proof (relation "measure (\<lambda>(c, remap, v, ty, pages, p, vaddr, sz, s). length pages - p)", goal_cases)
  case 1
  show ?case by simp
next
  case (2 c remap v ty pages p vaddr sz s paddr run p' nentries len r)
  then have "Suc p \<le> p'" and "p' < length pages" by (simp_all add: contig_scan_ge)
  then have "length pages - p' < length pages - p" by linarith
  then show ?case by simp
qed

declare mmap_runs.simps [simp del]

text \<open>
  One turn of the outer loop, for the run of \<open>snd run\<close> pages found by the inner one, and what
  every turn keeps the whole loop keeps.
\<close>

abbreviation run_at :: "u64 list \<Rightarrow> nat \<Rightarrow> nat \<times> nat" where
  "run_at pages p \<equiv> contig_scan pages (Suc p) (pages ! p) 1"

abbreviation run_len :: "u64 list \<Rightarrow> nat \<Rightarrow> u64 \<Rightarrow> u64" where
  "run_len pages p sz \<equiv> min sz (GPU_PAGE_SIZE * of_nat (snd (run_at pages p)))"

lemma mmap_runs_step:
  "mmap_runs c remap v ty pages p vaddr sz s =
     bindE (gdrdrv_remap_gpu_mem c remap v vaddr (pages ! p) (run_len pages p sz) ty s) (\<lambda>(st, s1).
       if st \<noteq> 0 then Inr (st, vaddr, s1)
       else if sz - run_len pages p sz \<noteq> 0 \<and> fst (run_at pages p) < length pages
       then mmap_runs c remap v ty pages (fst (run_at pages p)) (vaddr + run_len pages p sz)
              (sz - run_len pages p sz) s1
       else Inr (0, vaddr + run_len pages p sz, s1))"
  by (subst mmap_runs.simps) (simp only: Let_def case_prod_unfold)

lemma mmap_runs_inv:
  assumes keep: "\<And>va pa n s st s1. gdrdrv_remap_gpu_mem c remap v va pa n ty s = Inr (st, s1) \<Longrightarrow>
      Q s \<Longrightarrow> Q s1"
    and run: "mmap_runs c remap v ty pages p va sz s = Inr (r, va', s')"
    and start: "Q s"
  shows "Q s'"
  using run start
proof (induction "length pages - p" arbitrary: p va sz s rule: less_induct)
  case less
  obtain st s1 where
    step: "gdrdrv_remap_gpu_mem c remap v va (pages ! p) (run_len pages p sz) ty s = Inr (st, s1)"
    using less.prems(1) by (subst (asm) mmap_runs_step) auto
  have Q1: "Q s1" using keep [OF step] less.prems(2) by blast
  show ?case
  proof (cases "st = 0 \<and> sz - run_len pages p sz \<noteq> 0 \<and> fst (run_at pages p) < length pages")
    case True
    then have "mmap_runs c remap v ty pages (fst (run_at pages p)) (va + run_len pages p sz)
        (sz - run_len pages p sz) s1 = Inr (r, va', s')"
      using less.prems(1) step by (subst (asm) mmap_runs_step) simp
    moreover have "length pages - fst (run_at pages p) < length pages - p"
      using True contig_scan_ge [of "Suc p" pages "pages ! p" 1] by linarith
    ultimately show ?thesis using less.hyps Q1 by blast
  next
    case False
    then have "s' = s1"
      using less.prems(1) step by (subst (asm) mmap_runs_step) (auto split: if_splits)
    with Q1 show ?thesis by simp
  qed
qed

section \<open>The mmap handler\<close>

text \<open>The checks before anything is mapped, in the order of the source.\<close>

definition mmap_check :: "gdr_mr \<Rightarrow> u64 \<Rightarrow> int" where
  "mmap_check mr sz =
     (if gdr_mr_is_mapped mr then - EINVAL
      else if mr_cb_flag mr then - EINVAL
      else case mr_page_table mr of
        None \<Rightarrow> - EINVAL
      | Some pt \<Rightarrow>
          if pt_entries pt \<le> 0 then - EINVAL
          else if mr_offset mr \<noteq> 0 then - EINVAL
          else if mr_offset mr > GPU_PAGE_SIZE * of_nat (pt_entries pt) then - EINVAL
          else if sz + mr_offset mr > GPU_PAGE_SIZE * of_nat (pt_entries pt) then - EINVAL
          else 0)"

definition mmap_mapping_type :: "drv_cfg \<Rightarrow> drv \<Rightarrow> gdr_mr \<Rightarrow> mr_type" where
  "mmap_mapping_type c s mr =
     (if mr_req_mapping_type mr \<noteq> GDR_MR_NONE then mr_req_mapping_type mr
      else if gdr_mr_supports_cache_mapping c s mr then GDR_MR_CACHING
      else if cpu_must_use_device_mapping s then GDR_MR_DEVICE
      else GDR_MR_WC)"

text \<open>The label \<open>out\<close> with a region: the region's fields on failure and on success.\<close>

definition mmap_out :: "nat \<Rightarrow> nat \<Rightarrow> nat \<Rightarrow> mr_type \<Rightarrow> int \<Rightarrow> drv \<Rightarrow> (int \<times> drv) run" where
  "mmap_out filp v p ty ret s =
     bindE (mr_at p s) (\<lambda>mr.
     bindE
       (if ret \<noteq> 0 then
          Inr (set_mr p (mr\<lparr>mr_vma := None, mr_mapping := None,
                            mr_cpu_mapping_type := GDR_MR_NONE\<rparr>) s)
        else
          bindE (checkE (ty \<noteq> GDR_MR_NONE) BugOn) (\<lambda>_.
          bindE (checkE (\<not> (mr_force_pci mr \<and> ty = GDR_MR_CACHING)) BugOn) (\<lambda>_.
          Inr (set_mr p (mr\<lparr>mr_vma := Some v, mr_mapping := f_mapping s filp,
                            mr_cpu_mapping_type := ty\<rparr>) s))))
       (\<lambda>s1. bindE (gdr_put_mr p True s1) (\<lambda>s2. Inr (ret, s2))))"

definition gdrdrv_mmap :: "drv_cfg \<Rightarrow> remap_fn \<Rightarrow> nat \<Rightarrow> nat \<Rightarrow> nat \<Rightarrow> drv \<Rightarrow> (int \<times> drv) run" where
  "gdrdrv_mmap c remap tg filp v s =
     bindE (vma_at v s) (\<lambda>a.
     (let sz = vm_end a - vm_start a
      in case private_data s filp of
           None \<Rightarrow> Inr (- EIO, s)
         | Some info \<Rightarrow>
             if \<not> gdrdrv_check_same_process info tg then Inr (- EACCES, s)
             else
               bindE (gdr_get_mr_from_handle filp (gdrdrv_handle_from_off (vm_pgoff a)) True s)
                 (\<lambda>(mrp, s1).
                   case mrp of
                     None \<Rightarrow> Inr (- EINVAL, s1)
                   | Some p \<Rightarrow>
                       bindE (mr_at p s1) (\<lambda>mr.
                         if mmap_check mr sz \<noteq> 0
                         then mmap_out filp v p GDR_MR_NONE (mmap_check mr sz) s1
                         else
                           (let s2 = set_mr p (mr\<lparr>mr_cpu_mapping_type := GDR_MR_NONE\<rparr>) s1;
                                s3 = set_vma v (a\<lparr>vm_ops := True\<rparr>) s2;
                                ty = mmap_mapping_type c s3 mr;
                                pages = (case mr_page_table mr of Some pt \<Rightarrow> pt_pages pt | None \<Rightarrow> [])
                            in bindE (mmap_runs c remap v ty pages 0 (vm_start a) sz s3)
                                 (\<lambda>(ret, vaddr, s4).
                                   (let ret' = (if ret \<noteq> 0 then ret
                                                else if vaddr \<noteq> vm_end a then - EINVAL else 0)
                                    in mmap_out filp v p ty ret' s4)))))))"

section \<open>Closing a VMA\<close>

definition gdrdrv_vma_close :: "nat \<Rightarrow> drv \<Rightarrow> drv run" where
  "gdrdrv_vma_close v s =
     bindE (vma_at v s) (\<lambda>a.
       case vm_file a of
         None \<Rightarrow> Inr s
       | Some filp \<Rightarrow>
           (case private_data s filp of
              None \<Rightarrow> Inr s
            | Some _ \<Rightarrow>
                bindE (gdr_get_mr_from_handle filp (gdrdrv_handle_from_off (vm_pgoff a)) True s)
                  (\<lambda>(mrp, s1).
                    case mrp of
                      None \<Rightarrow> Inr s1
                    | Some p \<Rightarrow>
                        bindE (mr_at p s1) (\<lambda>mr.
                          gdr_put_mr p True
                            (set_mr p (mr\<lparr>mr_vma := None,
                                          mr_cpu_mapping_type := GDR_MR_NONE\<rparr>) s1)))))"

end
