(* ===== verification/Drv_Example.thy ===== *)
theory Drv_Example
  imports Drv_Mmap
begin

text \<open>
  A concrete machine on which the theorems of the driver are instantiated: an x86-64 host with
  4 KB pages and the open-source NVIDIA driver, one open file, and a region of three GPU pages of
  which the first two are physically contiguous.
\<close>

definition ex_cfg :: drv_cfg where
  "ex_cfg = \<lparr>PAGE_SHIFT = 12, arch = X86, opensource = True, kernel_5_13_x86_64 = False,
     kernel_pat_enabled = False, use_persistent_mapping = False, dbg_enabled = False,
     persistent_api = True, persistent_pages = None, force_bar1 = Some 1,
     p2p_version = 0x00010002, power9 = False, bf3_root = (\<lambda>_ _. False),
     k_page_is_ram = (\<lambda>_. False), k_round_up = (\<lambda>x y. (x + (y - 1)) AND NOT (y - 1)),
     k_writecombine = (\<lambda>p. p), k_device = (\<lambda>p. p), k_page_pse = 0x80, k_page_pcd = 0x10,
     k_page_pwt = 0x8, k_vm_dontcopy = 0x20000, cc_platform = False, k_sme_clr = (\<lambda>p. p)\<rparr>"

definition ex_pt :: page_table where
  "ex_pt = \<lparr>pt_id = 1, pt_version = 0x00010002, pt_page_size = NVIDIA_P2P_PAGE_SIZE_64KB,
     pt_cacheable = False, pt_pages = [0x10000000, 0x10010000, 0x20000000]\<rparr>"

definition ex_ext :: ext where
  "ex_ext = \<lparr>x_kmalloc = Some 7, x_get_pages = (\<lambda>_ _ _ _. (0, Some ex_pt)),
     x_get_pages_persistent = (\<lambda>_ _ _. (0, Some ex_pt)), x_put_pages = (\<lambda>_ _ _ _. 0),
     x_put_pages_persistent = (\<lambda>_ _ _. 0), x_cycles = (100, 350), x_tsc_khz = 2000\<rparr>"

text \<open>Opened by task group 42 as file 3; the VMA covers the first two pages and a half.\<close>

definition ex_info :: gdr_info where
  "ex_info = \<lparr>mr_list = [], info_lock = False, tgid = 42, next_handle = 0,
     next_handle_overflow = False\<rparr>"

definition ex_vma :: vma where
  "ex_vma = \<lparr>vm_start = 0x7f0000000000, vm_end = 0x7f0000028000, vm_pgoff = 0, vm_file = Some 3,
     vm_flags = 0, vm_page_prot = 0x25, vm_ops = False\<rparr>"

definition ex_open :: drv where
  "ex_open = \<lparr>mrs = Map.empty, private_data = [3 \<mapsto> ex_info], f_mapping = [3 \<mapsto> 3],
     vmas = Map.empty, nv_get_pages_refcount = 0, gdrdrv_major = 240,
     cpu_could_cache_gpu_mappings = False, cpu_must_use_device_mapping = False, calls = []\<rparr>"

text \<open>The region after pinning, and after mapping.\<close>

definition ex_mr :: gdr_mr where
  "ex_mr = zero_mr\<lparr>mr_va := 0x700000000, mr_mapped_size := 0x30000, mr_page_size := 65536,
     mr_page_table := Some ex_pt, mr_tm_cycles := 250, mr_tsc_khz := 2000\<rparr>"

definition ex_pinned :: drv where
  "ex_pinned = ex_open\<lparr>mrs := [7 \<mapsto> ex_mr],
     private_data := [3 \<mapsto> ex_info\<lparr>mr_list := [7], next_handle := 0x30\<rparr>],
     nv_get_pages_refcount := 1\<rparr>"

definition ex_remap :: remap_fn where
  "ex_remap = (\<lambda>_ _ _ _. 0)"

lemmas ex_defs = ex_cfg_def ex_pt_def ex_ext_def ex_info_def ex_vma_def ex_open_def ex_mr_def
  ex_pinned_def ex_remap_def zero_mr_def

end
