(* ===== verification/Drv_Refcount.thy ===== *)
theory Drv_Refcount
  imports Drv_Mmap
begin

text \<open>
  The module-wide reference count \<open>gdrdrv_nv_get_pages_refcount\<close>: every operation of the driver
  keeps it equal to the number of regions that hold a page table, also when the NVIDIA driver's
  callback runs between the two halves of a free.
\<close>

section \<open>The invariant\<close>

definition pinned :: "drv \<Rightarrow> nat set" where
  "pinned s = {p. \<exists>m. mrs s p = Some m \<and> mr_page_table m \<noteq> None}"

definition ref_ok :: "drv \<Rightarrow> bool" where
  "ref_ok s \<longleftrightarrow> finite (dom (mrs s)) \<and> nv_get_pages_refcount s = int (card (pinned s))"

text \<open>
  What the NVIDIA driver's documentation says of the calls: a pinning call returns 0 and a page
  table, or a negative error; giving back a page table that the callback has not taken succeeds.
\<close>

definition get_pages_doc :: "ext \<Rightarrow> bool" where
  "get_pages_doc x \<longleftrightarrow>
     (\<forall>t v a n. fst (x_get_pages x t v a n) < 0 \<or>
        fst (x_get_pages x t v a n) = 0 \<and> snd (x_get_pages x t v a n) \<noteq> None) \<and>
     (\<forall>a n fl. fst (x_get_pages_persistent x a n fl) < 0 \<or>
        fst (x_get_pages_persistent x a n fl) = 0 \<and> snd (x_get_pages_persistent x a n fl) \<noteq> None)"

definition put_pages_doc :: "ext \<Rightarrow> bool" where
  "put_pages_doc x \<longleftrightarrow>
     (\<forall>t v a pt. x_put_pages x t v a pt = 0) \<and> (\<forall>a pt fl. x_put_pages_persistent x a pt fl = 0)"

definition kmalloc_doc :: "ext \<Rightarrow> drv \<Rightarrow> bool" where
  "kmalloc_doc x s \<longleftrightarrow> (\<forall>p. x_kmalloc x = Some p \<longrightarrow> mrs s p = None)"

lemma put_pages_doc_status: "put_pages_doc x \<Longrightarrow> put_pages_status c x m pt = 0"
  by (simp add: put_pages_doc_def put_pages_status_def)

lemma finite_pinned: "finite (dom (mrs s)) \<Longrightarrow> finite (pinned s)"
  by (rule finite_subset [of _ "dom (mrs s)"]) (auto simp: pinned_def)

section \<open>Primitive updates\<close>

lemma ref_ok_cong:
  "mrs s' = mrs s \<Longrightarrow> nv_get_pages_refcount s' = nv_get_pages_refcount s \<Longrightarrow> ref_ok s' = ref_ok s"
  by (simp add: ref_ok_def pinned_def)

lemma ref_ok_simps [simp]:
  "ref_ok (set_info f i s) = ref_ok s"
  "ref_ok (set_vma v a s) = ref_ok s"
  "ref_ok (emit k s) = ref_ok s"
  "ref_ok (s\<lparr>private_data := pd\<rparr>) = ref_ok s"
  "ref_ok (s\<lparr>f_mapping := fm\<rparr>) = ref_ok s"
  "ref_ok (s\<lparr>vmas := vs\<rparr>) = ref_ok s"
  by (rule ref_ok_cong; simp)+

lemma pinned_set_mr:
  "pinned (set_mr p m s) =
    (if mr_page_table m = None then pinned s - {p} else insert p (pinned s))"
  by (auto simp: pinned_def)

lemma ref_ok_set_mr:
  assumes "mrs s p = Some m0" and "mr_page_table m = None \<longleftrightarrow> mr_page_table m0 = None"
  shows "ref_ok (set_mr p m s) = ref_ok s"
proof -
  have "pinned (set_mr p m s) = pinned s"
    using assms unfolding pinned_set_mr by (auto simp: pinned_def)
  then show ?thesis by (simp add: ref_ok_def)
qed

lemma ref_ok_new_mr:
  assumes "mrs s p = None" and "mr_page_table m = None"
  shows "ref_ok (set_mr p m s) = ref_ok s"
proof -
  have "pinned (set_mr p m s) = pinned s"
    using assms unfolding pinned_set_mr by (auto simp: pinned_def)
  then show ?thesis by (simp add: ref_ok_def)
qed

lemma ref_ok_pin:
  assumes "ref_ok s" and "mrs s p = Some m0" and "mr_page_table m0 = None"
    and "mr_page_table m \<noteq> None"
  shows "ref_ok (set_mr p m (s\<lparr>nv_get_pages_refcount := nv_get_pages_refcount s + 1\<rparr>))"
proof -
  let ?s = "s\<lparr>nv_get_pages_refcount := nv_get_pages_refcount s + 1\<rparr>"
  have pin: "pinned ?s = pinned s" by (simp add: pinned_def)
  have "p \<notin> pinned s" using assms by (auto simp: pinned_def)
  moreover have "finite (pinned s)" using assms(1) by (auto simp: ref_ok_def finite_pinned)
  ultimately have "card (pinned (set_mr p m ?s)) = Suc (card (pinned s))"
    using assms(4) by (simp add: pinned_set_mr pin)
  with assms(1) show ?thesis by (simp add: ref_ok_def)
qed

lemma ref_ok_unpin:
  assumes "ref_ok s" and "mrs s p = Some m0" and "mr_page_table m0 \<noteq> None"
    and "mr_page_table m = None"
  shows "ref_ok (set_mr p m (s\<lparr>nv_get_pages_refcount := nv_get_pages_refcount s - 1\<rparr>))"
proof -
  let ?s = "s\<lparr>nv_get_pages_refcount := nv_get_pages_refcount s - 1\<rparr>"
  have pin: "pinned ?s = pinned s" by (simp add: pinned_def)
  have p: "p \<in> pinned s" using assms by (auto simp: pinned_def)
  have fin: "finite (pinned s)" using assms(1) by (auto simp: ref_ok_def finite_pinned)
  have "int (card (pinned (set_mr p m ?s))) = int (card (pinned s)) - 1"
    using assms(4) p fin card_gt_0_iff [of "pinned s"]
    by (auto simp: pinned_set_mr pin card_Diff_singleton of_nat_diff)
  with assms(1) show ?thesis by (simp add: ref_ok_def)
qed

lemma ref_ok_kfree:
  assumes "ref_ok s" and "mrs s p = Some m"
  shows "ref_ok (s\<lparr>nv_get_pages_refcount :=
             nv_get_pages_refcount s - (if mr_page_table m = None then 0 else 1),
           mrs := (mrs s)(p := None)\<rparr>)"
proof -
  let ?s = "s\<lparr>nv_get_pages_refcount :=
      nv_get_pages_refcount s - (if mr_page_table m = None then 0 else 1), mrs := (mrs s)(p := None)\<rparr>"
  have pin: "pinned ?s = pinned s - {p}" by (auto simp: pinned_def)
  have fin: "finite (pinned s)" using assms(1) by (auto simp: ref_ok_def finite_pinned)
  have mem: "p \<in> pinned s \<longleftrightarrow> mr_page_table m \<noteq> None" using assms(2) by (simp add: pinned_def)
  have "int (card (pinned s - {p})) = int (card (pinned s)) - (if mr_page_table m = None then 0 else 1)"
    using mem fin card_gt_0_iff [of "pinned s"]
    by (cases "p \<in> pinned s") (auto simp: card_Diff_singleton of_nat_diff)
  with assms(1) show ?thesis unfolding ref_ok_def pin by simp
qed

section \<open>Operations that leave the page tables alone\<close>

text \<open>The page table of every region, and the count: what \<^const>\<open>ref_ok\<close> depends on.\<close>

definition pt_view :: "drv \<Rightarrow> (nat \<Rightarrow> page_table option option) \<times> int" where
  "pt_view s = ((\<lambda>p. map_option mr_page_table (mrs s p)), nv_get_pages_refcount s)"

lemma pt_view_eqD:
  assumes "pt_view s' = pt_view s"
  shows "dom (mrs s') = dom (mrs s)" and "pinned s' = pinned s"
    and "nv_get_pages_refcount s' = nv_get_pages_refcount s"
proof -
  have eq: "map_option mr_page_table (mrs s' p) = map_option mr_page_table (mrs s p)" for p
  proof -
    have "(\<lambda>p. map_option mr_page_table (mrs s' p)) = (\<lambda>p. map_option mr_page_table (mrs s p))"
      using arg_cong [OF assms, of fst] unfolding pt_view_def fst_conv .
    then show ?thesis by (rule fun_cong)
  qed
  show "dom (mrs s') = dom (mrs s)"
  proof (rule set_eqI)
    fix p
    show "p \<in> dom (mrs s') \<longleftrightarrow> p \<in> dom (mrs s)"
      using eq [of p] by (cases "mrs s p"; cases "mrs s' p") auto
  qed
  show "pinned s' = pinned s"
  proof (rule set_eqI)
    fix p
    show "p \<in> pinned s' \<longleftrightarrow> p \<in> pinned s"
      using eq [of p] by (cases "mrs s p"; cases "mrs s' p") (auto simp: pinned_def)
  qed
  show "nv_get_pages_refcount s' = nv_get_pages_refcount s"
    using arg_cong [OF assms, of snd] unfolding pt_view_def snd_conv .
qed

lemma ref_ok_view:
  assumes "pt_view s' = pt_view s"
  shows "ref_ok s' = ref_ok s"
  using pt_view_eqD [OF assms] by (simp add: ref_ok_def)

lemma ref_ok_set_mr_view:
  assumes "pt_view s' = pt_view s"
  shows "ref_ok (set_mr p m s') = ref_ok (set_mr p m s)"
proof -
  have "pinned (set_mr p m s') = pinned (set_mr p m s)"
    using pt_view_eqD [OF assms] by (simp add: pinned_set_mr)
  with pt_view_eqD [OF assms] show ?thesis by (simp add: ref_ok_def)
qed

lemma pt_view_simps [simp]:
  "pt_view (set_info f i s) = pt_view s"
  "pt_view (set_vma v a s) = pt_view s"
  "pt_view (emit k s) = pt_view s"
  by (simp_all add: pt_view_def)

lemma pt_view_set_mr [simp]:
  "mrs s p = Some m0 \<Longrightarrow> mr_page_table m = mr_page_table m0 \<Longrightarrow> pt_view (set_mr p m s) = pt_view s"
  by (auto simp: pt_view_def)

lemma pt_view_locks:
  "down_write p s = Inr s' \<Longrightarrow> pt_view s' = pt_view s"
  "up_write p s = Inr s' \<Longrightarrow> pt_view s' = pt_view s"
  "down_read p s = Inr s' \<Longrightarrow> pt_view s' = pt_view s"
  "up_read p s = Inr s' \<Longrightarrow> pt_view s' = pt_view s"
  "mutex_lock f s = Inr s' \<Longrightarrow> pt_view s' = pt_view s"
  "mutex_unlock f s = Inr s' \<Longrightarrow> pt_view s' = pt_view s"
  by (auto simp: lock_defs split: if_split_asm rwsem.split_asm nat.split_asm)

lemma pt_view_put_mr: "gdr_put_mr p w s = Inr s' \<Longrightarrow> pt_view s' = pt_view s"
  by (auto simp: gdr_put_mr_def pt_view_locks split: if_splits)

lemma pt_view_destroy: "gdr_mr_destroy_all_mappings c p s = Inr s' \<Longrightarrow> pt_view s' = pt_view s"
  by (auto simp: gdr_mr_destroy_all_mappings_def gdrdrv_zap_vma_def split: option.splits)

lemma pt_view_get_mr: "gdr_get_mr_from_handle f h w s = Inr (r, s') \<Longrightarrow> pt_view s' = pt_view s"
  by (auto simp: gdr_get_mr_from_handle_def pt_view_locks split: option.splits if_splits)

lemma pt_view_list:
  "list_del f p s = Inr s' \<Longrightarrow> pt_view s' = pt_view s"
  "list_add f p s = Inr s' \<Longrightarrow> pt_view s' = pt_view s"
  by (auto simp: list_del_def list_add_def)

lemma pt_view_generate: "gdr_generate_mr_handle c f p s = Inr (r, s') \<Longrightarrow> pt_view s' = pt_view s"
  by (auto simp: gdr_generate_mr_handle_def Let_def split: if_splits)

lemma pt_view_check_pt: "pin_check_page_table c p ret s = Inr (r, s') \<Longrightarrow> pt_view s' = pt_view s"
  by (auto simp: pin_check_page_table_def split: option.splits if_splits p2p_page_size.splits)

lemma pt_view_publish: "pin_publish c f p ret s = Inr (r, h, s') \<Longrightarrow> pt_view s' = pt_view s"
  by (auto simp: pin_publish_def Let_def pt_view_locks pt_view_generate pt_view_list
      split: if_splits)

lemma pt_view_detach: "unpin_detach c f h s = Inr (r, mrp, s') \<Longrightarrow> pt_view s' = pt_view s"
  by (auto simp: unpin_detach_def pt_view_locks pt_view_list pt_view_destroy
      split: option.splits if_splits)

lemmas pt_views = pt_view_locks pt_view_put_mr pt_view_destroy pt_view_get_mr pt_view_list
  pt_view_generate pt_view_check_pt pt_view_publish pt_view_detach

section \<open>Freeing, the callback, pinning\<close>

lemma begin_view:
  assumes "gdr_free_mr_begin p s = Inr (pt, s')"
  shows "pt_view s' = pt_view s" and "\<exists>m. mrs s p = Some m \<and> mr_page_table m = pt"
    and "map_option mr_page_table (mrs s' p) = Some pt"
  using assms by (auto simp: gdr_free_mr_begin_def up_write_def split: if_splits)

text \<open>
  The second half of a free, entered with the page table read in the first: if the callback has
  run in between the region holds no page table any more, and the NVIDIA driver refuses it.
\<close>

lemma finish_ref_ok:
  assumes fin: "gdr_free_mr_finish c x p pt s = Inr s'" and ok: "ref_ok s"
    and m: "mrs s p = Some m"
    and doc: "\<And>t. pt = Some t \<Longrightarrow> put_pages_status c x m t = 0 \<longleftrightarrow> mr_page_table m \<noteq> None"
    and none: "pt = None \<Longrightarrow> mr_page_table m = None"
  shows "ref_ok s'"
proof -
  have eq: "s' = (case pt of
        None \<Rightarrow> s
      | Some t \<Rightarrow> emit (PutPages (pt_id t) (put_pages_status c x m t)) s)
      \<lparr>nv_get_pages_refcount := nv_get_pages_refcount s - (if mr_page_table m = None then 0 else 1),
       mrs := (mrs s)(p := None)\<rparr>"
    using fin m doc none
    by (auto simp: gdr_free_mr_finish_def Let_def emit_def split: option.splits if_splits)
  show ?thesis
    using ref_ok_kfree [OF ok m] unfolding eq
    by (cases pt) (auto simp: emit_def ref_ok_def pinned_def)
qed

lemma free_ref_ok:
  assumes "gdr_free_mr_unlocked c x p s = Inr s'" and "ref_ok s" and "put_pages_doc x"
  shows "ref_ok s'"
proof -
  obtain pt s1 where b: "gdr_free_mr_begin p s = Inr (pt, s1)"
    and f: "gdr_free_mr_finish c x p pt s1 = Inr s'"
    using assms(1) by (auto simp: gdr_free_mr_unlocked_def)
  obtain m where m: "mrs s1 p = Some m" "mr_page_table m = pt"
    using begin_view(3) [OF b] by auto
  have ok1: "ref_ok s1"
    using assms(2) ref_ok_view [OF begin_view(1) [OF b]] by simp
  show ?thesis
    by (rule finish_ref_ok [OF f ok1 m(1)])
      (use m(2) put_pages_doc_status [OF assms(3)] in auto)
qed

lemma callback_ref_ok:
  assumes run: "gdrdrv_get_pages_free_callback c p s = Inr s'" and ok: "ref_ok s"
  shows "ref_ok s'"
proof -
  obtain s1 m where s1: "down_write p s = Inr s1" and m: "mrs s1 p = Some m"
    using run by (auto simp: gdrdrv_get_pages_free_callback_def)
  have ok1: "ref_ok s1"
    using ok ref_ok_view [OF pt_view_locks(1) [OF s1]] by simp
  let ?s2 = "set_mr p (m\<lparr>mr_cb_flag := True\<rparr>) s1"
  have ok2: "ref_ok ?s2"
    using ok1 m by (simp add: ref_ok_set_mr [OF m])
  show ?thesis
  proof (cases "mr_page_table m")
    case None
    then have "up_write p (set_mr p (m\<lparr>mr_cb_flag := True, mr_page_table := None\<rparr>) s1) = Inr s'"
      using run s1 m by (simp add: gdrdrv_get_pages_free_callback_def)
    moreover have "ref_ok (set_mr p (m\<lparr>mr_cb_flag := True, mr_page_table := None\<rparr>) s1)"
      using ok1 None by (simp add: ref_ok_set_mr [OF m])
    ultimately show ?thesis by (simp add: ref_ok_view [OF pt_view_locks(2)])
  next
    case (Some pt)
    let ?s3 = "emit (FreePageTable (pt_id pt)) ?s2"
    let ?s4 = "?s3\<lparr>nv_get_pages_refcount := nv_get_pages_refcount ?s3 - 1\<rparr>"
    obtain s5 mr where s5: "(if gdr_mr_is_mapped m then gdr_mr_destroy_all_mappings c p ?s4
        else Inr ?s4) = Inr s5"
      and mr: "mrs s5 p = Some mr" and fin: "up_write p (set_mr p (mr\<lparr>mr_page_table := None\<rparr>) s5) = Inr s'"
      using run s1 m Some by (auto simp: gdrdrv_get_pages_free_callback_def Let_def)
    have view: "pt_view s5 = pt_view ?s4"
      using s5 by (auto simp: pt_view_destroy split: if_splits)
    have "ref_ok (set_mr p (mr\<lparr>mr_page_table := None\<rparr>) s5) \<longleftrightarrow>
        ref_ok (set_mr p (mr\<lparr>mr_page_table := None\<rparr>) ?s4)"
      by (rule ref_ok_set_mr_view [OF view])
    moreover have "ref_ok (set_mr p (mr\<lparr>mr_page_table := None\<rparr>) ?s4)"
      using ref_ok_unpin [of ?s3 p "m\<lparr>mr_cb_flag := True\<rparr>" "mr\<lparr>mr_page_table := None\<rparr>"] ok2 Some
      by simp
    ultimately show ?thesis by (simp add: ref_ok_view [OF pt_view_locks(2) [OF fin]])
  qed
qed

section \<open>Pinning\<close>

lemma pin_setup_shape:
  assumes "pin_setup c p addr sz t v fl s = (r, gf, s')"
  shows "\<exists>m. s' = set_mr p m s \<and> mr_page_table m = None \<and> mr_sem m = SemFree \<and>
    mr_vma m = None \<and> mr_cpu_mapping_type m = GDR_MR_NONE"
  using assms
  by (auto simp: pin_setup_def zero_mr_def Let_def split: if_splits option.splits)

lemma get_pages_ref_ok:
  assumes run: "pin_get_pages c x p gf s = Inr (r, s')" and doc: "get_pages_doc x"
    and ok: "ref_ok s" and m: "mrs s p = Some m" and none: "mr_page_table m = None"
  shows "ref_ok s'"
proof -
  obtain s1 where s1: "down_write p s = Inr s1"
    using run by (auto simp: pin_get_pages_def)
  then obtain m1 where m1: "mrs s1 p = Some m1" "mr_page_table m1 = None"
    using m none by (auto simp: down_write_def split: if_splits)
  have ok1: "ref_ok s1" using ok ref_ok_view [OF pt_view_locks(1) [OF s1]] by simp
  define rp where "rp = (if persistent_api c \<and> gdr_use_persistent_mapping c
      then x_get_pages_persistent x (mr_va m1) (mr_mapped_size m1) gf
      else x_get_pages x (mr_p2p_token m1) (mr_va_space m1) (mr_va m1) (mr_mapped_size m1))"
  have rp: "fst rp < 0 \<or> fst rp = 0 \<and> snd rp \<noteq> None"
    using doc by (auto simp: rp_def get_pages_doc_def)
  have eq: "pin_get_pages c x p gf s =
      (if fst rp < 0 then Inr (fst rp, s1)
       else Inr (fst rp, set_mr p
         (if arch c = ARM64 then m1\<lparr>mr_page_table := snd rp\<rparr>
          else m1\<lparr>mr_page_table := snd rp, mr_tm_cycles := snd (x_cycles x) - fst (x_cycles x),
                  mr_tsc_khz := x_tsc_khz x\<rparr>)
         (s1\<lparr>nv_get_pages_refcount := nv_get_pages_refcount s1 + 1\<rparr>)))"
    using s1 m1 rp by (auto simp: pin_get_pages_def rp_def Let_def case_prod_beta)
  show ?thesis
    using run rp ok1 ref_ok_pin [OF ok1 m1] unfolding eq
    by (auto split: if_splits)
qed

lemma pin_out_ref_ok:
  assumes "pin_out c x p (r, h, s) = Inr (r', h', s')" and "ref_ok s" and "put_pages_doc x"
  shows "ref_ok s'"
  using assms free_ref_ok by (auto simp: pin_out_def split: if_splits)

lemma pin_rest_ref_ok:
  assumes run: "(if r2 < 0 then pin_out c x p (r2, None, s2)
          else bindE (pin_check_page_table c p r2 s2) (\<lambda>(ret3, s3).
              if ret3 < 0 then pin_out c x p (ret3, None, s3)
              else bindE (pin_publish c f p ret3 s3) (\<lambda>r. pin_out c x p r))) = Inr (r, h, s')"
    and ok: "ref_ok s2" and doc: "put_pages_doc x"
  shows "ref_ok s'"
proof (cases "r2 < 0")
  case True
  then show ?thesis using run pin_out_ref_ok ok doc by auto
next
  case False
  then obtain r3 s3 where chk: "pin_check_page_table c p r2 s2 = Inr (r3, s3)"
    and rest: "(if r3 < 0 then pin_out c x p (r3, None, s3)
          else bindE (pin_publish c f p r3 s3) (\<lambda>r. pin_out c x p r)) = Inr (r, h, s')"
    using run by auto
  have ok3: "ref_ok s3" using ok ref_ok_view [OF pt_view_check_pt [OF chk]] by simp
  show ?thesis
  proof (cases "r3 < 0")
    case True
    then show ?thesis using rest pin_out_ref_ok ok3 doc by auto
  next
    case False
    then obtain r4 h4 s4 where pub: "pin_publish c f p r3 s3 = Inr (r4, h4, s4)"
      and out: "pin_out c x p (r4, h4, s4) = Inr (r, h, s')"
      using rest by auto
    have "ref_ok s4" using ok3 ref_ok_view [OF pt_view_publish [OF pub]] by simp
    then show ?thesis using out pin_out_ref_ok doc by blast
  qed
qed

lemma pin_core_ref_ok:
  assumes run: "gdrdrv_pin_buffer_core c x f addr sz t v fl s = Inr (r, h, s')"
    and ok: "ref_ok s" and doc: "get_pages_doc x" "put_pages_doc x" "kmalloc_doc x s"
  shows "ref_ok s'"
proof (cases "x_kmalloc x")
  case None
  then show ?thesis using run ok by (simp add: gdrdrv_pin_buffer_core_def)
next
  case (Some p)
  then have fresh: "mrs s p = None" using doc by (simp add: kmalloc_doc_def)
  obtain r1 gf s1 where st: "pin_setup c p addr sz t v fl s = (r1, gf, s1)"
    by (cases "pin_setup c p addr sz t v fl s") auto
  obtain m where m: "s1 = set_mr p m s" "mr_page_table m = None"
    using pin_setup_shape [OF st] by auto
  have ok1: "ref_ok s1" using ok fresh m by (simp add: ref_ok_new_mr)
  show ?thesis
  proof (cases "r1 = 0")
    case False
    then have "pin_out c x p (r1, None, s1) = Inr (r, h, s')"
      using run Some st by (simp add: gdrdrv_pin_buffer_core_def)
    then show ?thesis using pin_out_ref_ok ok1 doc by blast
  next
    case True
    then obtain r2 s2 where get: "pin_get_pages c x p gf s1 = Inr (r2, s2)"
      and rest: "(if r2 < 0 then pin_out c x p (r2, None, s2)
          else bindE (pin_check_page_table c p r2 s2) (\<lambda>(ret3, s3).
              if ret3 < 0 then pin_out c x p (ret3, None, s3)
              else bindE (pin_publish c f p ret3 s3) (\<lambda>r. pin_out c x p r))) = Inr (r, h, s')"
      using run Some st by (auto simp: gdrdrv_pin_buffer_core_def)
    have ok2: "ref_ok s2"
      by (rule get_pages_ref_ok [OF get doc(1) ok1, of m]) (use m in simp_all)
    show ?thesis by (rule pin_rest_ref_ok [OF rest ok2 doc(2)])
  qed
qed

section \<open>The other operations\<close>

lemma unpin_core_ref_ok:
  assumes "gdrdrv_unpin_buffer_core c x f h s = Inr (r, s')" and "ref_ok s" and "put_pages_doc x"
  shows "ref_ok s'"
proof -
  obtain r1 mrp s1 where d: "unpin_detach c f h s = Inr (r1, mrp, s1)"
    and rest: "(if r1 \<noteq> 0 then Inr (r1, s1)
       else (case mrp of None \<Rightarrow> Inl BugOn
             | Some p \<Rightarrow> bindE (gdr_free_mr_unlocked c x p s1) (\<lambda>s2. Inr (r1, s2)))) = Inr (r, s')"
    using assms(1) by (auto simp: gdrdrv_unpin_buffer_core_def)
  have "ref_ok s1" using assms(2) ref_ok_view [OF pt_view_detach [OF d]] by simp
  then show ?thesis
    using rest assms(3) free_ref_ok by (auto split: if_splits option.splits)
qed

lemma release_mr_ref_ok:
  assumes "gdrdrv_release_mr c x f p s = Inr s'" and "ref_ok s" and "put_pages_doc x"
  shows "ref_ok s'"
proof -
  obtain s1 mr s2 s3 where s1: "down_write p s = Inr s1"
    and s2: "(if gdr_mr_is_mapped mr then gdr_mr_destroy_all_mappings c p s1 else Inr s1) = Inr s2"
    and s3: "list_del f p s2 = Inr s3" and free: "gdr_free_mr_unlocked c x p s3 = Inr s'"
    using assms(1) by (auto simp: gdrdrv_release_mr_def)
  have "pt_view s2 = pt_view s1" using s2 pt_view_destroy by (auto split: if_splits)
  then have "pt_view s3 = pt_view s"
    using pt_view_locks(1) [OF s1] pt_view_list(1) [OF s3] by simp
  then have "ref_ok s3" using assms(2) ref_ok_view by blast
  then show ?thesis using free_ref_ok [OF free] assms(3) by blast
qed

lemma release_loop_ref_ok:
  "gdrdrv_release_loop c x f ps s = Inr s' \<Longrightarrow> ref_ok s \<Longrightarrow> put_pages_doc x \<Longrightarrow> ref_ok s'"
proof (induction ps arbitrary: s)
  case Nil
  then show ?case by simp
next
  case (Cons p ps)
  then obtain s1 where "gdrdrv_release_mr c x f p s = Inr s1"
    and "gdrdrv_release_loop c x f ps s1 = Inr s'" by auto
  with Cons show ?case using release_mr_ref_ok by blast
qed

lemma release_ref_ok:
  assumes "gdrdrv_release c x f s = Inr (r, s')" and "ref_ok s" and "put_pages_doc x"
  shows "ref_ok s'"
proof (cases "private_data s f")
  case None
  then show ?thesis using assms by (simp add: gdrdrv_release_def)
next
  case (Some i0)
  then obtain s1 i s2 s3 where l: "mutex_lock f s = Inr s1" and "private_data s1 f = Some i"
    and loop: "gdrdrv_release_loop c x f (mr_list i) s1 = Inr s2"
    and u: "mutex_unlock f s2 = Inr s3"
    and s': "s3\<lparr>f_mapping := (f_mapping s3)(f := None),
                private_data := (private_data s3)(f := None)\<rparr> = s'"
    using assms(1) by (simp add: gdrdrv_release_def bindE_eq_Inr) (elim exE conjE, rule that)
  have "ref_ok s1" using assms(2) ref_ok_view [OF pt_view_locks(5) [OF l]] by simp
  then have "ref_ok s2" using release_loop_ref_ok loop assms(3) by blast
  then have "ref_ok s3" using ref_ok_view [OF pt_view_locks(6) [OF u]] by simp
  then show ?thesis by (simp flip: s')
qed

lemma open_ref_ok: "gdrdrv_open mi f ok tg s = Inr (r, s') \<Longrightarrow> ref_ok s \<Longrightarrow> ref_ok s'"
  by (auto simp: gdrdrv_open_def Let_def split: if_splits)

text \<open>Handlers built from these: a pin that cannot report its handle is undone.\<close>

lemma pin_buffer_ref_ok:
  assumes run: "gdrdrv_pin_buffer c x f u s = Inr (r, out, s')" and ok: "ref_ok s"
    and doc: "get_pages_doc x" "put_pages_doc x" "kmalloc_doc x s"
  shows "ref_ok s'"
  using run ok pin_core_ref_ok [OF _ ok doc] unpin_core_ref_ok [OF _ _ doc(2)]
  by (fastforce simp: gdrdrv_pin_buffer_def Let_def split: if_splits option.splits prod.splits)

lemma pin_buffer_v2_ref_ok:
  assumes run: "gdrdrv_pin_buffer_v2 c x f u s = Inr (r, out, s')" and ok: "ref_ok s"
    and doc: "get_pages_doc x" "put_pages_doc x" "kmalloc_doc x s"
  shows "ref_ok s'"
  using run ok pin_core_ref_ok [OF _ ok doc] unpin_core_ref_ok [OF _ _ doc(2)]
  by (fastforce simp: gdrdrv_pin_buffer_v2_def Let_def split: if_splits option.splits prod.splits)

lemma pt_view_get_cb_flag: "gdrdrv_get_cb_flag f u s = Inr (r, out, s') \<Longrightarrow> pt_view s' = pt_view s"
  by (auto simp: gdrdrv_get_cb_flag_def Let_def dest!: pt_view_get_mr pt_view_put_mr
      split: if_splits option.splits prod.splits)

lemma pt_view_get_info: "gdrdrv_get_info f u s = Inr (r, out, s') \<Longrightarrow> pt_view s' = pt_view s"
  by (auto simp: gdrdrv_get_info_def Let_def dest!: pt_view_get_mr pt_view_put_mr
      split: if_splits option.splits prod.splits)

lemma pt_view_get_info_v2: "gdrdrv_get_info_v2 f u s = Inr (r, out, s') \<Longrightarrow> pt_view s' = pt_view s"
  by (auto simp: gdrdrv_get_info_v2_def Let_def dest!: pt_view_get_mr pt_view_put_mr
      split: if_splits option.splits prod.splits)

lemma pt_view_req_mapping_type:
  "gdrdrv_req_mapping_type c f u s = Inr (r, out, s') \<Longrightarrow> pt_view s' = pt_view s"
  by (auto simp: gdrdrv_req_mapping_type_def dest!: pt_view_get_mr pt_view_put_mr
      split: if_splits option.splits prod.splits)

lemma ioctl_ref_ok:
  assumes run: "gdrdrv_ioctl c x tg f cmd u s = Inr (r, out, s')" and ok: "ref_ok s"
    and doc: "get_pages_doc x" "put_pages_doc x" "kmalloc_doc x s"
  shows "ref_ok s'"
proof -
  have unpin: "ref_ok s'" if "gdrdrv_unpin_buffer c x f u s = Inr (r, out, s')"
    using that ok doc(2) unpin_core_ref_ok
    by (auto simp: gdrdrv_unpin_buffer_def split: if_splits)
  have view: "ref_ok s'" if "pt_view s' = pt_view s"
    using ok ref_ok_view [OF that] by simp
  show ?thesis
    using run ok pin_buffer_ref_ok [OF _ ok doc] pin_buffer_v2_ref_ok [OF _ ok doc] unpin
      view [OF pt_view_get_cb_flag] view [OF pt_view_get_info] view [OF pt_view_get_info_v2]
      view [OF pt_view_req_mapping_type]
    by (auto simp: gdrdrv_ioctl_def gdrdrv_get_attr_def gdrdrv_get_version_def Let_def
        split: if_splits option.splits prod.splits)
qed

section \<open>Mapping\<close>

lemma pt_view_io_remap:
  "gdrdrv_io_remap_pfn_range1 c remap v va pfn sz prot s = (r, s') \<Longrightarrow> pt_view s' = pt_view s"
  by (auto simp: gdrdrv_io_remap_pfn_range1_def Let_def)

lemma pt_view_chunks:
  "remap_chunks c remap v va pfn sz prot s = (r, s') \<Longrightarrow> pt_view s' = pt_view s"
proof (induction c remap v va pfn sz prot s rule: remap_chunks.induct)
  case (1 c remap v va pfn sz prot s)
  obtain st s1 where step: "gdrdrv_io_remap_pfn_range1 c remap v va pfn (PAGE_SIZE c) prot s = (st, s1)"
    by (cases "gdrdrv_io_remap_pfn_range1 c remap v va pfn (PAGE_SIZE c) prot s") auto
  show ?case
  proof (cases "0 < PAGE_SIZE c \<and> PAGE_SIZE c \<le> sz \<and> st = 0")
    case True
    with 1 step have "pt_view s' = pt_view s1"
      by (subst (asm) remap_chunks.simps) simp
    with pt_view_io_remap [OF step] show ?thesis by simp
  next
    case False
    with 1 step have "s' = s \<or> s' = s1"
      by (subst (asm) remap_chunks.simps) (auto split: if_splits)
    with pt_view_io_remap [OF step] show ?thesis by auto
  qed
qed

lemma pt_view_remap_range:
  "gdrdrv_io_remap_pfn_range c remap v va pfn sz prot s = Inr (r, s') \<Longrightarrow> pt_view s' = pt_view s"
  by (auto simp: gdrdrv_io_remap_pfn_range_def pt_view_chunks pt_view_io_remap split: if_splits)

lemma pt_view_remap_gpu:
  "gdrdrv_remap_gpu_mem c remap v va pa sz ty s = Inr (r, s') \<Longrightarrow> pt_view s' = pt_view s"
  by (auto simp: gdrdrv_remap_gpu_mem_def Let_def dest!: pt_view_remap_range split: if_splits)

lemma pt_view_runs:
  assumes "mmap_runs c remap v ty pages p va sz s = Inr (r, va', s')"
  shows "pt_view s' = pt_view s"
  by (rule mmap_runs_inv [where Q = "\<lambda>s1. pt_view s1 = pt_view s", OF _ assms])
    (auto dest: pt_view_remap_gpu)

lemma pt_view_mmap_out: "mmap_out f v p ty ret s = Inr (r, s') \<Longrightarrow> pt_view s' = pt_view s"
  by (auto simp: mmap_out_def dest!: pt_view_put_mr split: if_splits)

lemma mmap_ref_ok: "gdrdrv_mmap c remap tg f v s = Inr (r, s') \<Longrightarrow> pt_view s' = pt_view s"
  by (auto simp: gdrdrv_mmap_def Let_def dest!: pt_view_get_mr pt_view_mmap_out pt_view_runs
      split: if_splits option.splits)

lemma vma_close_ref_ok: "gdrdrv_vma_close v s = Inr s' \<Longrightarrow> pt_view s' = pt_view s"
  by (auto simp: gdrdrv_vma_close_def dest!: pt_view_get_mr pt_view_put_mr
      split: if_splits option.splits)

end
