(* ===== verification/Drv_Safe.thy ===== *)
theory Drv_Safe
  imports Drv_Example Drv_Refcount
begin

text \<open>
  The ownership invariant of the driver and its handlers' effects: which regions exist, which
  list owns each, that no lock stays held, that the VMA of a mapped region is alive. From a state
  with the invariant every handler returns (no BUG_ON, no use after free, no lock misuse) and
  keeps it; the one exception, the early error exits of the pin handler, is stated as such.
\<close>

section \<open>The invariant\<close>

definition vma_live :: "drv \<Rightarrow> gdr_mr \<Rightarrow> bool" where
  "vma_live s m \<longleftrightarrow> (gdr_mr_is_mapped m \<longrightarrow> (\<exists>v. mr_vma m = Some v \<and> vmas s v \<noteq> None))"

definition listed :: "drv \<Rightarrow> nat set" where
  "listed s = {p. \<exists>f i. private_data s f = Some i \<and> p \<in> set (mr_list i)}"

text \<open>\<open>D\<close> are the regions taken off their list by an unpin that has not freed them yet.\<close>

definition own_inv :: "nat set \<Rightarrow> drv \<Rightarrow> bool" where
  "own_inv D s \<longleftrightarrow> drv_ok s \<and> dom (mrs s) = listed s \<union> D \<and> listed s \<inter> D = {} \<and>
     (\<forall>p m. p \<in> listed s \<longrightarrow> mrs s p = Some m \<longrightarrow> vma_live s m)"

lemma inv_file: "own_inv D s \<Longrightarrow> private_data s f = Some i \<Longrightarrow> file_ok s i"
  by (simp add: own_inv_def drv_ok_file)

lemma inv_mr:
  assumes "own_inv D s" and "private_data s f = Some i" and "p \<in> set (mr_list i)"
  obtains m where "mrs s p = Some m" and "mr_sem m = SemFree" and "vma_live s m"
proof -
  have "p \<in> listed s" using assms(2,3) by (auto simp: listed_def)
  moreover obtain m where "mrs s p = Some m" "mr_sem m = SemFree"
    using file_ok_mr [OF inv_file [OF assms(1,2)] assms(3)] by blast
  ultimately show ?thesis using that assms(1) by (auto simp: own_inv_def)
qed

lemma inv_cong:
  assumes "mrs s' = mrs s" and "private_data s' = private_data s" and "dom (vmas s) \<subseteq> dom (vmas s')"
    and "own_inv D s"
  shows "own_inv D s'"
proof -
  have l: "listed s' = listed s" using assms(2) by (simp add: listed_def)
  have v: "vma_live s m \<Longrightarrow> vma_live s' m" for m using assms(3) by (fastforce simp: vma_live_def)
  have "drv_ok s' = drv_ok s" using assms(1,2) by (simp add: drv_ok_def file_ok_def)
  then show ?thesis using assms(1,4) v unfolding own_inv_def l by auto
qed

text \<open>A listed region changed in place.\<close>

lemma inv_set_mr:
  assumes "own_inv D s" and p: "p \<in> listed s" and "mr_sem m = SemFree" and "vma_live s m"
  shows "own_inv D (set_mr p m s)"
proof -
  have l: "listed (set_mr p m s) = listed s" by (simp add: listed_def)
  have v: "vma_live (set_mr p m s) k = vma_live s k" for k by (simp add: vma_live_def)
  have "drv_ok (set_mr p m s)"
    using assms(1,3) by (auto simp: own_inv_def drv_ok_def file_ok_def)
  moreover have "dom (mrs (set_mr p m s)) = dom (mrs s)"
    using assms(1) p by (auto simp: own_inv_def)
  ultimately show ?thesis using assms(1,4) unfolding own_inv_def l v by auto
qed

text \<open>A region moved from its list to \<open>D\<close>, a region of \<open>D\<close> freed, a new region on a list.\<close>

definition others :: "nat \<Rightarrow> drv \<Rightarrow> nat set" where
  "others f s = {p. \<exists>g i. g \<noteq> f \<and> private_data s g = Some i \<and> p \<in> set (mr_list i)}"

lemma listed_split: "private_data s f = Some i \<Longrightarrow> listed s = set (mr_list i) \<union> others f s"
  unfolding listed_def others_def by (rule set_eqI) (simp, metis option.inject)

lemma listed_upd:
  "private_data s' = (private_data s)(f \<mapsto> j) \<Longrightarrow> listed s' = set (mr_list j) \<union> others f s"
proof -
  assume pd: "private_data s' = (private_data s)(f \<mapsto> j)"
  then have "others f s' = others f s" by (auto simp: others_def)
  moreover have "listed s' = set (mr_list j) \<union> others f s'"
    by (rule listed_split) (simp add: pd)
  ultimately show ?thesis by simp
qed

lemma listed_remove:
  assumes "own_inv D s" and i: "private_data s f = Some i" and p: "p \<in> set (mr_list i)"
    and pd: "private_data s' = (private_data s)(f \<mapsto> j)" and j: "mr_list j = remove1 p (mr_list i)"
  shows "listed s' = listed s - {p}"
proof -
  have ok: "drv_ok s" and d: "distinct (mr_list i)"
    using assms(1) inv_file [OF assms(1) i] by (simp_all add: own_inv_def file_ok_def)
  have "p \<notin> others f s"
    using ok i p unfolding drv_ok_def others_def by blast
  then show ?thesis
    using d unfolding listed_upd [OF pd] listed_split [OF i] by (auto simp: j)
qed

lemma inv_detach:
  assumes inv: "own_inv D s" and i: "private_data s f = Some i" and p: "p \<in> set (mr_list i)"
    and pd: "private_data s' = (private_data s)(f \<mapsto> i\<lparr>mr_list := remove1 p (mr_list i)\<rparr>)"
    and m: "mrs s' = (mrs s)(p \<mapsto> m')" and v: "vmas s' = vmas s"
  shows "own_inv (insert p D) s'"
proof -
  have l: "listed s' = listed s - {p}" by (rule listed_remove [OF inv i p pd]) simp
  have pl: "p \<in> listed s" using i p by (auto simp: listed_def)
  have f: "file_ok s k" if "private_data s g = Some k" for g k using inv_file [OF inv that] .
  have dj: "set (mr_list k) \<inter> set (mr_list n) = {}"
    if "private_data s g = Some k" "private_data s h = Some n" "g \<noteq> h" for g h k n
    using inv that unfolding own_inv_def drv_ok_def by blast
  have "file_ok s' k" if k: "private_data s' g = Some k" for g k
  proof (cases "g = f")
    case True
    then have "k = i\<lparr>mr_list := remove1 p (mr_list i)\<rparr>" using k pd by simp
    then show ?thesis using f [OF i] by (auto simp: file_ok_def m set_remove1_eq)
  next
    case False
    then have k': "private_data s g = Some k" using k pd by simp
    then have "p \<notin> set (mr_list k)" using dj [OF k' i False] p by blast
    then show ?thesis using f [OF k'] by (auto simp: file_ok_def m)
  qed
  moreover have "set (mr_list k) \<inter> set (mr_list n) = {}"
    if "private_data s' g = Some k" "private_data s' h = Some n" "g \<noteq> h" for g h k n
  proof -
    have sub: "\<exists>k'. private_data s g = Some k' \<and> set (mr_list k) \<subseteq> set (mr_list k')"
      if "private_data s' g = Some k" for g k
      using that i set_remove1_subset [of p "mr_list i"] unfolding pd by (cases "g = f") auto
    show ?thesis using dj [of g _ h] sub [OF that(1)] sub [OF that(2)] that(3) by blast
  qed
  ultimately have "drv_ok s'" unfolding drv_ok_def by blast
  moreover have "dom (mrs s') = listed s' \<union> insert p D"
    using inv pl unfolding own_inv_def l m by auto
  moreover have "vma_live s' k \<longleftrightarrow> vma_live s k" for k by (simp add: vma_live_def v)
  ultimately show ?thesis using inv unfolding own_inv_def l m by auto
qed

lemma inv_kfree:
  assumes inv: "own_inv (insert p D) s" and p: "p \<notin> D"
    and "private_data s' = private_data s" and m: "mrs s' = (mrs s)(p := None)"
    and v: "vmas s' = vmas s"
  shows "own_inv D s'"
proof -
  have l: "listed s' = listed s" using assms(3) by (simp add: listed_def)
  have pl: "p \<notin> listed s" using inv by (auto simp: own_inv_def)
  have "file_ok s' k" if "private_data s g = Some k" for g k
  proof -
    have "p \<notin> set (mr_list k)" using pl that by (auto simp: listed_def)
    then show ?thesis using inv_file [OF inv that] by (auto simp: file_ok_def m)
  qed
  then have "drv_ok s'" using inv assms(3) by (simp add: own_inv_def drv_ok_def)
  moreover have "vma_live s' k \<longleftrightarrow> vma_live s k" for k by (simp add: vma_live_def v)
  ultimately show ?thesis using inv p pl unfolding own_inv_def l m by auto
qed

lemma inv_publish:
  assumes inv: "own_inv D s" and i: "private_data s f = Some i" and p: "mrs s p = None"
    and pd: "private_data s' = (private_data s)(f \<mapsto> j)" and j: "mr_list j = p # mr_list i"
    and lock: "\<not> info_lock j" and m: "mrs s' = (mrs s)(p \<mapsto> m')" and v: "vmas s' = vmas s"
    and m': "mr_sem m' = SemFree" "vma_live s m'"
  shows "own_inv D s'"
proof -
  have pl: "p \<notin> listed s" and pD: "p \<notin> D" using inv p by (auto simp: own_inv_def)
  have l: "listed s' = insert p (listed s)"
    unfolding listed_upd [OF pd] listed_split [OF i] by (simp add: j)
  have f: "file_ok s k" if "private_data s g = Some k" for g k using inv_file [OF inv that] .
  have np: "p \<notin> set (mr_list k)" if "private_data s g = Some k" for g k
    using pl that by (auto simp: listed_def)
  have dj: "set (mr_list k) \<inter> set (mr_list n) = {}"
    if "private_data s g = Some k" "private_data s h = Some n" "g \<noteq> h" for g h k n
    using inv that unfolding own_inv_def drv_ok_def by blast
  have "file_ok s' k" if k: "private_data s' g = Some k" for g k
  proof (cases "g = f")
    case True
    then have "k = j" using k pd by simp
    then show ?thesis using f [OF i] np [OF i] m'(1) lock by (auto simp: file_ok_def m j)
  next
    case False
    then have k': "private_data s g = Some k" using k pd by simp
    then show ?thesis using f [OF k'] m'(1) by (auto simp: file_ok_def m)
  qed
  moreover have "set (mr_list k) \<inter> set (mr_list n) = {}"
    if "private_data s' g = Some k" "private_data s' h = Some n" "g \<noteq> h" for g h k n
    using that dj [of g _ h] i np j unfolding pd by (auto split: if_splits)
  ultimately have "drv_ok s'" unfolding drv_ok_def by blast
  moreover have "vma_live s' k \<longleftrightarrow> vma_live s k" for k by (simp add: vma_live_def v)
  ultimately show ?thesis using inv pl pD m'(2) unfolding own_inv_def l m by auto
qed

section \<open>Queries\<close>

lemma mr_sem_same: "mr_sem m = SemFree \<Longrightarrow> m\<lparr>mr_sem := SemFree\<rparr> = m"
  by (cases m) simp

lemma put_read:
  assumes "mrs s p = Some m" and "mr_sem m = SemFree"
  shows "gdr_put_mr p False (set_mr p (m\<lparr>mr_sem := SemReaders 1\<rparr>) s) = Inr s"
  using assms by (simp add: gdr_put_mr_def up_read_def mr_sem_same set_mr_same)

lemma put_write:
  assumes "mr_sem m = SemWriter"
  shows "gdr_put_mr p True (set_mr p m s) = Inr (set_mr p (m\<lparr>mr_sem := SemFree\<rparr>) s)"
  using assms by (simp add: gdr_put_mr_def up_write_def)

lemma get_read:
  assumes f: "private_data s f = Some i" and ok: "file_ok s i"
    and p: "pick_mr s h (mr_list i) = Some p"
  obtains m where "mrs s p = Some m" and "mr_sem m = SemFree"
    and "gdr_get_mr_from_handle f h False s = Inr (Some p, set_mr p (m\<lparr>mr_sem := SemReaders 1\<rparr>) s)"
    and "gdr_put_mr p False (set_mr p (m\<lparr>mr_sem := SemReaders 1\<rparr>) s) = Inr s"
  using file_ok_mr [OF ok pick_mr_in [OF p]] get_mr_eq [OF f ok, of h False] put_read p that
  by fastforce

lemma get_none:
  assumes "private_data s f = Some i" and "file_ok s i" and "pick_mr s h (mr_list i) = None"
  shows "gdr_get_mr_from_handle f h w s = Inr (None, s)"
  using get_mr_eq [OF assms(1,2)] assms(3) by simp

lemma query_state:
  assumes f: "private_data s f = Some i" and ok: "file_ok s i"
  shows "\<exists>r out. gdrdrv_get_cb_flag f u s = Inr (r, out, s)"
    and "\<exists>r out. gdrdrv_get_info f u s = Inr (r, out, s)"
    and "\<exists>r out. gdrdrv_get_info_v2 f u s = Inr (r, out, s)"
proof -
  show "\<exists>r out. gdrdrv_get_cb_flag f u s = Inr (r, out, s)"
  proof (cases "pick_mr s (cb_handle (ua_cb u)) (mr_list i)")
    case (Some p)
    then show ?thesis
      by (rule get_read [OF f ok]) (simp add: gdrdrv_get_cb_flag_def copy_to_user_def)
  qed (simp add: gdrdrv_get_cb_flag_def get_none [OF f ok])
  show "\<exists>r out. gdrdrv_get_info f u s = Inr (r, out, s)"
  proof (cases "pick_mr s (gi_handle (ua_info u)) (mr_list i)")
    case (Some p)
    then show ?thesis
      by (rule get_read [OF f ok]) (simp add: gdrdrv_get_info_def copy_to_user_def Let_def)
  qed (simp add: gdrdrv_get_info_def get_none [OF f ok])
  show "\<exists>r out. gdrdrv_get_info_v2 f u s = Inr (r, out, s)"
  proof (cases "pick_mr s (gv_handle (ua_info_v2 u)) (mr_list i)")
    case (Some p)
    then show ?thesis
      by (rule get_read [OF f ok]) (simp add: gdrdrv_get_info_v2_def copy_to_user_def Let_def)
  qed (simp add: gdrdrv_get_info_v2_def get_none [OF f ok])
qed

section \<open>Requesting a mapping type\<close>

lemma req_mapping_type_inv:
  assumes inv: "own_inv D s" and f: "private_data s f = Some i"
  shows "\<exists>r out s'. gdrdrv_req_mapping_type c f u s = Inr (r, out, s') \<and> own_inv D s' \<and>
    private_data s' = private_data s"
proof -
  note ok = inv_file [OF inv f]
  show ?thesis
  proof (cases "ua_readable u \<and> mr_type_of (rq_mapping_type (ua_req u)) \<noteq> None \<and>
      pick_mr s (rq_handle (ua_req u)) (mr_list i) \<noteq> None")
    case False
    then show ?thesis using inv
      by (auto simp: gdrdrv_req_mapping_type_def get_mr_eq [OF f ok] split: option.split)
  next
    case True
    then obtain ty p where ty: "mr_type_of (rq_mapping_type (ua_req u)) = Some ty"
      and p: "pick_mr s (rq_handle (ua_req u)) (mr_list i) = Some p" by auto
    have pl: "p \<in> listed s" using f pick_mr_in [OF p] by (auto simp: listed_def)
    obtain m where m: "mrs s p = Some m" "mr_sem m = SemFree" "vma_live s m"
      using inv_mr [OF inv f pick_mr_in [OF p]] .
    have keep: "own_inv D (set_mr p (m\<lparr>mr_req_mapping_type := t\<rparr>) s)" for t
      by (rule inv_set_mr [OF inv pl]) (use m in \<open>simp_all add: vma_live_def gdr_mr_is_mapped_def\<close>)
    have same: "set_mr p m s = s" using m by (simp add: set_mr_same)
    have sem: "m\<lparr>mr_req_mapping_type := ty, mr_sem := SemFree\<rparr> = m\<lparr>mr_req_mapping_type := ty\<rparr>"
      using m by (cases m) simp
    show ?thesis
      using True ty p m inv keep [of ty]
      by (auto simp: gdrdrv_req_mapping_type_def get_mr_eq [OF f ok] put_write mr_sem_same same sem)
  qed
qed

section \<open>Unpinning\<close>

lemma destroy_effect:
  assumes m: "mrs s p = Some m" and live: "vma_live s m"
  shows "\<exists>s1. (if gdr_mr_is_mapped m then gdr_mr_destroy_all_mappings c p s else Inr s) = Inr s1 \<and>
    mrs s1 = (mrs s)(p \<mapsto> m\<lparr>mr_cpu_mapping_type := GDR_MR_NONE\<rparr>) \<and>
    private_data s1 = private_data s \<and> vmas s1 = vmas s \<and> f_mapping s1 = f_mapping s"
proof (cases "gdr_mr_is_mapped m")
  case True
  then show ?thesis
    using m live by (auto simp: vma_live_def gdr_mr_destroy_all_mappings_def gdrdrv_zap_vma_def)
next
  case False
  then have "m\<lparr>mr_cpu_mapping_type := GDR_MR_NONE\<rparr> = m"
    by (cases m) (simp add: gdr_mr_is_mapped_def)
  then show ?thesis using m False by (simp add: fun_upd_idem)
qed

lemma free_effect:
  assumes m: "mrs s p = Some m" and "\<not> gdr_mr_is_mapped m" and "mr_sem m = SemWriter"
  shows "\<exists>s1. gdr_free_mr_unlocked c x p s = Inr s1 \<and> mrs s1 = (mrs s)(p := None) \<and>
    private_data s1 = private_data s \<and> vmas s1 = vmas s \<and> f_mapping s1 = f_mapping s"
  using assms
  by (auto simp: gdr_free_mr_unlocked_def gdr_free_mr_begin_def gdr_free_mr_finish_def up_write_def
      Let_def split: option.split)

lemma detach_effect:
  assumes inv: "own_inv D s" and f: "private_data s f = Some i"
  shows "case pick_mr s h (mr_list i) of
      None \<Rightarrow> unpin_detach c f h s = Inr (- EINVAL, None, s)
    | Some p \<Rightarrow> (\<exists>s1 m. unpin_detach c f h s = Inr (0, Some p, s1) \<and> mrs s p = Some m \<and>
        mrs s1 = (mrs s)(p \<mapsto> m\<lparr>mr_sem := SemWriter, mr_cpu_mapping_type := GDR_MR_NONE\<rparr>) \<and>
        private_data s1 = (private_data s)(f \<mapsto> i\<lparr>mr_list := remove1 p (mr_list i)\<rparr>) \<and>
        vmas s1 = vmas s \<and> f_mapping s1 = f_mapping s)"
proof -
  note ok = inv_file [OF inv f]
  let ?l = "set_info f (i\<lparr>info_lock := True\<rparr>) s"
  have nl: "\<not> info_lock i" using ok by (simp add: file_ok_def)
  have lock: "mutex_lock f s = Inr ?l" using f nl by (simp add: mutex_lock_def)
  have pick: "pick_mr ?l h (mr_list i) = pick_mr s h (mr_list i)" by (simp add: pick_mr_def)
  have look: "gdr_mr_from_handle_unlocked f h ?l = Inr (pick_mr s h (mr_list i))"
    using from_handle_eq [of ?l f "i\<lparr>info_lock := True\<rparr>" h] file_ok_live [OF ok]
    by (simp add: pick live_mrs_def)
  show ?thesis
  proof (cases "pick_mr s h (mr_list i)")
    case None
    then show ?thesis using f nl
      by (simp add: unpin_detach_def lock look mutex_unlock_def info_lock_same set_info_same)
  next
    case (Some p)
    obtain m where m: "mrs s p = Some m" "mr_sem m = SemFree" "vma_live s m"
      using inv_mr [OF inv f pick_mr_in [OF Some]] .
    let ?w = "set_mr p (m\<lparr>mr_sem := SemWriter\<rparr>) ?l"
    have down: "down_write p ?l = Inr ?w" using m by (simp add: down_write_def)
    obtain s1 where s1: "(if gdr_mr_is_mapped m then gdr_mr_destroy_all_mappings c p ?w else Inr ?w)
        = Inr s1" "mrs s1 = (mrs s)(p \<mapsto> m\<lparr>mr_sem := SemWriter, mr_cpu_mapping_type := GDR_MR_NONE\<rparr>)"
      "private_data s1 = (private_data s)(f \<mapsto> i\<lparr>info_lock := True\<rparr>)" "vmas s1 = vmas s"
      "f_mapping s1 = f_mapping s"
      using destroy_effect [of ?w p "m\<lparr>mr_sem := SemWriter\<rparr>" c] m
      by (auto simp: vma_live_def gdr_mr_is_mapped_def)
    have mapped: "gdr_mr_is_mapped (m\<lparr>mr_sem := SemWriter\<rparr>) = gdr_mr_is_mapped m"
      by (simp add: gdr_mr_is_mapped_def)
    have unlock: "i\<lparr>mr_list := l, info_lock := False\<rparr> = i\<lparr>mr_list := l\<rparr>" for l
      using nl by (cases i) simp
    show ?thesis
      using s1 Some m
      by (simp add: unpin_detach_def lock look down mapped list_del_def mutex_unlock_def unlock)
  qed
qed

lemma unpin_core_effect:
  assumes inv: "own_inv D s" and f: "private_data s f = Some i"
  shows "case pick_mr s h (mr_list i) of
      None \<Rightarrow> gdrdrv_unpin_buffer_core c x f h s = Inr (- EINVAL, s)
    | Some p \<Rightarrow> (\<exists>s'. gdrdrv_unpin_buffer_core c x f h s = Inr (0, s') \<and>
        mrs s' = (mrs s)(p := None) \<and>
        private_data s' = (private_data s)(f \<mapsto> i\<lparr>mr_list := remove1 p (mr_list i)\<rparr>) \<and>
        vmas s' = vmas s \<and> f_mapping s' = f_mapping s)"
proof (cases "pick_mr s h (mr_list i)")
  case None
  then show ?thesis using detach_effect [OF inv f, where h = h and c = c]
    by (simp add: gdrdrv_unpin_buffer_core_def EINVAL_def)
next
  case (Some p)
  then obtain s1 m where d: "unpin_detach c f h s = Inr (0, Some p, s1)"
    and s1: "mrs s1 = (mrs s)(p \<mapsto> m\<lparr>mr_sem := SemWriter, mr_cpu_mapping_type := GDR_MR_NONE\<rparr>)"
      "private_data s1 = (private_data s)(f \<mapsto> i\<lparr>mr_list := remove1 p (mr_list i)\<rparr>)"
      "vmas s1 = vmas s" "f_mapping s1 = f_mapping s"
    using detach_effect [OF inv f, where h = h and c = c] by auto
  have "mrs s1 p = Some (m\<lparr>mr_sem := SemWriter, mr_cpu_mapping_type := GDR_MR_NONE\<rparr>)"
    using s1 by simp
  then show ?thesis
    using free_effect [of s1 p _ c x] s1 Some
    by (fastforce simp: gdrdrv_unpin_buffer_core_def d gdr_mr_is_mapped_def)
qed

lemma unpin_core_inv:
  assumes inv: "own_inv D s" and f: "private_data s f = Some i"
  shows "\<exists>r s'. gdrdrv_unpin_buffer_core c x f h s = Inr (r, s') \<and> own_inv D s'"
proof (cases "pick_mr s h (mr_list i)")
  case None
  then show ?thesis using unpin_core_effect [OF inv f, where h = h and c = c and x = x] inv by simp
next
  case (Some p)
  then obtain s' where s': "gdrdrv_unpin_buffer_core c x f h s = Inr (0, s')"
    "mrs s' = (mrs s)(p := None)"
    "private_data s' = (private_data s)(f \<mapsto> i\<lparr>mr_list := remove1 p (mr_list i)\<rparr>)"
    "vmas s' = vmas s"
    using unpin_core_effect [OF inv f, where h = h and c = c and x = x] by auto
  note pin = pick_mr_in [OF Some]
  obtain m where m: "mrs s p = Some m" using inv_mr [OF inv f pin] .
  let ?s1 = "set_mr p m (s'\<lparr>vmas := vmas s\<rparr>)"
  have pD: "p \<notin> D" using inv f pin by (auto simp: own_inv_def listed_def)
  have det: "own_inv (insert p D) ?s1"
    by (rule inv_detach [OF inv f pin, where m' = m]) (use s' in simp_all)
  have "own_inv D s'"
    by (rule inv_kfree [OF det pD]) (use s' m in \<open>auto simp: fun_upd_idem\<close>)
  then show ?thesis using s'(1) by blast
qed

section \<open>Pinning\<close>

definition pin_flags_ok :: "drv_cfg \<Rightarrow> u64 \<Rightarrow> u32 \<Rightarrow> u32 \<Rightarrow> bool" where
  "pin_flags_ok c p2p_token va_space flags \<longleftrightarrow>
     (if gdr_use_persistent_mapping c
      then p2p_token = 0 \<and> va_space = 0 \<and>
           (flags AND GDRDRV_PIN_BUFFER_FLAG_FORCE_PCIE \<noteq> 0 \<longrightarrow> force_bar1 c \<noteq> None)
      else flags = GDRDRV_PIN_BUFFER_FLAG_DEFAULT)"

text \<open>The region as the first part of a pin leaves it.\<close>

definition fresh_mr :: "drv_cfg \<Rightarrow> u64 \<Rightarrow> u64 \<Rightarrow> gdr_mr \<Rightarrow> bool" where
  "fresh_mr c addr sz m \<longleftrightarrow>
     \<not> gdr_mr_is_mapped m \<and> mr_vma m = None \<and> mr_offset m = addr AND GPU_PAGE_OFFSET \<and>
     mr_va m = addr AND GPU_PAGE_MASK \<and>
     mr_mapped_size m = k_round_up c (addr + sz) GPU_PAGE_SIZE - (addr AND GPU_PAGE_MASK) \<and>
     \<not> mr_cb_flag m"

lemma pin_setup_ok:
  assumes "pin_flags_ok c t v fl"
  shows "\<exists>gf m. pin_setup c p addr sz t v fl s = (0, gf, set_mr p m s) \<and> fresh_mr c addr sz m \<and>
    mr_sem m = SemFree \<and> mr_page_table m = None"
  using assms
  by (auto simp: pin_flags_ok_def pin_setup_def Let_def fresh_mr_def zero_mr_def gdr_mr_is_mapped_def
      split: if_splits option.splits)

lemma pin_setup_bad:
  assumes "\<not> pin_flags_ok c t v fl"
  shows "\<exists>m. pin_setup c p addr sz t v fl s = (- EINVAL, 0, set_mr p m s) \<and>
    mr_sem m = SemFree \<and> \<not> gdr_mr_is_mapped m"
  using assms
  by (auto simp: pin_flags_ok_def pin_setup_def Let_def zero_mr_def gdr_mr_is_mapped_def
      split: if_splits option.splits)

lemma pin_get_pages_effect:
  assumes m: "mrs s p = Some m" "mr_sem m = SemFree" and fr: "fresh_mr c addr sz m"
    and doc: "\<And>t v a n fl. fst (x_get_pages x t v a n) < 0 \<or>
        fst (x_get_pages x t v a n) = 0 \<and> snd (x_get_pages x t v a n) \<noteq> None"
      "\<And>a n fl. fst (x_get_pages_persistent x a n fl) < 0 \<or>
        fst (x_get_pages_persistent x a n fl) = 0 \<and> snd (x_get_pages_persistent x a n fl) \<noteq> None"
  shows "\<exists>r s1 m1. pin_get_pages c x p gf s = Inr (r, s1) \<and> mrs s1 = (mrs s)(p \<mapsto> m1) \<and>
    private_data s1 = private_data s \<and> vmas s1 = vmas s \<and> f_mapping s1 = f_mapping s \<and>
    mr_sem m1 = SemWriter \<and> fresh_mr c addr sz m1 \<and>
    (r < 0 \<or> r = 0 \<and> mr_page_table m1 \<noteq> None)"
proof -
  define q where "q = (if persistent_api c \<and> gdr_use_persistent_mapping c
      then x_get_pages_persistent x (mr_va m) (mr_mapped_size m) gf
      else x_get_pages x (mr_p2p_token m) (mr_va_space m) (mr_va m) (mr_mapped_size m))"
  have q: "fst q < 0 \<or> fst q = 0 \<and> snd q \<noteq> None"
    using doc by (simp add: q_def)
  let ?w = "set_mr p (m\<lparr>mr_sem := SemWriter\<rparr>) s"
  have run: "pin_get_pages c x p gf s =
      (if fst q < 0 then Inr (fst q, ?w)
       else Inr (fst q, set_mr p
         (if arch c = ARM64 then m\<lparr>mr_sem := SemWriter, mr_page_table := snd q\<rparr>
          else m\<lparr>mr_sem := SemWriter, mr_page_table := snd q,
                 mr_tm_cycles := snd (x_cycles x) - fst (x_cycles x), mr_tsc_khz := x_tsc_khz x\<rparr>)
         (?w\<lparr>nv_get_pages_refcount := nv_get_pages_refcount ?w + 1\<rparr>)))"
    using m q by (auto simp: pin_get_pages_def down_write_def q_def Let_def case_prod_beta)
  have fr': "fresh_mr c addr sz (m\<lparr>mr_sem := a\<rparr>)" "fresh_mr c addr sz (m\<lparr>mr_sem := a, mr_page_table := b\<rparr>)"
    "fresh_mr c addr sz (m\<lparr>mr_sem := a, mr_page_table := b, mr_tm_cycles := d, mr_tsc_khz := e\<rparr>)"
    for a b d e using fr by (auto simp: fresh_mr_def gdr_mr_is_mapped_def)
  show ?thesis using q fr' unfolding run by auto
qed

lemma check_page_table_effect:
  assumes m: "mrs s p = Some m" "mr_page_table m = Some pt" and fr: "fresh_mr c addr sz m"
    and sem: "mr_sem m = SemWriter"
  shows "\<exists>r s1 m1. pin_check_page_table c p 0 s = Inr (r, s1) \<and> mrs s1 = (mrs s)(p \<mapsto> m1) \<and>
    private_data s1 = private_data s \<and> vmas s1 = vmas s \<and> f_mapping s1 = f_mapping s \<and>
    mr_sem m1 = SemWriter \<and> fresh_mr c addr sz m1 \<and>
    (r < 0 \<or> r = 0 \<and> mr_page_table m1 = Some pt \<and> pt_page_size pt = NVIDIA_P2P_PAGE_SIZE_64KB \<and>
       NVIDIA_P2P_PAGE_TABLE_VERSION_COMPATIBLE c pt)"
proof -
  have fr': "fresh_mr c addr sz (m\<lparr>mr_page_size := k\<rparr>)" for k
    using fr by (simp add: fresh_mr_def gdr_mr_is_mapped_def)
  have same: "\<exists>m1. mrs s = (mrs s)(p \<mapsto> m1) \<and> mr_sem m1 = SemWriter \<and> fresh_mr c addr sz m1"
    using m fr sem by (intro exI [of _ m]) (simp add: fun_upd_idem)
  show ?thesis
    using m fr fr' sem same
    by (cases "pt_page_size pt") (auto simp: pin_check_page_table_def EFAULT_def EINVAL_def)
qed

lemma publish_effect:
  assumes m: "mrs s p = Some m" "mr_sem m = SemWriter" and i: "private_data s f = Some i" "\<not> info_lock i"
  shows "\<exists>s1. pin_publish c f p 0 s =
      Inr (if next_handle_overflow i then - ENOMEM else 0,
           if next_handle_overflow i then None else Some (next_handle i), s1) \<and>
    vmas s1 = vmas s \<and> f_mapping s1 = f_mapping s \<and>
    (if next_handle_overflow i then mrs s1 = mrs s \<and> private_data s1 = private_data s
     else mrs s1 = (mrs s)(p \<mapsto> m\<lparr>mr_handle := next_handle i, mr_sem := SemFree\<rparr>) \<and>
       private_data s1 = (private_data s)(f \<mapsto> i\<lparr>mr_list := p # mr_list i,
         next_handle := next_handle i + handle_pages c (mr_mapped_size m),
         next_handle_overflow := (next_handle i + handle_pages c (mr_mapped_size m)) AND
           drop_bit (PAGE_SHIFT c) (-1) < next_handle i\<rparr>))"
proof -
  have lk: "i\<lparr>info_lock := False\<rparr> = i" using i(2) by (cases i) simp
  have ul: "i\<lparr>mr_list := a, next_handle := b, next_handle_overflow := o1, info_lock := False\<rparr>
      = i\<lparr>mr_list := a, next_handle := b, next_handle_overflow := o1\<rparr>"
    for a b o1 using i(2) by (cases i) simp
  have id: "(private_data s)(f \<mapsto> i) = private_data s" using i by (simp add: fun_upd_idem)
  show ?thesis
    using m i
    by (auto simp: pin_publish_def mutex_lock_def mutex_unlock_def gdr_generate_mr_handle_def Let_def
        list_add_def up_write_def lk ul id ENOMEM_def)
qed

text \<open>The whole of \<open>__gdrdrv_pin_buffer\<close>: either nothing changes or a new region is published.\<close>

definition pinned_mr :: "drv_cfg \<Rightarrow> u64 \<Rightarrow> u64 \<Rightarrow> gdr_info \<Rightarrow> gdr_mr \<Rightarrow> bool" where
  "pinned_mr c addr sz i m \<longleftrightarrow> fresh_mr c addr sz m \<and> mr_sem m = SemFree \<and> mr_handle m = next_handle i \<and>
     (\<exists>pt. mr_page_table m = Some pt \<and> pt_page_size pt = NVIDIA_P2P_PAGE_SIZE_64KB \<and>
        NVIDIA_P2P_PAGE_TABLE_VERSION_COMPATIBLE c pt)"

definition info_after_pin :: "drv_cfg \<Rightarrow> nat \<Rightarrow> gdr_mr \<Rightarrow> gdr_info \<Rightarrow> gdr_info" where
  "info_after_pin c p m i =
     i\<lparr>mr_list := p # mr_list i,
       next_handle := next_handle i + handle_pages c (mr_mapped_size m),
       next_handle_overflow := (next_handle i + handle_pages c (mr_mapped_size m)) AND
         drop_bit (PAGE_SHIFT c) (-1) < next_handle i\<rparr>"

lemma pin_out_fail:
  assumes "r \<noteq> 0" and "mrs s1 = (mrs s)(p \<mapsto> m)" and "mr_sem m = SemWriter"
    and "\<not> gdr_mr_is_mapped m" and "mrs s p = None"
  shows "\<exists>s2. pin_out c x p (r, h, s1) = Inr (r, h, s2) \<and> mrs s2 = mrs s \<and>
    private_data s2 = private_data s1 \<and> vmas s2 = vmas s1 \<and> f_mapping s2 = f_mapping s1"
proof -
  have "mrs s1 p = Some m" using assms(2) by simp
  then obtain s2 where "gdr_free_mr_unlocked c x p s1 = Inr s2" "mrs s2 = (mrs s1)(p := None)"
    "private_data s2 = private_data s1 \<and> vmas s2 = vmas s1 \<and> f_mapping s2 = f_mapping s1"
    using free_effect assms(3,4) by blast
  moreover have "(mrs s1)(p := None) = mrs s" using assms(2,5) by (simp add: fun_upd_idem)
  ultimately show ?thesis using assms(1) by (simp add: pin_out_def)
qed

text \<open>A pin that fails after the object is set up leaves no trace of it.\<close>

lemma pin_fail_effect:
  assumes "mrs s p = None" and "r < 0" and "mrs q = (mrs s)(p \<mapsto> k)" and "mr_sem k = SemWriter"
    and "fresh_mr c addr sz k" and "private_data q = private_data s" "vmas q = vmas s" "f_mapping q = f_mapping s"
  shows "\<exists>s2. pin_out c x p (r, None, q) = Inr (r, None, s2) \<and> mrs s2 = mrs s \<and>
      private_data s2 = private_data s \<and> vmas s2 = vmas s \<and> f_mapping s2 = f_mapping s"
proof -
  have "\<not> gdr_mr_is_mapped k" using assms(5) by (simp add: fresh_mr_def)
  from pin_out_fail [OF _ assms(3,4) this assms(1), of r c x None] assms show ?thesis by auto
qed

text \<open>The last part: the handle is granted and the region listed, or the pin fails.\<close>

lemma pin_publish_effect:
  assumes free: "mrs s p = None" and i: "private_data s f = Some i" "\<not> info_lock i"
    and v2: "mrs s2 = (mrs s)(p \<mapsto> m2)" "private_data s2 = private_data s" "vmas s2 = vmas s"
        "f_mapping s2 = f_mapping s"
    and m2: "mr_sem m2 = SemWriter" "fresh_mr c addr sz m2"
    and pt: "mr_page_table m2 = Some pt" "pt_page_size pt = NVIDIA_P2P_PAGE_SIZE_64KB"
        "NVIDIA_P2P_PAGE_TABLE_VERSION_COMPATIBLE c pt"
  shows "\<exists>r h s'. bindE (pin_publish c f p 0 s2) (pin_out c x p) = Inr (r, h, s') \<and>
    vmas s' = vmas s \<and> f_mapping s' = f_mapping s \<and>
    (r < 0 \<and> h = None \<and> mrs s' = mrs s \<and> private_data s' = private_data s \<or>
     r = 0 \<and> h = Some (next_handle i) \<and> \<not> next_handle_overflow i \<and>
     (\<exists>m. pinned_mr c addr sz i m \<and> mrs s' = (mrs s)(p \<mapsto> m) \<and>
       private_data s' = (private_data s)(f \<mapsto> info_after_pin c p m i)))"
proof -
  let ?m = "m2\<lparr>mr_handle := next_handle i, mr_sem := SemFree\<rparr>"
  have m2p: "mrs s2 p = Some m2" and i2: "private_data s2 f = Some i" using v2 i by simp_all
  obtain s3 where s3: "pin_publish c f p 0 s2 = Inr (if next_handle_overflow i then - ENOMEM else 0,
      if next_handle_overflow i then None else Some (next_handle i), s3)"
    and v3: "vmas s3 = vmas s" "f_mapping s3 = f_mapping s"
    and st: "if next_handle_overflow i then mrs s3 = mrs s2 \<and> private_data s3 = private_data s2
      else mrs s3 = (mrs s2)(p \<mapsto> ?m) \<and>
        private_data s3 = (private_data s2)(f \<mapsto> info_after_pin c p ?m i)"
    using publish_effect [OF m2p m2(1) i2 i(2), of c] v2 by (auto simp: info_after_pin_def)
  show ?thesis
  proof (cases "next_handle_overflow i")
    case True
    have neg: "- ENOMEM < 0" by (simp add: ENOMEM_def)
    have v3': "mrs s3 = (mrs s)(p \<mapsto> m2)" "private_data s3 = private_data s"
      using st True v2 by auto
    show ?thesis
      using pin_fail_effect [where x = x, OF free neg v3'(1) m2 v3'(2) v3] True neg by (auto simp: s3)
  next
    case False
    have "pinned_mr c addr sz i ?m"
      using m2 pt False by (auto simp: pinned_mr_def fresh_mr_def gdr_mr_is_mapped_def)
    then show ?thesis using False st v2 v3 by (auto simp: s3 pin_out_def)
  qed
qed

lemma pin_core_effect:
  assumes p: "x_kmalloc x = Some p" "mrs s p = None" and i: "private_data s f = Some i" "\<not> info_lock i"
    and doc: "get_pages_doc x" and fl: "pin_flags_ok c t v fl"
  shows "\<exists>r h s'. gdrdrv_pin_buffer_core c x f addr sz t v fl s = Inr (r, h, s') \<and>
    vmas s' = vmas s \<and> f_mapping s' = f_mapping s \<and>
    (r < 0 \<and> h = None \<and> mrs s' = mrs s \<and> private_data s' = private_data s \<or>
     r = 0 \<and> h = Some (next_handle i) \<and> \<not> next_handle_overflow i \<and>
     (\<exists>m. pinned_mr c addr sz i m \<and> mrs s' = (mrs s)(p \<mapsto> m) \<and>
       private_data s' = (private_data s)(f \<mapsto> info_after_pin c p m i)))"
proof -
  obtain gf m0 where s0: "pin_setup c p addr sz t v fl s = (0, gf, set_mr p m0 s)"
    and m0: "fresh_mr c addr sz m0" "mr_sem m0 = SemFree" "mr_page_table m0 = None"
    using pin_setup_ok [OF fl] by blast
  let ?s0 = "set_mr p m0 s"
  obtain r1 s1 m1 where s1: "pin_get_pages c x p gf ?s0 = Inr (r1, s1)"
    and v1: "mrs s1 = (mrs s)(p \<mapsto> m1)" "private_data s1 = private_data s" "vmas s1 = vmas s"
      "f_mapping s1 = f_mapping s"
    and m1: "mr_sem m1 = SemWriter" "fresh_mr c addr sz m1"
    and r1: "r1 < 0 \<or> r1 = 0 \<and> mr_page_table m1 \<noteq> None"
    using pin_get_pages_effect [of ?s0 p m0 c addr sz x gf] m0 doc by (auto simp: get_pages_doc_def)
  note fail = pin_fail_effect [where x = x, OF p(2)]
  note core = gdrdrv_pin_buffer_core_def
  show ?thesis
  proof (cases "r1 < 0")
    case True
    then show ?thesis using fail [OF True v1(1) m1 v1(2-4)] by (auto simp: core p s0 s1)
  next
    case False
    with r1 obtain pt where pt: "mr_page_table m1 = Some pt" and r1: "r1 = 0" by auto
    have m1p: "mrs s1 p = Some m1" using v1 by simp
    obtain r2 s2 m2 where s2: "pin_check_page_table c p 0 s1 = Inr (r2, s2)"
      and v2: "mrs s2 = (mrs s)(p \<mapsto> m2)" "private_data s2 = private_data s" "vmas s2 = vmas s"
        "f_mapping s2 = f_mapping s"
      and m2: "mr_sem m2 = SemWriter" "fresh_mr c addr sz m2"
      and r2: "r2 < 0 \<or> r2 = 0 \<and> mr_page_table m2 = Some pt \<and>
        pt_page_size pt = NVIDIA_P2P_PAGE_SIZE_64KB \<and> NVIDIA_P2P_PAGE_TABLE_VERSION_COMPATIBLE c pt"
      using check_page_table_effect [OF m1p pt m1(2,1)] v1 by auto
    show ?thesis
    proof (cases "r2 < 0")
      case True
      then show ?thesis using fail [OF True v2(1) m2 v2(2-4)] by (auto simp: core p s0 s1 r1 s2)
    next
      case False
      have r2': "r2 = 0" "mr_page_table m2 = Some pt" "pt_page_size pt = NVIDIA_P2P_PAGE_SIZE_64KB"
          "NVIDIA_P2P_PAGE_TABLE_VERSION_COMPATIBLE c pt"
        using r2 False by auto
      show ?thesis
        using pin_publish_effect [OF p(2) i v2 m2 r2'(2-4), of x] by (simp add: core p s0 s1 r1 s2 r2'(1))
    qed
  qed
qed

text \<open>
  The early error exits leave the semaphore they release untaken: the label \<open>out\<close> calls
  \<open>gdr_free_mr_unlocked\<close>, whose \<open>up_write\<close> has no \<open>down_write\<close> before it.
\<close>

lemma pin_core_bad_flags:
  assumes "x_kmalloc x = Some p" and "\<not> pin_flags_ok c t v fl"
  shows "gdrdrv_pin_buffer_core c x f addr sz t v fl s = Inl BadUnlock"
proof -
  obtain m where "pin_setup c p addr sz t v fl s = (- EINVAL, 0, set_mr p m s)"
    and "mr_sem m = SemFree" "\<not> gdr_mr_is_mapped m"
    using pin_setup_bad [OF assms(2)] by blast
  then show ?thesis using assms(1)
    by (simp add: gdrdrv_pin_buffer_core_def pin_out_def gdr_free_mr_unlocked_def
        gdr_free_mr_begin_def up_write_def EINVAL_def)
qed

end
