(* ===== verification/Drv_Translate.thy ===== *)
theory Drv_Translate
  imports Drv_Example
begin

text \<open>
  What the calls of a successful mmap amount to: the translation from user addresses to physical
  addresses that the recorded \<open>io_remap_pfn_range\<close> calls install, and the proof that it is the
  one the NVIDIA page table prescribes, whether the host remaps a run at once or page by page.
\<close>

section \<open>The translation a list of calls installs\<close>

text \<open>
  \<open>io_remap_pfn_range(vma, addr, pfn, size, prot)\<close> with status 0 maps the \<open>size\<close> bytes from
  \<open>addr\<close> on to the physical bytes from \<open>pfn << PAGE_SHIFT\<close> on; a later call wins.
\<close>

definition call_maps :: "drv_cfg \<Rightarrow> nat \<Rightarrow> u64 \<Rightarrow> kcall \<Rightarrow> u64 option" where
  "call_maps c v a k =
     (case k of
        RemapPfn v' va pfn sz prot st \<Rightarrow>
          if v' = v \<and> st = 0 \<and> a - va < sz then Some (push_bit (PAGE_SHIFT c) pfn + (a - va)) else None
      | _ \<Rightarrow> None)"

fun translate :: "drv_cfg \<Rightarrow> nat \<Rightarrow> u64 \<Rightarrow> kcall list \<Rightarrow> u64 option" where
  "translate c v a [] = None"
| "translate c v a (k # ks) =
     (case translate c v a ks of Some pa \<Rightarrow> Some pa | None \<Rightarrow> call_maps c v a k)"

lemma translate_append:
  "translate c v a (ks @ ls) =
    (case translate c v a ls of Some pa \<Rightarrow> Some pa | None \<Rightarrow> translate c v a ks)"
  by (induction ks) (auto split: option.splits)

text \<open>The translation that maps \<open>sz\<close> bytes from \<open>va\<close> on to the bytes from \<open>pa\<close> on.\<close>

definition linear_map :: "u64 \<Rightarrow> u64 \<Rightarrow> u64 \<Rightarrow> u64 \<Rightarrow> u64 option" where
  "linear_map va pa sz a = (if a - va < sz then Some (pa + (a - va)) else None)"

section \<open>Host pages\<close>

definition page_cfg :: "drv_cfg \<Rightarrow> bool" where
  "page_cfg c \<longleftrightarrow> 0 < PAGE_SHIFT c \<and> PAGE_SHIFT c \<le> 16"

lemma PAGE_SIZE_exp: "PAGE_SIZE c = 2 ^ PAGE_SHIFT c"
  by (simp add: PAGE_SIZE_def push_bit_eq_mult)

lemma unat_PAGE_SIZE: "page_cfg c \<Longrightarrow> unat (PAGE_SIZE c) = 2 ^ PAGE_SHIFT c"
  by (simp add: PAGE_SIZE_exp page_cfg_def unat_exp64)

lemma unat_GPU_PAGE_SIZE: "unat GPU_PAGE_SIZE = 65536"
  by (simp add: GPU_PAGE_SIZE_def GPU_PAGE_SHIFT_def)

lemma linear_map_append:
  assumes "unat n + unat m \<le> 2 ^ 64" and nm: "unat k = unat n + unat m"
  shows "(case linear_map (va + n) (pa + n) m a of Some x \<Rightarrow> Some x | None \<Rightarrow> linear_map va pa n a)
    = linear_map va pa k a"
proof -
  have "unat (a - (va + n)) < unat m \<longleftrightarrow>
      unat n \<le> unat (a - va) \<and> unat (a - va) < unat n + unat m"
    using unat_diff_shift [of "unat n" "unat m" a va] assms by simp
  then show ?thesis
    using nm by (auto simp: linear_map_def word_less_nat_alt)
qed

lemma call_maps_remap:
  "call_maps c v a (RemapPfn v va pfn sz prot 0) = linear_map va (push_bit (PAGE_SHIFT c) pfn) sz a"
  by (simp add: call_maps_def linear_map_def)

lemma linear_map_0 [simp]: "linear_map va pa 0 a = None"
  by (simp add: linear_map_def)

section \<open>Remapping one run\<close>

text \<open>The loop condition of the source and the one of the model agree on whole pages.\<close>

lemma remap_guard:
  assumes "page_cfg c" and "r mod PAGE_SIZE c = 0"
  shows "0 < r \<longleftrightarrow> 0 < PAGE_SIZE c \<and> PAGE_SIZE c \<le> r"
proof -
  have P: "unat (PAGE_SIZE c) = 2 ^ PAGE_SHIFT c" using assms unat_PAGE_SIZE by blast
  have "unat r mod unat (PAGE_SIZE c) = 0"
    using arg_cong [OF assms(2), of unat] by (simp add: unat_mod)
  then have "unat r = 0 \<or> unat (PAGE_SIZE c) \<le> unat r"
    by (metis dvd_imp_le mod_0_imp_dvd neq0_conv)
  moreover have "0 < (2::nat) ^ PAGE_SHIFT c" by simp
  ultimately show ?thesis
    unfolding word_less_nat_alt word_le_nat_alt P unsigned_0 by linarith
qed

lemma chunks_translate:
  assumes "page_cfg c" and "remap_chunks c remap v va pfn r prot s = (0, s')"
    and "r mod PAGE_SIZE c = 0"
  shows "\<exists>ks. calls s' = calls s @ ks \<and>
    (\<forall>a. translate c v a ks = linear_map va (push_bit (PAGE_SHIFT c) pfn) r a)"
  using assms
proof (induction c remap v va pfn r prot s rule: remap_chunks.induct)
  case (1 c remap v va pfn r prot s)
  note cfg = "1.prems"(1) and run = "1.prems"(2) and al = "1.prems"(3)
  let ?P = "PAGE_SIZE c"
  show ?case
  proof (cases "0 < ?P \<and> ?P \<le> r")
    case False
    then have "r = 0" using remap_guard [OF cfg al] word_gt_0 by blast
    moreover have "s' = s" using run False by (simp add: remap_chunks.simps [of c remap v va pfn r])
    ultimately show ?thesis by (intro exI [of _ "[]"]) simp
  next
    case True
    obtain st s1 where
      step: "gdrdrv_io_remap_pfn_range1 c remap v va pfn ?P prot s = (st, s1)"
      by (cases "gdrdrv_io_remap_pfn_range1 c remap v va pfn ?P prot s") auto
    have st: "st = 0" and
      rest: "remap_chunks c remap v (va + ?P) (pfn + 1) (r - ?P) prot s1 = (0, s')"
      using run True step by (auto simp: remap_chunks.simps [of c remap v va pfn r] split: if_splits)
    obtain prot' where s1: "calls s1 = calls s @ [RemapPfn v va pfn ?P prot' 0]"
      using step st by (auto simp: gdrdrv_io_remap_pfn_range1_def Let_def)
    have sub: "unat (r - ?P) = unat r - unat ?P" using True by (simp add: unat_sub)
    have "unat r mod unat ?P = 0" using arg_cong [OF al, of unat] by (simp add: unat_mod)
    moreover have "unat ?P \<le> unat r" using True by (simp add: word_le_nat_alt)
    ultimately have "unat (r - ?P) mod unat ?P = 0" by (simp add: sub le_mod_geq)
    then have "unat ((r - ?P) mod ?P) = 0" by (simp only: unat_mod)
    then have al': "(r - ?P) mod ?P = 0" by (simp only: unat_eq_zero)
    obtain ks where ks: "calls s' = calls s1 @ ks"
      and tr: "\<And>a. translate c v a ks = linear_map (va + ?P) (push_bit (PAGE_SHIFT c) (pfn + 1)) (r - ?P) a"
      using "1.IH" [OF True, of "(st, s1)" st s1] step st cfg rest al' by auto
    have shift: "push_bit (PAGE_SHIFT c) (pfn + 1) = push_bit (PAGE_SHIFT c) pfn + ?P"
      by (simp add: push_bit_eq_mult PAGE_SIZE_exp distrib_right)
    have "unat r < 2 ^ 64" using unsigned_less [of r] by simp
    then have bound: "unat ?P + unat (r - ?P) \<le> 2 ^ 64" and sum: "unat r = unat ?P + unat (r - ?P)"
      using sub \<open>unat ?P \<le> unat r\<close> by linarith+
    have "translate c v a (RemapPfn v va pfn ?P prot' 0 # ks)
        = linear_map va (push_bit (PAGE_SHIFT c) pfn) r a" for a
      unfolding translate.simps tr shift call_maps_remap by (rule linear_map_append [OF bound sum])
    then show ?thesis
      using ks s1 by (intro exI [of _ "RemapPfn v va pfn ?P prot' 0 # ks"]) simp
  qed
qed

text \<open>What a successful remapping adds to the calls, whichever way it was done.\<close>

definition installs :: "drv_cfg \<Rightarrow> nat \<Rightarrow> drv \<Rightarrow> drv \<Rightarrow> (u64 \<Rightarrow> u64 option) \<Rightarrow> bool" where
  "installs c v s s' m \<longleftrightarrow>
     (\<exists>ks. calls s' = calls s @ ks \<and> (\<forall>a. translate c v a ks = m a))"

lemma installs_nothing: "calls s' = calls s \<Longrightarrow> (\<And>a. m a = None) \<Longrightarrow> installs c v s s' m"
  by (auto simp: installs_def intro: exI [of _ "[]"])

lemma installs_append:
  assumes "installs c v s s1 m" and "installs c v s1 s' n"
  shows "installs c v s s' (\<lambda>a. case n a of Some x \<Rightarrow> Some x | None \<Rightarrow> m a)"
proof -
  obtain ks ls where "calls s1 = calls s @ ks" "\<And>a. translate c v a ks = m a"
    "calls s' = calls s1 @ ls" "\<And>a. translate c v a ls = n a"
    using assms by (auto simp: installs_def)
  then show ?thesis
    unfolding installs_def by (intro exI [of _ "ks @ ls"]) (simp add: translate_append split: option.split)
qed

lemma installs_cong: "installs c v s s' m \<Longrightarrow> (\<And>a. m a = n a) \<Longrightarrow> installs c v s s' n"
  by (auto simp: installs_def)

lemma io_remap_installs:
  assumes "page_cfg c" and run: "gdrdrv_io_remap_pfn_range c remap v va pfn n prot s = Inr (0, s')"
  shows "installs c v s s' (linear_map va (push_bit (PAGE_SHIFT c) pfn) n)"
proof -
  obtain a where a: "vmas s v = Some a"
    using run by (auto simp: gdrdrv_io_remap_pfn_range_def)
  show ?thesis
  proof (cases "GDRDRV_KERNEL_MAY_USE_PAT c \<and> gdrdrv_pat_enabled c \<and>
          \<not> (va = vm_start a \<and> n = vm_end a - vm_start a)")
    case True
    then have "n mod PAGE_SIZE c = 0" and "remap_chunks c remap v va pfn n prot s = (0, s')"
      using run a by (auto simp: gdrdrv_io_remap_pfn_range_def)
    then show ?thesis using chunks_translate [OF assms(1)] by (simp add: installs_def)
  next
    case False
    then have "gdrdrv_io_remap_pfn_range1 c remap v va pfn n prot s = (0, s')"
      using run a by (auto simp: gdrdrv_io_remap_pfn_range_def)
    then obtain prot' where "calls s' = calls s @ [RemapPfn v va pfn n prot' 0]"
      by (auto simp: gdrdrv_io_remap_pfn_range1_def Let_def)
    then show ?thesis
      unfolding installs_def
      by (intro exI [of _ "[RemapPfn v va pfn n prot' 0]"]) (simp add: call_maps_remap)
  qed
qed

lemma remap_gpu_installs:
  assumes cfg: "page_cfg c" and run: "gdrdrv_remap_gpu_mem c remap v va pa n ty s = Inr (0, s')"
  shows "installs c v s s' (linear_map va pa n)"
proof (cases "n = 0")
  case True
  then show ?thesis using run by (auto simp: gdrdrv_remap_gpu_mem_def intro: installs_nothing)
next
  case False
  then have al: "pa AND (PAGE_SIZE c - 1) = 0" and al2: "va AND (PAGE_SIZE c - 1) = 0"
    using run by (auto simp: gdrdrv_remap_gpu_mem_def EINVAL_def Let_def split: if_splits)
  obtain a prot q where
    q: "gdrdrv_io_remap_pfn_range c remap v va (drop_bit (PAGE_SHIFT c) pa) n prot
          (set_vma v (a\<lparr>vm_flags := vm_flags a OR k_vm_dontcopy c, vm_page_prot := prot\<rparr>) s)
        = Inr q"
    and q': "(if fst q \<noteq> 0 then Inr (- EAGAIN, snd q) else Inr (0, snd q)) = (Inr (0, s') :: _ run)"
    using run False al al2
    by (auto simp: gdrdrv_remap_gpu_mem_def Let_def bindE_eq_Inr case_prod_unfold
        simp del: split_paired_Ex split del: if_split intro: that)
  have "q = (0, s')" using q' by (cases q) (auto simp: EAGAIN_def split: if_splits)
  note r = q [unfolded this]
  have "push_bit (PAGE_SHIFT c) (drop_bit (PAGE_SHIFT c) pa) = pa"
    by (rule push_drop_aligned) (use al in \<open>simp add: PAGE_SIZE_exp\<close>)
  then show ?thesis
    using io_remap_installs [OF cfg r] by (simp add: installs_def)
qed

section \<open>Runs of contiguous pages\<close>

lemma contig_scan_run:
  assumes "p \<le> length pages"
  shows "fst (contig_scan pages p prev n) \<le> length pages \<and>
    snd (contig_scan pages p prev n) + p = fst (contig_scan pages p prev n) + n \<and>
    (\<forall>j. p + j < fst (contig_scan pages p prev n) \<longrightarrow>
       pages ! (p + j) = prev + GPU_PAGE_SIZE * of_nat (Suc j))"
  using assms
proof (induction pages p prev n rule: contig_scan.induct)
  case (1 pages p prev n)
  show ?case
  proof (cases "p < length pages \<and> prev + GPU_PAGE_SIZE = pages ! p")
    case False
    then have "contig_scan pages p prev n = (p, n)"
      by (subst contig_scan.simps) (auto simp: Let_def)
    then show ?thesis using "1.prems" by simp
  next
    case True
    let ?r = "contig_scan pages (Suc p) (pages ! p) (Suc n)"
    have eq: "contig_scan pages p prev n = ?r"
      using True by (subst contig_scan.simps) (simp add: Let_def)
    have ih: "fst ?r \<le> length pages" "snd ?r + Suc p = fst ?r + Suc n"
      "\<And>j. Suc p + j < fst ?r \<Longrightarrow>
        pages ! (Suc p + j) = pages ! p + GPU_PAGE_SIZE * of_nat (Suc j)"
      using "1.IH" [OF _ refl] True by auto
    have "pages ! (p + j) = prev + GPU_PAGE_SIZE * of_nat (Suc j)" if "p + j < fst ?r" for j
    proof (cases j)
      case 0
      then show ?thesis using True by simp
    next
      case (Suc i)
      then have "pages ! (p + j) = pages ! p + GPU_PAGE_SIZE * of_nat (Suc i)"
        using ih(3) [of i] that by simp
      also have "pages ! p = prev + GPU_PAGE_SIZE" using True by simp
      finally show ?thesis using Suc by (simp add: algebra_simps)
    qed
    then show ?thesis using ih unfolding eq by auto
  qed
qed

lemma run_at_pages:
  assumes "p < length pages"
  shows "0 < snd (run_at pages p)" and "p + snd (run_at pages p) \<le> length pages"
    and "fst (run_at pages p) = p + snd (run_at pages p)"
    and "j < snd (run_at pages p) \<Longrightarrow> pages ! (p + j) = pages ! p + GPU_PAGE_SIZE * of_nat j"
proof -
  have r: "fst (run_at pages p) \<le> length pages"
    "snd (run_at pages p) + Suc p = fst (run_at pages p) + 1"
    "\<And>i. Suc p + i < fst (run_at pages p) \<Longrightarrow>
      pages ! (Suc p + i) = pages ! p + GPU_PAGE_SIZE * of_nat (Suc i)"
    using contig_scan_run [of "Suc p" pages "pages ! p" 1] assms by auto
  have "Suc p \<le> fst (run_at pages p)" by (rule contig_scan_ge)
  with r show "0 < snd (run_at pages p)" and "p + snd (run_at pages p) \<le> length pages"
    and eq: "fst (run_at pages p) = p + snd (run_at pages p)" by linarith+
  show "pages ! (p + j) = pages ! p + GPU_PAGE_SIZE * of_nat j" if "j < snd (run_at pages p)"
    using r(3) [of "j - 1"] that eq by (cases j) auto
qed

section \<open>The translation the page table prescribes\<close>

text \<open>
  The abstract view of a page table: the byte at offset \<open>o\<close> of the mapping is byte
  \<open>o mod 64K\<close> of page \<open>o div 64K\<close>.
\<close>

definition gpu_map :: "u64 list \<Rightarrow> nat \<Rightarrow> u64 \<Rightarrow> u64 \<Rightarrow> u64 \<Rightarrow> u64 option" where
  "gpu_map pages p va sz a =
     (if a - va < sz
      then Some (pages ! (p + unat (a - va) div 65536) + of_nat (unat (a - va) mod 65536))
      else None)"

lemma GPU_PAGE_SIZE_nat: "GPU_PAGE_SIZE = of_nat 65536"
  by (simp add: GPU_PAGE_SIZE_def GPU_PAGE_SHIFT_def)

lemma unat_pages:
  assumes "n < 2 ^ 48"
  shows "unat (GPU_PAGE_SIZE * of_nat n) = 65536 * n"
proof -
  have "GPU_PAGE_SIZE * of_nat n = (of_nat (65536 * n) :: u64)"
    by (simp add: GPU_PAGE_SIZE_nat)
  moreover have "65536 * n < 2 ^ 64" using assms by simp
  ultimately show ?thesis by (simp only: unat_of_nat64)
qed

lemma linear_gpu_map:
  assumes run: "\<And>j. j < n \<Longrightarrow> pages ! (p + j) = pages ! p + GPU_PAGE_SIZE * of_nat j"
    and len: "unat len \<le> 65536 * n"
  shows "linear_map va (pages ! p) len a = gpu_map pages p va len a"
proof (cases "a - va < len")
  case True
  let ?o = "unat (a - va)"
  have "?o < 65536 * n" using True len by (simp add: word_less_nat_alt)
  then have "pages ! (p + ?o div 65536) = pages ! p + of_nat (65536 * (?o div 65536))"
    using run [of "?o div 65536"] by (simp add: GPU_PAGE_SIZE_nat less_mult_imp_div_less mult.commute)
  moreover have "a - va = of_nat (65536 * (?o div 65536)) + of_nat (?o mod 65536)"
    unfolding of_nat_add [symmetric] mult_div_mod_eq by simp
  ultimately have "pages ! (p + ?o div 65536) + of_nat (?o mod 65536) = pages ! p + (a - va)"
    by (simp only: add.assoc)
  then show ?thesis using True by (simp add: linear_map_def gpu_map_def)
qed (simp add: linear_map_def gpu_map_def)

lemma gpu_map_append:
  assumes "unat len = 65536 * n" and "len \<le> sz"
  shows "(case gpu_map pages (p + n) (va + len) (sz - len) a of Some x \<Rightarrow> Some x
     | None \<Rightarrow> gpu_map pages p va len a) = gpu_map pages p va sz a"
proof -
  let ?o = "unat (a - va)"
  have sub: "unat (sz - len) = unat sz - 65536 * n" and le: "65536 * n \<le> unat sz"
    using assms by (simp_all add: unat_sub word_le_nat_alt)
  have "unat sz < 2 ^ 64" using unsigned_less [of sz] by simp
  then have "unat (a - (va + of_nat (65536 * n))) < unat (sz - len) \<longleftrightarrow>
      65536 * n \<le> ?o \<and> ?o < unat sz"
    using unat_diff_shift [of "65536 * n" "unat (sz - len)" a va] le sub by simp
  moreover have lenw: "len = of_nat (65536 * n)"
    using arg_cong [OF assms(1), of "of_nat :: nat \<Rightarrow> u64"] unfolding of_nat_unat64 .
  ultimately have up: "a - (va + len) < sz - len \<longleftrightarrow> 65536 * n \<le> ?o \<and> ?o < unat sz"
    by (simp only: word_less_nat_alt)
  have off: "unat (a - (va + len)) = ?o - 65536 * n" if "65536 * n \<le> ?o"
  proof -
    have eq: "a - (va + len) = (a - va) - len" by simp
    have le: "len \<le> a - va" using that assms(1) by (simp add: word_le_nat_alt)
    show ?thesis unfolding eq unat_sub [OF le] assms(1) ..
  qed
  have idx: "p + n + (?o - 65536 * n) div 65536 = p + ?o div 65536"
    "(?o - 65536 * n) mod 65536 = ?o mod 65536" if le_o: "65536 * n \<le> ?o"
  proof -
    define k where "k = ?o - 65536 * n"
    then have "?o = k + n * 65536" using le_o by linarith
    then have "?o div 65536 = n + k div 65536" and "?o mod 65536 = k mod 65536" by simp_all
    then show "p + n + (?o - 65536 * n) div 65536 = p + ?o div 65536"
      and "(?o - 65536 * n) mod 65536 = ?o mod 65536"
      unfolding k_def [symmetric] by simp_all
  qed
  show ?thesis
  proof (cases "65536 * n \<le> ?o")
    case True
    then have "\<not> a - va < len" using assms(1) by (simp add: word_less_nat_alt)
    moreover have "?o < unat sz \<longleftrightarrow> a - va < sz" by (simp add: word_less_nat_alt)
    ultimately show ?thesis
      using True up off [OF True] idx [OF True] by (simp add: gpu_map_def add.assoc)
  next
    case False
    then have "a - va < len" using assms(1) by (simp add: word_less_nat_alt)
    moreover have "a - va < sz" using calculation assms(2) by (rule less_le_trans)
    ultimately show ?thesis using False up by (simp add: gpu_map_def)
  qed
qed

lemma mmap_runs_installs:
  assumes cfg: "page_cfg c" and few: "length pages < 2 ^ 48"
    and run: "mmap_runs c remap v ty pages p va sz s = Inr (0, va', s')"
    and p: "p < length pages" and sz: "unat sz \<le> 65536 * (length pages - p)"
  shows "va' = va + sz \<and> installs c v s s' (gpu_map pages p va sz)"
  using run p sz
proof (induction "length pages - p" arbitrary: p va sz s rule: less_induct)
  case less
  note run = less.prems(1) and p = less.prems(2) and sz = less.prems(3)
  let ?n = "snd (run_at pages p)" and ?l = "run_len pages p sz"
  note pg = run_at_pages [OF p]
  obtain st s1 where
    step: "gdrdrv_remap_gpu_mem c remap v va (pages ! p) ?l ty s = Inr (st, s1)"
    using run by (subst (asm) mmap_runs_step) auto
  then have st: "st = 0" using run by (subst (asm) mmap_runs_step) (auto split: if_splits)
  have n48: "?n < 2 ^ 48" using pg(2) few by linarith
  have ul: "unat ?l = min (unat sz) (65536 * ?n)"
    using unat_pages [OF n48] by (auto simp: min_def word_le_nat_alt)
  have lin: "installs c v s s1 (gpu_map pages p va ?l)"
    by (rule installs_cong [OF remap_gpu_installs [OF cfg step [unfolded st]]],
        rule linear_gpu_map [where n = ?n]) (use pg(4) ul in auto)
  show ?case
  proof (cases "sz - ?l \<noteq> 0 \<and> fst (run_at pages p) < length pages")
    case False
    then have va': "va' = va + ?l" and s': "s' = s1"
      using run step st by (auto simp: mmap_runs_step [of c remap v ty pages p va sz s])
    have "?l = sz"
    proof (cases "sz - ?l = 0")
      case False
      with \<open>\<not> (sz - ?l \<noteq> 0 \<and> _)\<close> have "length pages - p \<le> ?n" using pg(3) by linarith
      then have "unat sz \<le> 65536 * ?n" using sz by (meson le_trans mult_le_mono2)
      then have "unat ?l = unat sz" using ul by linarith
      then show ?thesis by (simp only: word_unat_eq_iff)
    qed simp
    then show ?thesis using va' s' lin by simp
  next
    case True
    then have rest: "mmap_runs c remap v ty pages (p + ?n) (va + ?l) (sz - ?l) s1 = Inr (0, va', s')"
      using run step st pg(3) by (simp add: mmap_runs_step [of c remap v ty pages p va sz s])
    have "?l \<noteq> sz" using True by auto
    then have "unat ?l \<noteq> unat sz" unfolding word_unat_eq_iff .
    then have l: "unat ?l = 65536 * ?n" and lt: "65536 * ?n < unat sz" using ul by linarith+
    have le: "?l \<le> sz" by simp
    have "unat (sz - ?l) = unat sz - 65536 * ?n" using l by (simp only: unat_sub [OF le])
    then have sz': "unat (sz - ?l) \<le> 65536 * (length pages - (p + ?n))"
      using sz by (simp add: diff_mult_distrib2 algebra_simps)
    have p': "p + ?n < length pages" using True pg(3) by simp
    have dec: "length pages - (p + ?n) < length pages - p" using p pg(1) by linarith
    have ih: "va' = va + ?l + (sz - ?l)"
      "installs c v s1 s' (gpu_map pages (p + ?n) (va + ?l) (sz - ?l))"
      using less.hyps [OF dec rest p' sz'] by auto
    show ?thesis
      using ih(1) installs_cong [OF installs_append [OF lin ih(2)] gpu_map_append [OF l le]] by simp
  qed
qed

section \<open>What mapping leaves alone\<close>

definition store_view :: "drv \<Rightarrow> (nat \<rightharpoonup> gdr_mr) \<times> (nat \<rightharpoonup> gdr_info) \<times> (nat \<rightharpoonup> nat)" where
  "store_view s = (mrs s, private_data s, f_mapping s)"

lemma store_view_simps [simp]:
  "store_view (set_vma v a s) = store_view s"
  "store_view (emit k s) = store_view s"
  by (simp_all add: store_view_def)

lemma store_view_chunks:
  "remap_chunks c remap v va pfn n prot s = (r, s') \<Longrightarrow> store_view s' = store_view s"
proof (induction c remap v va pfn n prot s rule: remap_chunks.induct)
  case (1 c remap v va pfn n prot s)
  obtain st s1 where step: "gdrdrv_io_remap_pfn_range1 c remap v va pfn (PAGE_SIZE c) prot s = (st, s1)"
    by (cases "gdrdrv_io_remap_pfn_range1 c remap v va pfn (PAGE_SIZE c) prot s") auto
  then have s1: "store_view s1 = store_view s"
    by (auto simp: gdrdrv_io_remap_pfn_range1_def Let_def)
  show ?case
  proof (cases "0 < PAGE_SIZE c \<and> PAGE_SIZE c \<le> n \<and> st = 0")
    case True
    with 1 step have "store_view s' = store_view s1" by (subst (asm) remap_chunks.simps) simp
    with s1 show ?thesis by simp
  next
    case False
    with 1 step have "s' = s \<or> s' = s1" by (subst (asm) remap_chunks.simps) (auto split: if_splits)
    with s1 show ?thesis by auto
  qed
qed

lemma store_view_remap_range:
  "gdrdrv_io_remap_pfn_range c remap v va pfn n prot s = Inr (r, s') \<Longrightarrow> store_view s' = store_view s"
  by (auto simp: gdrdrv_io_remap_pfn_range_def gdrdrv_io_remap_pfn_range1_def Let_def
      store_view_chunks split: if_splits)

lemma store_view_remap_gpu:
  "gdrdrv_remap_gpu_mem c remap v va pa n ty s = Inr (r, s') \<Longrightarrow> store_view s' = store_view s"
  by (auto simp: gdrdrv_remap_gpu_mem_def Let_def dest!: store_view_remap_range split: if_splits)

lemma mmap_runs_frame:
  assumes "mmap_runs c remap v ty pages p va sz s = Inr (r, va', s')"
  shows "mrs s' = mrs s" and "private_data s' = private_data s" and "f_mapping s' = f_mapping s"
proof -
  have "store_view s' = store_view s"
    by (rule mmap_runs_inv [where Q = "\<lambda>s1. store_view s1 = store_view s", OF _ assms])
      (auto dest: store_view_remap_gpu)
  then show "mrs s' = mrs s" and "private_data s' = private_data s" and "f_mapping s' = f_mapping s"
    by (simp_all add: store_view_def)
qed

lemma pfn_is_ram_cong [simp]:
  "gdr_pfn_is_ram c (set_vma v a s) = gdr_pfn_is_ram c s"
  "gdr_pfn_is_ram c (set_mr p m s) = gdr_pfn_is_ram c s"
  by (rule ext, cases "arch c"; simp add: gdr_pfn_is_ram_def)+

lemma mapping_type_cong [simp]:
  "mmap_mapping_type c (set_vma v a s) mr = mmap_mapping_type c s mr"
  "mmap_mapping_type c (set_mr p m s) mr = mmap_mapping_type c s mr"
  "mmap_mapping_type c s (mr\<lparr>mr_sem := sem\<rparr>) = mmap_mapping_type c s mr"
  unfolding mmap_mapping_type_def gdr_mr_supports_cache_mapping_def pfn_is_ram_cong by simp_all

text \<open>The limits of a page table: \<open>entries\<close> is a \<open>uint32_t\<close>.\<close>

definition entries_ok :: "drv \<Rightarrow> bool" where
  "entries_ok s \<longleftrightarrow>
     (\<forall>p m pt. mrs s p = Some m \<longrightarrow> mr_page_table m = Some pt \<longrightarrow> pt_entries pt < 2 ^ 32)"

lemma mmap_out_ok:
  assumes "mmap_out f v p ty 0 s = Inr (r, s')" and m: "mrs s p = Some m"
  shows "r = 0" and "mrs s' p = Some (m\<lparr>mr_vma := Some v, mr_mapping := f_mapping s f,
      mr_cpu_mapping_type := ty, mr_sem := SemFree\<rparr>)" and "calls s' = calls s"
    and "ty \<noteq> GDR_MR_NONE" and "\<not> (mr_force_pci m \<and> ty = GDR_MR_CACHING)"
  using assms by (auto simp: mmap_out_def gdr_put_mr_def up_write_def split: if_splits)

lemma mmap_out_ret: "mmap_out f v p ty ret s = Inr (r, s') \<Longrightarrow> r = ret"
  by (auto simp: mmap_out_def)

abbreviation mr_pages :: "gdr_mr \<Rightarrow> u64 list" where
  "mr_pages mr \<equiv> (case mr_page_table mr of Some pt \<Rightarrow> pt_pages pt | None \<Rightarrow> [])"

text \<open>The handler once it has found and locked the region \<open>p\<close>.\<close>

lemma mmap_eq:
  assumes f: "private_data s f = Some info" and ok: "file_ok s info" and a: "vmas s v = Some a"
    and proc: "gdrdrv_check_same_process info tg"
    and p: "pick_mr s (vm_pgoff a) (mr_list info) = Some p" and mr: "mrs s p = Some mr"
  shows "gdrdrv_mmap c remap tg f v s =
    (if mmap_check mr (vm_end a - vm_start a) \<noteq> 0
     then mmap_out f v p GDR_MR_NONE (mmap_check mr (vm_end a - vm_start a))
            (set_mr p (mr\<lparr>mr_sem := SemWriter\<rparr>) s)
     else bindE (mmap_runs c remap v (mmap_mapping_type c s mr) (mr_pages mr) 0 (vm_start a)
                   (vm_end a - vm_start a) (set_vma v (a\<lparr>vm_ops := True\<rparr>)
                   (set_mr p (mr\<lparr>mr_sem := SemWriter, mr_cpu_mapping_type := GDR_MR_NONE\<rparr>) s)))
            (\<lambda>(ret, va, s4). mmap_out f v p (mmap_mapping_type c s mr)
               (if ret \<noteq> 0 then ret else if va \<noteq> vm_end a then - EINVAL else 0) s4))"
proof -
  have chk: "mmap_check (mr\<lparr>mr_sem := SemWriter\<rparr>) n = mmap_check mr n" for n
    by (cases "mr_page_table mr"; simp add: mmap_check_def gdr_mr_is_mapped_def)
  show ?thesis
    using f a proc p mr
    by (simp add: gdrdrv_mmap_def get_mr_eq [OF f ok] gdrdrv_handle_from_off_def Let_def chk)
qed

lemma mmap_cases:
  assumes f: "private_data s f = Some info" and ok: "file_ok s info" and a: "vmas s v = Some a"
    and run: "gdrdrv_mmap c remap tg f v s = Inr (0, s')"
  shows "gdrdrv_check_same_process info tg \<and>
    (\<exists>p mr. pick_mr s (vm_pgoff a) (mr_list info) = Some p \<and> mrs s p = Some mr \<and> mr_sem mr = SemFree)"
proof -
  have "\<exists>p. pick_mr s (vm_pgoff a) (mr_list info) = Some p" and "gdrdrv_check_same_process info tg"
    using run f a
    by (auto simp: gdrdrv_mmap_def get_mr_eq [OF f ok] gdrdrv_handle_from_off_def errno_defs Let_def
        split: if_splits option.splits)
  then show ?thesis using file_ok_mr [OF ok pick_mr_in] by blast
qed

text \<open>The whole handler, from the runs it installs to the fields of the region.\<close>

lemma mmap_installs:
  assumes cfg: "page_cfg c" and f: "private_data s f = Some info" and ok: "file_ok s info"
    and few: "entries_ok s" and a: "vmas s v = Some a"
    and run: "gdrdrv_mmap c remap tg f v s = Inr (0, s')"
  shows "\<exists>p mr pt. pick_mr s (vm_pgoff a) (mr_list info) = Some p \<and> mrs s p = Some mr \<and>
    mr_page_table mr = Some pt \<and>
    unat (vm_end a - vm_start a) \<le> 65536 * pt_entries pt \<and>
    installs c v s s' (gpu_map (pt_pages pt) 0 (vm_start a) (vm_end a - vm_start a)) \<and>
    mrs s' p = Some (mr\<lparr>mr_vma := Some v, mr_mapping := f_mapping s f,
      mr_cpu_mapping_type := mmap_mapping_type c s mr\<rparr>)"
proof -
  let ?sz = "vm_end a - vm_start a" and ?ty = "mmap_mapping_type c s"
  obtain p mr where p: "pick_mr s (vm_pgoff a) (mr_list info) = Some p"
    and mr: "mrs s p = Some mr" "mr_sem mr = SemFree" and proc: "gdrdrv_check_same_process info tg"
    using mmap_cases [OF f ok a run] by blast
  let ?m1 = "mr\<lparr>mr_sem := SemWriter, mr_cpu_mapping_type := GDR_MR_NONE\<rparr>"
  note eq = mmap_eq [OF f ok a proc p mr(1), of c remap]
  have chk: "mmap_check mr ?sz = 0"
    using run unfolding eq by (auto dest: mmap_out_ret split: if_splits)
  then obtain pt where pt: "mr_page_table mr = Some pt" and ne: "pt_entries pt > 0"
    and "?sz \<le> GPU_PAGE_SIZE * of_nat (pt_entries pt)"
    by (auto simp: mmap_check_def EINVAL_def split: if_splits option.splits)
  moreover have n48: "pt_entries pt < 2 ^ 48"
    using few mr pt unfolding entries_ok_def by fastforce
  ultimately have sz: "unat ?sz \<le> 65536 * (pt_entries pt - 0)"
    using unat_pages [OF n48] by (simp add: word_le_nat_alt)
  obtain ret va s4 where runs: "mmap_runs c remap v (?ty mr) (pt_pages pt) 0 (vm_start a) ?sz
      (set_vma v (a\<lparr>vm_ops := True\<rparr>) (set_mr p ?m1 s)) = Inr (ret, va, s4)"
    and out: "mmap_out f v p (?ty mr)
        (if ret \<noteq> 0 then ret else if va \<noteq> vm_end a then - EINVAL else 0) s4 = Inr (0, s')"
    using run chk unfolding eq pt by auto
  have r0: "ret = 0 \<and> va = vm_end a"
    using mmap_out_ret [OF out] by (auto simp: EINVAL_def split: if_splits)
  have inst: "installs c v s s4 (gpu_map (pt_pages pt) 0 (vm_start a) ?sz)"
    using mmap_runs_installs [OF cfg n48 runs [unfolded conjunct1 [OF r0]] ne sz]
    by (simp add: installs_def)
  have s4: "mrs s4 p = Some ?m1" and fm: "f_mapping s4 = f_mapping s"
    using mmap_runs_frame [OF runs] by simp_all
  have out0: "mmap_out f v p (?ty mr) 0 s4 = Inr (0, s')" using out r0 by simp
  have sem: "mr\<lparr>mr_cpu_mapping_type := t, mr_vma := w, mr_mapping := k, mr_sem := SemFree\<rparr>
      = mr\<lparr>mr_vma := w, mr_mapping := k, mr_cpu_mapping_type := t\<rparr>" for t w k
    using mr(2) by (cases mr) simp
  show ?thesis
    using p mr pt sz inst mmap_out_ok(2,3) [OF out0 s4] fm sem
    by (intro exI [of _ p] exI [of _ mr] exI [of _ pt]) (simp add: installs_def)
qed

text \<open>
  C1. A successful mmap of a region installs exactly the translation its page table prescribes,
  for every byte of the VMA and for no other address, through however many contiguous runs and
  host pages; the region then records the VMA, the file's address space and the mapping type.
\<close>

theorem mmap_installs_page_table:
  assumes cfg: "page_cfg c" and f: "private_data s f = Some info" and ok: "file_ok s info"
    and few: "entries_ok s" and a: "vmas s v = Some a"
    and run: "gdrdrv_mmap c remap tg f v s = Inr (0, s')"
  shows "\<exists>p mr pt. pick_mr s (vm_pgoff a) (mr_list info) = Some p \<and> mrs s p = Some mr \<and>
    mr_page_table mr = Some pt \<and>
    unat (vm_end a - vm_start a) \<le> 65536 * pt_entries pt \<and>
    installs c v s s' (gpu_map (pt_pages pt) 0 (vm_start a) (vm_end a - vm_start a)) \<and>
    mrs s' p = Some (mr\<lparr>mr_vma := Some v, mr_mapping := f_mapping s f,
      mr_cpu_mapping_type := mmap_mapping_type c s mr\<rparr>)"
  by (rule mmap_installs [OF assms])

theorem mmap_installs_page_table_witness:
  "\<exists>s'. gdrdrv_mmap ex_cfg ex_remap 42 3 9 (set_vma 9 ex_vma ex_pinned) = Inr (0, s') \<and>
     installs ex_cfg 9 (set_vma 9 ex_vma ex_pinned) s'
       (gpu_map (pt_pages ex_pt) 0 0x7f0000000000 0x28000)"
proof -
  let ?s = "set_vma 9 ex_vma ex_pinned"
  have run: "case gdrdrv_mmap ex_cfg ex_remap 42 3 9 ?s of Inr (r, s) \<Rightarrow> r = 0 | Inl _ \<Rightarrow> False"
    by code_simp
  then obtain s' where s': "gdrdrv_mmap ex_cfg ex_remap 42 3 9 ?s = Inr (0, s')"
    by (auto split: sum.splits)
  have vma: "vmas ?s 9 = Some ex_vma" and cfg: "page_cfg ex_cfg"
    by (simp_all add: ex_defs page_cfg_def)
  have few: "entries_ok ?s"
    by (auto simp: entries_ok_def ex_defs split: if_splits)
  have fl: "private_data ?s 3 = Some (ex_info\<lparr>mr_list := [7], next_handle := 0x30\<rparr>)"
    "file_ok ?s (ex_info\<lparr>mr_list := [7], next_handle := 0x30\<rparr>)"
    by (simp_all add: ex_defs file_ok_def)
  show ?thesis
    using mmap_installs_page_table [OF cfg fl few vma s'] s'
    by (auto simp: pick_mr_def ex_pinned_def ex_mr_def ex_vma_def ex_info_def zero_mr_def)
qed

end
