(* ===== verification/Drv_Handlers.thy ===== *)
theory Drv_Handlers
  imports Drv_Safe Drv_Translate
begin

text \<open>
  The handlers as a whole: from a state in which every region has its owner, every system call on
  the device, the VMA close handler and the NVIDIA driver's callback return normally and leave
  such a state behind.
\<close>

section \<open>Ownership through the handlers\<close>

lemma pin_core_inv:
  assumes inv: "own_inv D s" and i: "private_data s f = Some i"
    and doc: "get_pages_doc x" "kmalloc_doc x s" and fl: "pin_flags_ok c t v fl"
  shows "\<exists>r h s'. gdrdrv_pin_buffer_core c x f addr sz t v fl s = Inr (r, h, s') \<and> own_inv D s' \<and>
    (r = 0 \<longrightarrow> h = Some (next_handle i)) \<and> (\<exists>j. private_data s' f = Some j)"
proof (cases "x_kmalloc x")
  case None
  then show ?thesis using inv i by (simp add: gdrdrv_pin_buffer_core_def ENOMEM_def)
next
  case (Some p)
  have fresh: "mrs s p = None" using doc(2) Some by (simp add: kmalloc_doc_def)
  have nl: "\<not> info_lock i" using inv_file [OF inv i] by (simp add: file_ok_def)
  obtain r h s' where run: "gdrdrv_pin_buffer_core c x f addr sz t v fl s = Inr (r, h, s')"
    and v: "vmas s' = vmas s"
    and eff: "r < 0 \<and> h = None \<and> mrs s' = mrs s \<and> private_data s' = private_data s \<or>
     r = 0 \<and> h = Some (next_handle i) \<and> \<not> next_handle_overflow i \<and>
     (\<exists>m. pinned_mr c addr sz i m \<and> mrs s' = (mrs s)(p \<mapsto> m) \<and>
       private_data s' = (private_data s)(f \<mapsto> info_after_pin c p m i))"
    using pin_core_effect [OF Some fresh i nl doc(1) fl, of addr sz] by blast
  show ?thesis
  proof (cases "r = 0")
    case False
    then have "own_inv D s'" using inv_cong [OF _ _ _ inv, of s'] eff v by auto
    then show ?thesis using run eff i False by auto
  next
    case True
    then obtain m where m: "pinned_mr c addr sz i m" "mrs s' = (mrs s)(p \<mapsto> m)"
      "private_data s' = (private_data s)(f \<mapsto> info_after_pin c p m i)" "h = Some (next_handle i)"
      using eff by auto
    have "own_inv D s'"
      by (rule inv_publish [OF inv i fresh m(3) _ _ m(2) v])
        (use m nl in \<open>auto simp: info_after_pin_def pinned_mr_def fresh_mr_def vma_live_def\<close>)
    then show ?thesis using run m by simp
  qed
qed

lemma pin_then_unpin:
  assumes inv: "own_inv D s" and i: "private_data s f = Some i"
    and doc: "get_pages_doc x" "kmalloc_doc x s" and fl: "pin_flags_ok c t v fl"
  shows "\<exists>r o1 s'. bindE (gdrdrv_pin_buffer_core c x f addr sz t v fl s)
      (\<lambda>(ret, h, s1).
        if ret \<noteq> 0 then Inr (ret, NoOut, s1)
        else (case h of None \<Rightarrow> Inl NullDeref
             | Some hnd \<Rightarrow>
                 (let (ret2, out) = copy_to_user u (out_of hnd) 0
                  in if ret2 \<noteq> 0 then
                       bindE (gdrdrv_unpin_buffer_core c x f hnd s1) (\<lambda>(_, s2). Inr (ret2, out, s2))
                     else Inr (ret2, out, s1)))) = Inr (r, o1, s') \<and> own_inv D s'"
proof -
  obtain r h s1 j where run: "gdrdrv_pin_buffer_core c x f addr sz t v fl s = Inr (r, h, s1)"
    and s1: "own_inv D s1" "r = 0 \<longrightarrow> h = Some (next_handle i)" "private_data s1 f = Some j"
    using pin_core_inv [OF inv i doc fl, of addr sz] by blast
  obtain r2 s2 where "gdrdrv_unpin_buffer_core c x f (next_handle i) s1 = Inr (r2, s2)" "own_inv D s2"
    using unpin_core_inv [OF s1(1,3)] by blast
  then show ?thesis using run s1 by (auto simp: copy_to_user_def Let_def split: option.split)
qed

lemma ioctl_inv:
  assumes inv: "own_inv D s" and doc: "get_pages_doc x" "kmalloc_doc x s"
    and fl1: "cmd = GDRDRV_IOC_PIN_BUFFER \<Longrightarrow>
        pin_flags_ok c (pb_p2p_token (ua_pin u)) (pb_va_space (ua_pin u)) 0"
    and fl2: "cmd = GDRDRV_IOC_PIN_BUFFER_V2 \<Longrightarrow> pin_flags_ok c 0 0 (pv_flags (ua_pin_v2 u))"
  shows "\<exists>r o1 s'. gdrdrv_ioctl c x tg f cmd u s = Inr (r, o1, s') \<and> own_inv D s'"
proof (cases "IOC_TYPE cmd = GDRDRV_IOCTL \<and> (\<exists>i. private_data s f = Some i \<and> gdrdrv_check_same_process i tg)")
  case False
  then show ?thesis using inv by (auto simp: gdrdrv_ioctl_def split: option.split)
next
  case True
  then obtain i where ty: "IOC_TYPE cmd = GDRDRV_IOCTL" and i: "private_data s f = Some i"
    and proc: "gdrdrv_check_same_process i tg" by blast
  note ok = inv_file [OF inv i]
  have pin: "\<exists>r o1 s'. gdrdrv_pin_buffer c x f u s = Inr (r, o1, s') \<and> own_inv D s'"
    if "cmd = GDRDRV_IOC_PIN_BUFFER"
    using pin_then_unpin [OF inv i doc fl1 [OF that], where u = u] inv
    unfolding gdrdrv_pin_buffer_def GDRDRV_PIN_BUFFER_FLAG_DEFAULT_def by simp
  have pin2: "\<exists>r o1 s'. gdrdrv_pin_buffer_v2 c x f u s = Inr (r, o1, s') \<and> own_inv D s'"
    if "cmd = GDRDRV_IOC_PIN_BUFFER_V2"
    using pin_then_unpin [OF inv i doc fl2 [OF that], where u = u] inv
    unfolding gdrdrv_pin_buffer_v2_def by simp
  have unpin: "\<exists>r o1 s'. gdrdrv_unpin_buffer c x f u s = Inr (r, o1, s') \<and> own_inv D s'"
    using unpin_core_inv [OF inv i, of c x "ua_unpin u"] inv by (auto simp: gdrdrv_unpin_buffer_def)
  have q: "\<exists>r o1 s'. h = Inr (r, o1, s') \<and> own_inv D s'" if "\<exists>r o1. h = Inr (r, o1, s)" for h
    using that inv by blast
  have attr: "\<exists>r o1. gdrdrv_get_attr c u s = Inr (r, o1, s)"
    "\<exists>r o1. gdrdrv_get_version u s = Inr (r, o1, s)"
    by (auto simp: gdrdrv_get_attr_def gdrdrv_get_version_def copy_to_user_def Let_def split: prod.split)
  have req: "\<exists>r o1 s'. gdrdrv_req_mapping_type c f u s = Inr (r, o1, s') \<and> own_inv D s'"
    using req_mapping_type_inv [OF inv i] by blast
  show ?thesis
    using ty i proc pin pin2 unpin req inv q [OF attr(1)] q [OF attr(2)]
      q [OF query_state(1) [OF i ok]] q [OF query_state(2) [OF i ok]] q [OF query_state(3) [OF i ok]]
    by (simp add: gdrdrv_ioctl_def)
qed

section \<open>Closing, the callback, mapping\<close>

lemma release_mr_effect:
  assumes i: "private_data s f = Some i"
    and m: "mrs s p = Some m" "mr_sem m = SemFree" "vma_live s m"
  shows "\<exists>s1. gdrdrv_release_mr c x f p s = Inr s1 \<and> mrs s1 = (mrs s)(p := None) \<and>
    private_data s1 = (private_data s)(f \<mapsto> i\<lparr>mr_list := remove1 p (mr_list i)\<rparr>) \<and> vmas s1 = vmas s"
proof -
  let ?m = "m\<lparr>mr_sem := SemWriter\<rparr>" and ?w = "set_mr p (m\<lparr>mr_sem := SemWriter\<rparr>) s"
  have down: "down_write p s = Inr ?w" using m by (simp add: down_write_def)
  obtain s1 where s1: "(if gdr_mr_is_mapped ?m then gdr_mr_destroy_all_mappings c p ?w else Inr ?w) = Inr s1"
    "mrs s1 = (mrs s)(p \<mapsto> ?m\<lparr>mr_cpu_mapping_type := GDR_MR_NONE\<rparr>)"
    "private_data s1 = private_data s" "vmas s1 = vmas s"
    using destroy_effect [of ?w p ?m c] m by (auto simp: vma_live_def gdr_mr_is_mapped_def)
  let ?d = "set_info f (i\<lparr>mr_list := remove1 p (mr_list i)\<rparr>) s1"
  have d: "list_del f p s1 = Inr ?d" using i s1 by (simp add: list_del_def)
  have "mrs ?d p = Some (?m\<lparr>mr_cpu_mapping_type := GDR_MR_NONE\<rparr>)" using s1 by simp
  then obtain s2 where "gdr_free_mr_unlocked c x p ?d = Inr s2" "mrs s2 = (mrs ?d)(p := None)"
    "private_data s2 = private_data ?d" "vmas s2 = vmas ?d"
    using free_effect [of ?d p _ c x] by (fastforce simp: gdr_mr_is_mapped_def)
  then show ?thesis using down s1 d by (auto simp: gdrdrv_release_mr_def)
qed

lemma release_loop_effect:
  assumes "private_data s f = Some i" and "mr_list i = ps" and "distinct ps"
    and "\<And>p. p \<in> set ps \<Longrightarrow> \<exists>m. mrs s p = Some m \<and> mr_sem m = SemFree \<and> vma_live s m"
  shows "\<exists>s1. gdrdrv_release_loop c x f ps s = Inr s1 \<and> mrs s1 = (mrs s) |` (- set ps) \<and>
    private_data s1 = (private_data s)(f \<mapsto> i\<lparr>mr_list := []\<rparr>) \<and> vmas s1 = vmas s"
  using assms
proof (induction ps arbitrary: s i)
  case Nil
  then have "i\<lparr>mr_list := []\<rparr> = i" by (cases i) simp
  then show ?case using Nil by (simp add: fun_upd_idem)
next
  case (Cons p ps)
  then obtain m where "mrs s p = Some m" "mr_sem m = SemFree" "vma_live s m" by fastforce
  then obtain s1 where s1: "gdrdrv_release_mr c x f p s = Inr s1" "mrs s1 = (mrs s)(p := None)"
    "private_data s1 = (private_data s)(f \<mapsto> i\<lparr>mr_list := remove1 p (mr_list i)\<rparr>)" "vmas s1 = vmas s"
    using release_mr_effect [OF Cons.prems(1), where c = c and x = x] by blast
  let ?i = "i\<lparr>mr_list := ps\<rparr>"
  have i1: "private_data s1 f = Some ?i" "mr_list ?i = ps" "distinct ps"
    using s1 Cons.prems by simp_all
  have live1: "\<exists>m. mrs s1 q = Some m \<and> mr_sem m = SemFree \<and> vma_live s1 m" if "q \<in> set ps" for q
  proof -
    have "q \<noteq> p" using that Cons.prems by auto
    then show ?thesis using Cons.prems(4) [of q] that s1 by (auto simp: vma_live_def)
  qed
  obtain s2 where "gdrdrv_release_loop c x f ps s1 = Inr s2" "mrs s2 = (mrs s1) |` (- set ps)"
    "private_data s2 = (private_data s1)(f \<mapsto> ?i\<lparr>mr_list := []\<rparr>)" "vmas s2 = vmas s1"
    using Cons.IH [OF i1 live1] by blast
  moreover have "((mrs s)(p := None)) |` (- set ps) = (mrs s) |` (- set (p # ps))"
    by (auto simp: restrict_map_def)
  ultimately show ?case using s1 by auto
qed

text \<open>A file is closed and its regions are gone: ownership of the others is as before.\<close>

lemma release_own:
  assumes inv: "own_inv D s" and i: "private_data s f = Some i"
    and pd: "private_data s' = (private_data s)(f := None)" and m: "mrs s' = (mrs s) |` (- set (mr_list i))"
    and vs: "vmas s' = vmas s"
  shows "own_inv D s'"
proof -
  have l: "listed s' = others f s" unfolding listed_def others_def pd by auto
  have dj: "set (mr_list i) \<inter> others f s = {}"
    using inv i unfolding own_inv_def drv_ok_def others_def by blast
  have okk: "file_ok s' k" if "private_data s g = Some k" "g \<noteq> f" for g k
  proof -
    have "set (mr_list k) \<inter> set (mr_list i) = {}" using dj that by (auto simp: others_def)
    then show ?thesis using inv_file [OF inv that(1)] by (auto simp: file_ok_def m restrict_map_def)
  qed
  have drv: "drv_ok s'"
    using okk inv unfolding drv_ok_def own_inv_def pd by (auto split: if_splits)
  have d: "dom (mrs s) = set (mr_list i) \<union> others f s \<union> D" "(set (mr_list i) \<union> others f s) \<inter> D = {}"
    using inv unfolding own_inv_def listed_split [OF i] by blast+
  have dom': "dom (mrs s') = others f s \<union> D"
    unfolding m dom_restrict d(1) using d(2) dj by blast
  have vl: "vma_live s' k = vma_live s k" for k by (simp add: vma_live_def vs)
  have live: "vma_live s' k" if "q \<in> others f s" "mrs s' q = Some k" for q k
  proof -
    have "mrs s q = Some k" using that(2) unfolding m by (simp add: restrict_map_def split: if_splits)
    then show ?thesis
      using inv that(1) unfolding vl own_inv_def listed_split [OF i] by blast
  qed
  show ?thesis
    unfolding own_inv_def l using drv dom' d(2) live by blast
qed

lemma release_inv:
  assumes inv: "own_inv D s" and i: "private_data s f = Some i"
  shows "\<exists>s'. gdrdrv_release c x f s = Inr (0, s') \<and> own_inv D s' \<and>
    private_data s' = (private_data s)(f := None) \<and> mrs s' = (mrs s) |` (- set (mr_list i)) \<and>
    vmas s' = vmas s"
proof -
  have ok: "file_ok s i" using inv_file [OF inv i] .
  let ?l = "set_info f (i\<lparr>info_lock := True\<rparr>) s"
  have lock: "mutex_lock f s = Inr ?l" using ok i by (simp add: file_ok_def mutex_lock_def)
  have "\<exists>m. mrs ?l p = Some m \<and> mr_sem m = SemFree \<and> vma_live ?l m" if p: "p \<in> set (mr_list i)" for p
  proof -
    obtain m where "mrs s p = Some m" "mr_sem m = SemFree" "vma_live s m" using inv_mr [OF inv i p] .
    then show ?thesis by (simp add: vma_live_def)
  qed
  then obtain s1 where s1: "gdrdrv_release_loop c x f (mr_list i) ?l = Inr s1"
    "mrs s1 = (mrs s) |` (- set (mr_list i))" "vmas s1 = vmas s"
    "private_data s1 = (private_data s)(f \<mapsto> i\<lparr>info_lock := True, mr_list := []\<rparr>)"
    using release_loop_effect [of ?l f "i\<lparr>info_lock := True\<rparr>" "mr_list i" c x] ok
    by (auto simp: file_ok_def)
  let ?s' = "(set_info f (i\<lparr>info_lock := False, mr_list := []\<rparr>) s1)
      \<lparr>f_mapping := (f_mapping s1)(f := None),
       private_data := (private_data (set_info f (i\<lparr>info_lock := False, mr_list := []\<rparr>) s1))(f := None)\<rparr>"
  have run: "gdrdrv_release c x f s = Inr (0, ?s')"
    using s1 i lock by (simp add: gdrdrv_release_def mutex_unlock_def)
  have pd: "private_data ?s' = (private_data s)(f := None)" using s1 by auto
  have m: "mrs ?s' = (mrs s) |` (- set (mr_list i))" using s1 by simp
  have vs: "vmas ?s' = vmas s" using s1 by simp
  show ?thesis using run pd m vs release_own [OF inv i pd m vs] by auto
qed

lemma callback_effect:
  assumes m: "mrs s p = Some m" "mr_sem m = SemFree" and live: "vma_live s m"
  shows "\<exists>s1. gdrdrv_get_pages_free_callback c p s = Inr s1 \<and>
    mrs s1 = (mrs s)(p \<mapsto> m\<lparr>mr_cb_flag := True,
      mr_cpu_mapping_type := if mr_page_table m = None then mr_cpu_mapping_type m else GDR_MR_NONE,
      mr_page_table := None\<rparr>) \<and>
    private_data s1 = private_data s \<and> vmas s1 = vmas s"
proof -
  let ?w = "set_mr p (m\<lparr>mr_sem := SemWriter, mr_cb_flag := True\<rparr>) s"
  show ?thesis
  proof (cases "mr_page_table m")
    case None
    then show ?thesis using m
      by (simp add: mr_sem_same gdrdrv_get_pages_free_callback_def down_write_def up_write_def)
  next
    case (Some pt)
    let ?e = "(emit (FreePageTable (pt_id pt)) ?w)
        \<lparr>nv_get_pages_refcount := nv_get_pages_refcount s - 1\<rparr>"
    have map: "gdr_mr_is_mapped (m\<lparr>mr_sem := a, mr_cb_flag := b\<rparr>) = gdr_mr_is_mapped m"
      "gdr_mr_is_mapped (m\<lparr>mr_sem := a\<rparr>) = gdr_mr_is_mapped m" for a b
      by (simp_all add: gdr_mr_is_mapped_def)
    obtain s1 where s1: "(if gdr_mr_is_mapped m then gdr_mr_destroy_all_mappings c p ?e else Inr ?e) = Inr s1"
      "mrs s1 = (mrs s)(p \<mapsto> m\<lparr>mr_sem := SemWriter, mr_cb_flag := True, mr_cpu_mapping_type := GDR_MR_NONE\<rparr>)"
      "private_data s1 = private_data s" "vmas s1 = vmas s"
      using destroy_effect [of ?e p "m\<lparr>mr_sem := SemWriter, mr_cb_flag := True\<rparr>" c] live
      by (auto simp: vma_live_def map)
    show ?thesis
    proof (cases "gdr_mr_is_mapped m")
      case True
      then have "gdr_mr_destroy_all_mappings c p ?e = Inr s1" using s1(1) by simp
      then show ?thesis using m Some s1 map True
        by (simp add: mr_sem_same gdrdrv_get_pages_free_callback_def down_write_def up_write_def Let_def)
    next
      case False
      then have t: "mr_cpu_mapping_type m = GDR_MR_NONE" by (simp add: gdr_mr_is_mapped_def)
      have "(mrs s)(p \<mapsto> m\<lparr>mr_cb_flag := True, mr_page_table := None\<rparr>) =
          (mrs s)(p \<mapsto> m\<lparr>mr_cb_flag := True, mr_cpu_mapping_type := GDR_MR_NONE, mr_page_table := None\<rparr>)"
        using t by (cases m) simp
      then show ?thesis using m Some map False
        by (simp add: mr_sem_same gdrdrv_get_pages_free_callback_def down_write_def up_write_def Let_def)
    qed
  qed
qed

lemma callback_inv:
  assumes inv: "own_inv D s" and m: "mrs s p = Some m" "mr_sem m = SemFree" "vma_live s m"
  shows "\<exists>s1. gdrdrv_get_pages_free_callback c p s = Inr s1 \<and> own_inv D s1"
proof -
  let ?m = "m\<lparr>mr_cb_flag := True,
      mr_cpu_mapping_type := if mr_page_table m = None then mr_cpu_mapping_type m else GDR_MR_NONE,
      mr_page_table := None\<rparr>"
  obtain s1 where s1: "gdrdrv_get_pages_free_callback c p s = Inr s1"
    "mrs s1 = (mrs s)(p \<mapsto> ?m)" "private_data s1 = private_data s" "vmas s1 = vmas s"
    using callback_effect [OF m] by blast
  have live: "vma_live s ?m" using m(3) by (auto simp: vma_live_def gdr_mr_is_mapped_def)
  have "own_inv D (set_mr p ?m s)"
  proof (cases "p \<in> listed s")
    case True
    show ?thesis by (rule inv_set_mr [OF inv True _ live]) (simp add: m)
  next
    case False
    have l: "listed (set_mr p ?m s) = listed s" by (simp add: listed_def)
    have ok: "file_ok (set_mr p ?m s) i" if "private_data s g = Some i" for g i
      using inv_file [OF inv that] False that by (auto simp: file_ok_def listed_def)
    then have "drv_ok (set_mr p ?m s)" using inv by (simp add: own_inv_def drv_ok_def)
    moreover have "p \<in> D" using inv False m(1) by (auto simp: own_inv_def)
    ultimately show ?thesis
      using inv False m(1) unfolding own_inv_def l by (auto simp: vma_live_def)
  qed
  then have "own_inv D s1" by (rule inv_cong [rotated -1]) (use s1 in simp_all)
  then show ?thesis using s1(1) by blast
qed

lemma vma_close_inv:
  assumes inv: "own_inv D s" and a: "vmas s v = Some a"
  shows "\<exists>s1. gdrdrv_vma_close v s = Inr s1 \<and> own_inv D s1 \<and> vmas s1 = vmas s \<and>
    private_data s1 = private_data s \<and> mrs s1 =
    (case vm_file a of None \<Rightarrow> mrs s
     | Some f \<Rightarrow> (case private_data s f of None \<Rightarrow> mrs s
       | Some i \<Rightarrow> (case pick_mr s (vm_pgoff a) (mr_list i) of None \<Rightarrow> mrs s
         | Some p \<Rightarrow> (mrs s)(p \<mapsto> (the (mrs s p))\<lparr>mr_vma := None, mr_cpu_mapping_type := GDR_MR_NONE\<rparr>))))"
proof (cases "\<exists>f i p. vm_file a = Some f \<and> private_data s f = Some i \<and>
    pick_mr s (vm_pgoff a) (mr_list i) = Some p")
  case False
  then have "gdrdrv_vma_close v s = Inr s"
    using a inv_file [OF inv]
    by (auto simp: gdrdrv_vma_close_def get_mr_eq gdrdrv_handle_from_off_def split: option.split)
  then show ?thesis using False inv by (auto split: option.split)
next
  case True
  then obtain f i p where f: "vm_file a = Some f" and i: "private_data s f = Some i"
    and p: "pick_mr s (vm_pgoff a) (mr_list i) = Some p" by blast
  obtain m where m: "mrs s p = Some m" "mr_sem m = SemFree"
    using inv_mr [OF inv i pick_mr_in [OF p]] .
  let ?m = "m\<lparr>mr_vma := None, mr_cpu_mapping_type := GDR_MR_NONE\<rparr>"
  have run: "gdrdrv_vma_close v s = Inr (set_mr p ?m s)"
    using a f i p m
    by (simp add: mr_sem_same gdrdrv_vma_close_def get_mr_eq [OF i inv_file [OF inv i]] gdrdrv_handle_from_off_def
        put_write)
  have "own_inv D (set_mr p ?m s)"
    by (rule inv_set_mr [OF inv])
      (use i pick_mr_in [OF p] m in \<open>auto simp: listed_def vma_live_def gdr_mr_is_mapped_def\<close>)
  then show ?thesis using run f i p m by simp
qed

section \<open>The mmap handler returns\<close>

text \<open>What the driver relies on: whole pages, and device mappings only where the CPU has them.\<close>

definition map_type_ok :: "drv_cfg \<Rightarrow> drv \<Rightarrow> gdr_mr \<Rightarrow> bool" where
  "map_type_ok c s m \<longleftrightarrow>
     (mmap_mapping_type c s m = GDR_MR_DEVICE \<longrightarrow> arch c = ARM64) \<and>
     \<not> (mr_force_pci m \<and> mmap_mapping_type c s m = GDR_MR_CACHING)"

lemma mod_PAGE_SIZE: "x mod PAGE_SIZE c = take_bit (PAGE_SHIFT c) x"
  by (simp add: PAGE_SIZE_exp take_bit_eq_mod)

lemma take_bit_sub0: "take_bit k (x::u64) = 0 \<Longrightarrow> take_bit k y = 0 \<Longrightarrow> take_bit k (x - y) = 0"
proof -
  assume x: "take_bit k x = 0" and y: "take_bit k y = 0"
  have "x = push_bit k (drop_bit k x)" and "y = push_bit k (drop_bit k y)"
    using bits_ident [of k x] bits_ident [of k y] x y by simp_all
  then have "x - y = push_bit k (drop_bit k x - drop_bit k y)"
    unfolding push_bit_eq_mult by (metis left_diff_distrib)
  then show "take_bit k (x - y) = 0" by (auto intro!: bit_eqI simp: bit_simps)
qed

lemma gpu_pages_aligned:
  assumes "page_cfg c"
  shows "take_bit (PAGE_SHIFT c) (GPU_PAGE_SIZE * of_nat n) = 0"
proof -
  have "GPU_PAGE_SIZE * of_nat n = push_bit 16 (of_nat n)"
    by (simp add: GPU_PAGE_SIZE_def GPU_PAGE_SHIFT_def push_bit_eq_mult mult.commute)
  then show ?thesis
    using assms by (auto simp: page_cfg_def intro!: bit_eqI simp: bit_simps)
qed

lemma chunks_vmas: "remap_chunks c remap v va pfn n prot s = (r, s') \<Longrightarrow> vmas s' = vmas s"
proof (induction c remap v va pfn n prot s rule: remap_chunks.induct)
  case (1 c remap v va pfn n prot s)
  obtain st s1 where step: "gdrdrv_io_remap_pfn_range1 c remap v va pfn (PAGE_SIZE c) prot s = (st, s1)"
    by (cases "gdrdrv_io_remap_pfn_range1 c remap v va pfn (PAGE_SIZE c) prot s") auto
  then have s1: "vmas s1 = vmas s"
    by (auto simp: gdrdrv_io_remap_pfn_range1_def Let_def)
  show ?case
  proof (cases "0 < PAGE_SIZE c \<and> PAGE_SIZE c \<le> n \<and> st = 0")
    case True
    with 1 step have "vmas s' = vmas s1" by (subst (asm) remap_chunks.simps) simp
    with s1 show ?thesis by simp
  next
    case False
    with 1 step have "s' = s \<or> s' = s1" by (subst (asm) remap_chunks.simps) (auto split: if_splits)
    with s1 show ?thesis by auto
  qed
qed

lemma remap_gpu_total:
  assumes v: "v \<in> dom (vmas s)" and ty: "ty = GDR_MR_DEVICE \<longrightarrow> arch c = ARM64"
    and al: "take_bit (PAGE_SHIFT c) n = 0"
  shows "\<exists>r s1. gdrdrv_remap_gpu_mem c remap v va pa n ty s = Inr (r, s1) \<and> dom (vmas s1) = dom (vmas s)"
proof -
  obtain a where a: "vmas s v = Some a" using v by auto
  have io: "\<exists>r s1. gdrdrv_io_remap_pfn_range c remap v va pfn n prot (set_vma v b s) = Inr (r, s1) \<and>
      dom (vmas s1) = dom (vmas s)" for pfn prot b
  proof -
    obtain r1 s1 where c1: "remap_chunks c remap v va pfn n prot (set_vma v b s) = (r1, s1)"
      by (cases "remap_chunks c remap v va pfn n prot (set_vma v b s)") auto
    show ?thesis
      using al a chunks_vmas [OF c1]
      by (auto simp: gdrdrv_io_remap_pfn_range_def mod_PAGE_SIZE c1 gdrdrv_io_remap_pfn_range1_def Let_def)
  qed
  obtain prot where prot: "(if ty = GDR_MR_WC then Inr (pgprot_modify_writecombine c (vm_page_prot a))
      else if ty = GDR_MR_DEVICE then pgprot_modify_device c (vm_page_prot a)
      else Inr (vm_page_prot a)) = Inr prot"
    using ty that by (cases ty) (auto simp: pgprot_modify_device_def)
  obtain r s1 where "gdrdrv_io_remap_pfn_range c remap v va (drop_bit (PAGE_SHIFT c) pa) n prot
      (set_vma v (a\<lparr>vm_flags := vm_flags a OR k_vm_dontcopy c, vm_page_prot := prot\<rparr>) s) = Inr (r, s1)"
    "dom (vmas s1) = dom (vmas s)"
    using io by blast
  then show ?thesis
    using a prot by (simp add: gdrdrv_remap_gpu_mem_def Let_def)
qed

lemma mmap_runs_total:
  assumes cfg: "page_cfg c" and "v \<in> dom (vmas s)" and ty: "ty = GDR_MR_DEVICE \<longrightarrow> arch c = ARM64"
    and "take_bit (PAGE_SHIFT c) sz = 0"
  shows "\<exists>r va' s1. mmap_runs c remap v ty pages p va sz s = Inr (r, va', s1) \<and>
    dom (vmas s1) = dom (vmas s)"
  using assms(2,4)
proof (induction "length pages - p" arbitrary: p va sz s rule: less_induct)
  case less
  let ?l = "run_len pages p sz"
  have al: "take_bit (PAGE_SHIFT c) ?l = 0"
    using less.prems(2) gpu_pages_aligned [OF cfg] by (simp add: min_def)
  obtain st s1 where step: "gdrdrv_remap_gpu_mem c remap v va (pages ! p) ?l ty s = Inr (st, s1)"
    and d: "dom (vmas s1) = dom (vmas s)"
    using remap_gpu_total [OF less.prems(1) ty al] by blast
  show ?case
  proof (cases "st = 0 \<and> sz - ?l \<noteq> 0 \<and> fst (run_at pages p) < length pages")
    case True
    have "length pages - fst (run_at pages p) < length pages - p"
      using True contig_scan_ge [of "Suc p" pages "pages ! p" 1] by linarith
    moreover have "take_bit (PAGE_SHIFT c) (sz - ?l) = 0" using less.prems(2) al by (rule take_bit_sub0)
    ultimately obtain r va' s2 where "mmap_runs c remap v ty pages (fst (run_at pages p)) (va + ?l) (sz - ?l) s1
        = Inr (r, va', s2)" "dom (vmas s2) = dom (vmas s1)"
      using less.hyps [of "fst (run_at pages p)" s1 "sz - ?l" "va + ?l"] less.prems(1) d by blast
    then show ?thesis using True step d by (subst mmap_runs_step) simp
  next
    case False
    then show ?thesis using step d by (subst mmap_runs_step) auto
  qed
qed

lemma mmap_out_total:
  assumes m: "mrs s p = Some m" "mr_sem m = SemWriter"
    and ok: "ret = 0 \<Longrightarrow> ty \<noteq> GDR_MR_NONE \<and> \<not> (mr_force_pci m \<and> ty = GDR_MR_CACHING)"
  shows "\<exists>s1 vm mp t. mmap_out f v p ty ret s = Inr (ret, s1) \<and>
    mrs s1 = (mrs s)(p \<mapsto> m\<lparr>mr_vma := vm, mr_mapping := mp, mr_cpu_mapping_type := t, mr_sem := SemFree\<rparr>) \<and>
    (t \<noteq> GDR_MR_NONE \<longrightarrow> ret = 0 \<and> vm = Some v) \<and> private_data s1 = private_data s \<and> vmas s1 = vmas s"
  using assms by (cases "ret = 0") (auto simp: mmap_out_def gdr_put_mr_def up_write_def)

lemma mapping_type_some: "mmap_mapping_type c s m \<noteq> GDR_MR_NONE"
  by (simp add: mmap_mapping_type_def)

text \<open>What mapping keeps of every VMA: its range, its file offset and its file.\<close>

definition vma_core :: "vma \<Rightarrow> u64 \<times> u64 \<times> u64 \<times> nat option" where
  "vma_core a = (vm_start a, vm_end a, vm_pgoff a, vm_file a)"

definition vma_view :: "drv \<Rightarrow> nat \<Rightarrow> (u64 \<times> u64 \<times> u64 \<times> nat option) option" where
  "vma_view s v = map_option vma_core (vmas s v)"

lemma vma_view_cong: "vmas s' = vmas s \<Longrightarrow> vma_view s' = vma_view s"
  by (rule ext) (simp add: vma_view_def)

lemma vma_view_set_vma [simp]:
  "vmas s v = Some a \<Longrightarrow> vma_core b = vma_core a \<Longrightarrow> vma_view (set_vma v b s) = vma_view s"
  by (rule ext) (simp add: vma_view_def)

lemma vma_view_dom: "vma_view s' = vma_view s \<Longrightarrow> dom (vmas s') = dom (vmas s)"
proof (rule set_eqI)
  fix v assume "vma_view s' = vma_view s"
  then have "vma_view s' v = vma_view s v" by simp
  then show "v \<in> dom (vmas s') \<longleftrightarrow> v \<in> dom (vmas s)"
    by (cases "vmas s v"; cases "vmas s' v") (auto simp: vma_view_def)
qed

lemma remap_gpu_vma_view:
  assumes run: "gdrdrv_remap_gpu_mem c remap v va pa n ty s = Inr (r, s')"
  shows "vma_view s' = vma_view s"
proof -
  have io: "vmas s2 = vmas s1" if "gdrdrv_io_remap_pfn_range c remap v va pfn n prot s1 = Inr (st, s2)"
    for pfn prot s1 st s2
    using that chunks_vmas
    by (auto simp: gdrdrv_io_remap_pfn_range_def gdrdrv_io_remap_pfn_range1_def Let_def split: if_splits)
  show ?thesis
    using run by (auto simp: gdrdrv_remap_gpu_mem_def Let_def vma_core_def dest!: io vma_view_cong
        split: if_splits)
qed

lemma mmap_runs_vma_view:
  assumes "mmap_runs c remap v ty pages p va sz s = Inr (r, va', s')"
  shows "vma_view s' = vma_view s"
  by (rule mmap_runs_inv [where Q = "\<lambda>s1. vma_view s1 = vma_view s", OF _ assms])
    (auto dest: remap_gpu_vma_view)

text \<open>The whole handler: the region it finds gets a mapping type and a VMA, or loses both.\<close>

text \<open>
  The common exit after a part of mmap that has locked the region (and unmapped it): it leaves the
  region free, with a new mapping state.
\<close>

lemma mmap_out_sets:
  assumes w: "mrs w = (mrs s)(p \<mapsto> k)" "private_data w = private_data s" "vma_view w = vma_view s"
    and k: "mr_sem k = SemWriter"
      "k\<lparr>mr_cpu_mapping_type := GDR_MR_NONE, mr_sem := SemFree\<rparr> = m\<lparr>mr_cpu_mapping_type := GDR_MR_NONE\<rparr>"
    and ok: "ret = 0 \<Longrightarrow> ty \<noteq> GDR_MR_NONE \<and> \<not> (mr_force_pci k \<and> ty = GDR_MR_CACHING)"
  shows "\<exists>s1 vm mp t. mmap_out f v p ty ret w = Inr (ret, s1) \<and> private_data s1 = private_data s \<and>
    vma_view s1 = vma_view s \<and> (t \<noteq> GDR_MR_NONE \<longrightarrow> ret = 0 \<and> vm = Some v) \<and>
    mrs s1 = (mrs s)(p \<mapsto> m\<lparr>mr_vma := vm, mr_mapping := mp, mr_cpu_mapping_type := t\<rparr>)"
proof -
  have wp: "mrs w p = Some k" using w(1) by simp
  obtain s1 vm mp t where out: "mmap_out f v p ty ret w = Inr (ret, s1)"
    "mrs s1 = (mrs w)(p \<mapsto> k\<lparr>mr_vma := vm, mr_mapping := mp, mr_cpu_mapping_type := t, mr_sem := SemFree\<rparr>)"
    "t \<noteq> GDR_MR_NONE \<longrightarrow> ret = 0 \<and> vm = Some v" "private_data s1 = private_data w" "vmas s1 = vmas w"
    using mmap_out_total [OF wp k(1) ok, where f = f and v = v] by blast
  have "k\<lparr>mr_vma := vm, mr_mapping := mp, mr_cpu_mapping_type := t, mr_sem := SemFree\<rparr> =
      m\<lparr>mr_vma := vm, mr_mapping := mp, mr_cpu_mapping_type := t\<rparr>"
    using k(2) by (cases k; cases m) simp
  then have "mrs s1 = (mrs s)(p \<mapsto> m\<lparr>mr_vma := vm, mr_mapping := mp, mr_cpu_mapping_type := t\<rparr>)"
    using out(2) w(1) by simp
  moreover have "private_data s1 = private_data s" "vma_view s1 = vma_view s"
    using out(4,5) w(2,3) vma_view_cong [of s1 w] by simp_all
  ultimately show ?thesis using out(1,3) by blast
qed

lemma mmap_effect:
  assumes inv: "own_inv D s" and cfg: "page_cfg c" and a: "vmas s v = Some a"
    and al: "take_bit (PAGE_SHIFT c) (vm_end a - vm_start a) = 0"
    and ty: "\<forall>p m. mrs s p = Some m \<longrightarrow> map_type_ok c s m"
  shows "\<exists>r s1. gdrdrv_mmap c remap tg f v s = Inr (r, s1) \<and> private_data s1 = private_data s \<and>
    vma_view s1 = vma_view s \<and>
    (mrs s1 = mrs s \<or>
     (\<exists>i p m vm mp t. private_data s f = Some i \<and> pick_mr s (vm_pgoff a) (mr_list i) = Some p \<and>
        mrs s p = Some m \<and> mr_sem m = SemFree \<and> (t \<noteq> GDR_MR_NONE \<longrightarrow> r = 0 \<and> vm = Some v) \<and>
        mrs s1 = (mrs s)(p \<mapsto> m\<lparr>mr_vma := vm, mr_mapping := mp, mr_cpu_mapping_type := t\<rparr>)))"
proof (cases "\<exists>i p. private_data s f = Some i \<and> gdrdrv_check_same_process i tg \<and>
    pick_mr s (vm_pgoff a) (mr_list i) = Some p")
  case False
  then show ?thesis
    using a inv inv_file [OF inv]
    by (cases "private_data s f")
      (auto simp: gdrdrv_mmap_def get_mr_eq gdrdrv_handle_from_off_def Let_def)
next
  case True
  then obtain i p where i: "private_data s f = Some i" and proc: "gdrdrv_check_same_process i tg"
    and p: "pick_mr s (vm_pgoff a) (mr_list i) = Some p" by blast
  obtain m where m: "mrs s p = Some m" "mr_sem m = SemFree"
    using inv_mr [OF inv i pick_mr_in [OF p]] .
  let ?sz = "vm_end a - vm_start a" and ?ty = "mmap_mapping_type c s m"
  note eq = mmap_eq [OF i inv_file [OF inv i] a proc p m(1), of c remap]
  show ?thesis
  proof (cases "mmap_check m ?sz = 0")
    case False
    let ?w = "set_mr p (m\<lparr>mr_sem := SemWriter\<rparr>) s"
    obtain s1 vm mp t where out: "mmap_out f v p GDR_MR_NONE (mmap_check m ?sz) ?w = Inr (mmap_check m ?sz, s1)"
      "private_data s1 = private_data s" "vma_view s1 = vma_view s"
      "t \<noteq> GDR_MR_NONE \<longrightarrow> mmap_check m ?sz = 0 \<and> vm = Some v"
      "mrs s1 = (mrs s)(p \<mapsto> m\<lparr>mr_vma := vm, mr_mapping := mp, mr_cpu_mapping_type := t\<rparr>)"
      using mmap_out_sets [where w = ?w and s = s and p = p and k = "m\<lparr>mr_sem := SemWriter\<rparr>" and m = m
          and ret = "mmap_check m ?sz" and ty = GDR_MR_NONE and f = f and v = v]
        False m(2) vma_view_cong [of ?w s] by auto
    have "gdrdrv_mmap c remap tg f v s = Inr (mmap_check m ?sz, s1)"
      unfolding eq using False out(1) by simp
    with out(2-5) i p m show ?thesis by blast
  next
    case True
    let ?m = "m\<lparr>mr_sem := SemWriter, mr_cpu_mapping_type := GDR_MR_NONE\<rparr>"
    let ?w = "set_vma v (a\<lparr>vm_ops := True\<rparr>) (set_mr p ?m s)"
    have tyok: "?ty = GDR_MR_DEVICE \<longrightarrow> arch c = ARM64" "\<not> (mr_force_pci m \<and> ?ty = GDR_MR_CACHING)"
      using ty m(1) by (auto simp: map_type_ok_def)
    have vd: "v \<in> dom (vmas ?w)" by simp
    obtain ret va s4 where runs: "mmap_runs c remap v ?ty (mr_pages m) 0 (vm_start a) ?sz ?w = Inr (ret, va, s4)"
      using mmap_runs_total [OF cfg vd tyok(1) al] by blast
    let ?ret = "if ret \<noteq> 0 then ret else if va \<noteq> vm_end a then - EINVAL else 0"
    have s4: "mrs s4 = (mrs s)(p \<mapsto> ?m)" "private_data s4 = private_data s"
      using mmap_runs_frame [OF runs] by simp_all
    have "vma_view ?w = vma_view (set_mr p ?m s)"
      by (rule vma_view_set_vma) (use a in \<open>simp_all add: vma_core_def\<close>)
    then have vv: "vma_view s4 = vma_view s"
      using mmap_runs_vma_view [OF runs] vma_view_cong [of "set_mr p ?m s" s] by simp
    obtain s1 vm mp t where out: "mmap_out f v p ?ty ?ret s4 = Inr (?ret, s1)"
      "private_data s1 = private_data s" "vma_view s1 = vma_view s"
      "t \<noteq> GDR_MR_NONE \<longrightarrow> ?ret = 0 \<and> vm = Some v"
      "mrs s1 = (mrs s)(p \<mapsto> m\<lparr>mr_vma := vm, mr_mapping := mp, mr_cpu_mapping_type := t\<rparr>)"
      using mmap_out_sets [OF s4 vv, where m = m and ret = ?ret and ty = ?ty and f = f and v = v] mapping_type_some tyok(2) m(2) by auto
    have "gdrdrv_mmap c remap tg f v s = Inr (?ret, s1)" unfolding eq using True runs out(1) by simp
    with out(2-5) i p m show ?thesis by blast
  qed
qed

text \<open>Ownership, for the well-behaved part of the state that \<^const>\<open>own_inv\<close> describes.\<close>

lemma mmap_inv:
  assumes inv: "own_inv D s" and cfg: "page_cfg c" and a: "vmas s v = Some a"
    and al: "take_bit (PAGE_SHIFT c) (vm_end a - vm_start a) = 0"
    and ty: "\<forall>p m. mrs s p = Some m \<longrightarrow> map_type_ok c s m"
  shows "\<exists>r s1. gdrdrv_mmap c remap tg f v s = Inr (r, s1) \<and> own_inv D s1"
proof -
  obtain r s1 where run: "gdrdrv_mmap c remap tg f v s = Inr (r, s1)"
    and pd: "private_data s1 = private_data s" and vs: "vma_view s1 = vma_view s"
    and m: "mrs s1 = mrs s \<or>
     (\<exists>i p m vm mp t. private_data s f = Some i \<and> pick_mr s (vm_pgoff a) (mr_list i) = Some p \<and>
        mrs s p = Some m \<and> mr_sem m = SemFree \<and> (t \<noteq> GDR_MR_NONE \<longrightarrow> r = 0 \<and> vm = Some v) \<and>
        mrs s1 = (mrs s)(p \<mapsto> m\<lparr>mr_vma := vm, mr_mapping := mp, mr_cpu_mapping_type := t\<rparr>))"
    using mmap_effect [OF inv cfg a al ty, where remap = remap and tg = tg and f = f] by blast
  note dom = vma_view_dom [OF vs]
  have "own_inv D s1"
  proof (cases "mrs s1 = mrs s")
    case True
    then show ?thesis using inv_cong [OF _ pd _ inv] dom by simp
  next
    case False
    then obtain i p k vm mp t where i: "private_data s f = Some i"
      and p: "pick_mr s (vm_pgoff a) (mr_list i) = Some p" and k: "mrs s p = Some k" "mr_sem k = SemFree"
      and t: "t \<noteq> GDR_MR_NONE \<longrightarrow> vm = Some v"
      and s1: "mrs s1 = (mrs s)(p \<mapsto> k\<lparr>mr_vma := vm, mr_mapping := mp, mr_cpu_mapping_type := t\<rparr>)"
      using m False by blast
    let ?k = "k\<lparr>mr_vma := vm, mr_mapping := mp, mr_cpu_mapping_type := t\<rparr>"
    have "own_inv D (set_mr p ?k s)"
      by (rule inv_set_mr [OF inv])
        (use i pick_mr_in [OF p] k t a in \<open>auto simp: listed_def vma_live_def gdr_mr_is_mapped_def\<close>)
    then show ?thesis by (rule inv_cong [rotated -1]) (use s1 pd dom in simp_all)
  qed
  then show ?thesis using run by blast
qed

end
