(* ===== verification/Drv_Module.thy ===== *)
theory Drv_Module
  imports Drv_Refcount
begin

text \<open>
  Loading and unloading the module (src/gdrdrv/gdrdrv.c): the character device, the platform
  detection, the proc directory (the text of its files is in \<open>Drv_Proc\<close>), and the check of the
  reference count at unload.
\<close>

section \<open>Proc files\<close>

text \<open>
  \<open>proc_dir\<close> is \<open>gdrdrv_proc_dir_entry\<close> with the names in the directory. \<open>mk_*\<close> tell whether the
  kernel creates the directory and the two files.
\<close>

record proc_env =
  mk_dir :: bool
  mk_params :: bool
  mk_refcount :: bool

type_synonym proc_dir = "string list option"

definition gdrdrv_procfs_init :: "drv_cfg \<Rightarrow> proc_env \<Rightarrow> int \<times> proc_dir" where
  "gdrdrv_procfs_init c e =
     (let (status, dir) =
        (if \<not> mk_dir e then (EINVAL, None)
         else if \<not> mk_params e then (EINVAL, Some [])
         else if dbg_enabled c then
           (if \<not> mk_refcount e then (EINVAL, Some [''params''])
            else (0, Some [''params'', ''nv_get_pages_refcount'']))
         else (0, Some [''params'']))
      in if status \<noteq> 0 then (status, None) else (status, dir))"

definition gdrdrv_procfs_cleanup :: "proc_dir \<Rightarrow> proc_dir" where
  "gdrdrv_procfs_cleanup dir = (case dir of Some _ \<Rightarrow> None | None \<Rightarrow> None)"

section \<open>Init and cleanup\<close>

text \<open>The two root devices of BlueField-3, searched in order until one is found.\<close>

definition GDRDRV_BF3_PCI_ROOT_DEV_VENDOR_ID :: u32 where
  "GDRDRV_BF3_PCI_ROOT_DEV_VENDOR_ID = 0x15b3"

definition GDRDRV_BF3_PCI_ROOT_DEV_DEVICE_ID :: "u32 list" where
  "GDRDRV_BF3_PCI_ROOT_DEV_DEVICE_ID = [0xa2da, 0xa2db]"

fun bf3_scan :: "drv_cfg \<Rightarrow> u32 list \<Rightarrow> bool \<Rightarrow> bool" where
  "bf3_scan c [] found = found"
| "bf3_scan c (d # ds) found =
     (if bf3_root c GDRDRV_BF3_PCI_ROOT_DEV_VENDOR_ID d then True else bf3_scan c ds found)"

text \<open>\<open>result\<close> is what \<open>register_chrdev\<close> returns.\<close>

definition gdrdrv_init :: "drv_cfg \<Rightarrow> int \<Rightarrow> proc_env \<Rightarrow> drv \<Rightarrow> proc_dir \<Rightarrow> int \<times> drv \<times> proc_dir" where
  "gdrdrv_init c result e s dir =
     (if result < 0 then (result, s, dir)
      else
        (let s1 = (if gdrdrv_major s = 0 then s\<lparr>gdrdrv_major := result\<rparr> else s);
             s2 = (if arch c = PPC64 \<and> power9 c then s1\<lparr>cpu_could_cache_gpu_mappings := True\<rparr>
                   else if arch c = ARM64 then s1\<lparr>cpu_could_cache_gpu_mappings := True\<rparr>
                   else s1);
             s3 = (if arch c = ARM64 then
                     s2\<lparr>cpu_must_use_device_mapping :=
                          bf3_scan c GDRDRV_BF3_PCI_ROOT_DEV_DEVICE_ID (cpu_must_use_device_mapping s2)\<rparr>
                   else s2)
         in (0, s3, snd (gdrdrv_procfs_init c e))))"

text \<open>The second result is the WARN_ON of a debug build.\<close>

definition gdrdrv_cleanup :: "drv_cfg \<Rightarrow> drv \<Rightarrow> proc_dir \<Rightarrow> (proc_dir \<times> bool) run" where
  "gdrdrv_cleanup c s dir =
     (let dir' = gdrdrv_procfs_cleanup dir;
          last_nv_get_pages_refcount = nv_get_pages_refcount s
      in if dbg_enabled c then Inr (dir', 0 \<noteq> last_nv_get_pages_refcount)
         else bindE (checkE (\<not> 0 \<noteq> last_nv_get_pages_refcount) BugOn) (\<lambda>_. Inr (dir', False)))"

text \<open>The state of the module before it is loaded: its static initialisers.\<close>

definition drv_static :: drv where
  "drv_static = \<lparr>mrs = Map.empty, private_data = Map.empty, f_mapping = Map.empty, vmas = Map.empty,
     nv_get_pages_refcount = 0, gdrdrv_major = 0, cpu_could_cache_gpu_mappings = False,
     cpu_must_use_device_mapping = False, calls = []\<rparr>"

lemma init_state:
  assumes "gdrdrv_init c result e drv_static dir = (0, s, dir')"
  shows "mrs s = Map.empty" and "private_data s = Map.empty" and "vmas s = Map.empty"
    and "nv_get_pages_refcount s = 0"
    and "cpu_must_use_device_mapping s \<longrightarrow> arch c = ARM64"
    and "cpu_could_cache_gpu_mappings s \<longrightarrow> arch c = ARM64 \<or> arch c = PPC64 \<and> power9 c"
  using assms by (auto simp: gdrdrv_init_def drv_static_def Let_def split: if_splits)

end
