(* ===== verification/Drv_System.thy ===== *)
theory Drv_System
  imports Drv_Handlers Drv_Module
begin

text \<open>
  The driver as a system: the contract every ioctl refines, the state machine of the system calls,
  the kernel's munmap and the NVIDIA driver's callback, and what holds in every reachable state.
\<close>

section \<open>What an ioctl may do\<close>

text \<open>
  The contract of the ioctl interface on the objects of the driver: nothing changes; a new region
  is published under the file's next handle; a region of the file disappears; a region's requested
  mapping type changes.
\<close>

inductive ioctl_spec :: "drv_cfg \<Rightarrow> nat \<Rightarrow> drv \<Rightarrow> drv \<Rightarrow> bool" for c f where
  spec_same: "mrs s' = mrs s \<Longrightarrow> private_data s' = private_data s \<Longrightarrow> vmas s' = vmas s \<Longrightarrow>
    ioctl_spec c f s s'"
| spec_pin: "private_data s f = Some i \<Longrightarrow> mrs s p = None \<Longrightarrow> \<not> next_handle_overflow i \<Longrightarrow>
    pinned_mr c addr sz i m \<Longrightarrow> mrs s' = (mrs s)(p \<mapsto> m) \<Longrightarrow>
    private_data s' = (private_data s)(f \<mapsto> info_after_pin c p m i) \<Longrightarrow> vmas s' = vmas s \<Longrightarrow>
    ioctl_spec c f s s'"
| spec_unpin: "private_data s f = Some i \<Longrightarrow> p \<in> set (mr_list i) \<Longrightarrow> mrs s' = (mrs s)(p := None) \<Longrightarrow>
    private_data s' = (private_data s)(f \<mapsto> i\<lparr>mr_list := remove1 p (mr_list i)\<rparr>) \<Longrightarrow>
    vmas s' = vmas s \<Longrightarrow> ioctl_spec c f s s'"
| spec_req: "private_data s f = Some i \<Longrightarrow> p \<in> set (mr_list i) \<Longrightarrow> mrs s p = Some m \<Longrightarrow>
    mrs s' = (mrs s)(p \<mapsto> m\<lparr>mr_req_mapping_type := t\<rparr>) \<Longrightarrow> private_data s' = private_data s \<Longrightarrow>
    vmas s' = vmas s \<Longrightarrow> ioctl_spec c f s s'"

lemma pin_core_spec:
  assumes inv: "own_inv D s" and i: "private_data s f = Some i"
    and doc: "get_pages_doc x" "kmalloc_doc x s"
    and run: "gdrdrv_pin_buffer_core c x f addr sz t v fl s = Inr (r, h, s')"
  shows "ioctl_spec c f s s'"
proof (cases "x_kmalloc x")
  case None
  then show ?thesis using run by (auto simp: gdrdrv_pin_buffer_core_def intro: spec_same)
next
  case (Some p)
  have fresh: "mrs s p = None" using doc(2) Some by (simp add: kmalloc_doc_def)
  have nl: "\<not> info_lock i" using inv_file [OF inv i] by (simp add: file_ok_def)
  have fl: "pin_flags_ok c t v fl"
    using pin_core_bad_flags [OF Some, of c t v fl f addr sz s] run by auto
  show ?thesis
    using pin_core_effect [OF Some fresh i nl doc(1) fl, of addr sz] run i fresh
    by (auto intro: spec_same spec_pin)
qed

lemma unpin_core_spec:
  assumes inv: "own_inv D s" and i: "private_data s f = Some i"
    and run: "gdrdrv_unpin_buffer_core c x f h s = Inr (r, s')"
  shows "ioctl_spec c f s s'"
  using unpin_core_effect [OF inv i, where h = h and c = c and x = x] run i
  by (cases "pick_mr s h (mr_list i)") (auto intro: spec_same spec_unpin dest: pick_mr_in)

lemma req_mapping_type_spec:
  assumes inv: "own_inv D s" and i: "private_data s f = Some i"
    and run: "gdrdrv_req_mapping_type c f u s = Inr (r, o1, s')"
  shows "ioctl_spec c f s s'"
proof (cases "pick_mr s (rq_handle (ua_req u)) (mr_list i)")
  case None
  then show ?thesis using run get_none [OF i inv_file [OF inv i]]
    by (auto simp: gdrdrv_req_mapping_type_def split: if_splits option.splits intro: spec_same)
next
  case (Some p)
  obtain m where m: "mrs s p = Some m" "mr_sem m = SemFree" "vma_live s m"
    using inv_mr [OF inv i pick_mr_in [OF Some]] .
  have same: "set_mr p m s = s" using m by (simp add: set_mr_same)
  have "s' = s \<or> (\<exists>t. s' = set_mr p (m\<lparr>mr_req_mapping_type := t\<rparr>) s)"
    using run Some m
    by (auto simp: gdrdrv_req_mapping_type_def get_mr_eq [OF i inv_file [OF inv i]] put_write
        mr_sem_same same split: if_splits option.splits)
  then show ?thesis
    using i pick_mr_in [OF Some] m(1) by (auto intro: spec_same spec_req)
qed

lemma pin_reported_spec:
  assumes inv: "own_inv D s" and i: "private_data s f = Some i"
    and doc: "get_pages_doc x" "kmalloc_doc x s"
    and run: "bindE (gdrdrv_pin_buffer_core c x f addr sz t v fl s)
      (\<lambda>(ret, h, s1).
        if ret \<noteq> 0 then Inr (ret, NoOut, s1)
        else (case h of None \<Rightarrow> Inl NullDeref
             | Some hnd \<Rightarrow>
                 (let (ret2, out) = copy_to_user u (out_of hnd) 0
                  in if ret2 \<noteq> 0 then
                       bindE (gdrdrv_unpin_buffer_core c x f hnd s1) (\<lambda>(_, s2). Inr (ret2, out, s2))
                     else Inr (ret2, out, s1)))) = Inr (r, o1, s')"
  shows "(ioctl_spec c f)\<^sup>*\<^sup>* s s'"
proof -
  obtain r1 h s1 where core: "gdrdrv_pin_buffer_core c x f addr sz t v fl s = Inr (r1, h, s1)"
    using run by auto
  have fl: "pin_flags_ok c t v fl \<or> x_kmalloc x = None"
    using pin_core_bad_flags [of x _ c t v fl f addr sz s] core by (cases "x_kmalloc x") auto
  have step: "ioctl_spec c f s s1" using pin_core_spec [OF inv i doc core] .
  have s1: "own_inv D s1 \<and> (\<exists>j. private_data s1 f = Some j)"
  proof (cases "x_kmalloc x")
    case None
    then show ?thesis using core inv i by (auto simp: gdrdrv_pin_buffer_core_def)
  next
    case (Some p)
    then show ?thesis
      using pin_core_inv [OF inv i doc, of c t v fl addr sz] fl core by auto
  qed
  have "s' = s1 \<or> ioctl_spec c f s1 s'"
    using run core s1 unpin_core_spec
    by (auto simp: Let_def copy_to_user_def split: if_splits option.splits)
  with step show ?thesis by (metis rtranclp.rtrancl_into_rtrancl rtranclp.rtrancl_refl)
qed

lemma ioctl_refines:
  assumes inv: "own_inv D s" and doc: "get_pages_doc x" "kmalloc_doc x s"
    and run: "gdrdrv_ioctl c x tg f cmd u s = Inr (r, o1, s')"
  shows "(ioctl_spec c f)\<^sup>*\<^sup>* s s'"
proof (cases "s' = s")
  case False
  then obtain i where i: "private_data s f = Some i"
    using run by (auto simp: gdrdrv_ioctl_def split: if_splits option.splits)
  note ok = inv_file [OF inv i]
  have noq: "gdrdrv_get_cb_flag f u s \<noteq> Inr (r, o1, s')" "gdrdrv_get_info f u s \<noteq> Inr (r, o1, s')"
    "gdrdrv_get_info_v2 f u s \<noteq> Inr (r, o1, s')"
    "gdrdrv_get_attr c u s \<noteq> Inr (r, o1, s')" "gdrdrv_get_version u s \<noteq> Inr (r, o1, s')"
    using query_state [OF i ok, of u] False
    by (auto simp: gdrdrv_get_attr_def gdrdrv_get_version_def Let_def split: prod.splits if_splits)
  have one: "(ioctl_spec c f)\<^sup>*\<^sup>* s s'" if "ioctl_spec c f s s'" using that by (rule r_into_rtranclp)
  consider "gdrdrv_pin_buffer c x f u s = Inr (r, o1, s')" | "gdrdrv_pin_buffer_v2 c x f u s = Inr (r, o1, s')"
    | "gdrdrv_unpin_buffer c x f u s = Inr (r, o1, s')" | "gdrdrv_req_mapping_type c f u s = Inr (r, o1, s')"
    using run i False noq by (auto simp: gdrdrv_ioctl_def split: if_splits)
  then show ?thesis
  proof cases
    case 1
    then show ?thesis using False pin_reported_spec [OF inv i doc, where u = u]
      unfolding gdrdrv_pin_buffer_def by (auto split: if_splits)
  next
    case 2
    then show ?thesis using False pin_reported_spec [OF inv i doc, where u = u]
      unfolding gdrdrv_pin_buffer_v2_def by (auto split: if_splits)
  next
    case 3
    then show ?thesis using False unpin_core_spec [OF inv i] one
      by (auto simp: gdrdrv_unpin_buffer_def split: if_splits)
  next
    case 4
    then show ?thesis using req_mapping_type_spec [OF inv i] one by blast
  qed
qed simp

section \<open>Handles\<close>

text \<open>The file pages a region owns, as an interval of natural numbers.\<close>

definition h_lo :: "gdr_mr \<Rightarrow> nat" where
  "h_lo m = unat (mr_handle m)"

definition h_hi :: "drv_cfg \<Rightarrow> gdr_mr \<Rightarrow> nat" where
  "h_hi c m = unat (mr_handle m) + unat (handle_pages c (mr_mapped_size m))"

text \<open>
  The handles of a file: below the next one, which is itself in range while no overflow is
  recorded, and with disjoint intervals.
\<close>

definition handles_ok :: "drv_cfg \<Rightarrow> drv \<Rightarrow> gdr_info \<Rightarrow> bool" where
  "handles_ok c s i \<longleftrightarrow>
     (\<not> next_handle_overflow i \<longrightarrow> unat (next_handle i) < 2 ^ (64 - PAGE_SHIFT c) \<and>
        (\<forall>p m. p \<in> set (mr_list i) \<longrightarrow> mrs s p = Some m \<longrightarrow> h_hi c m \<le> unat (next_handle i))) \<and>
     (\<forall>p q m n. p \<in> set (mr_list i) \<longrightarrow> q \<in> set (mr_list i) \<longrightarrow> p \<noteq> q \<longrightarrow> mrs s p = Some m \<longrightarrow>
        mrs s q = Some n \<longrightarrow> h_hi c m \<le> h_lo n \<or> h_hi c n \<le> h_lo m)"

lemma handle_pages_pos: "0 < unat (handle_pages c n)"
  by (simp add: handle_pages_def max_def word_le_nat_alt)

lemma h_lo_hi: "h_lo m < h_hi c m"
  using handle_pages_pos [of c "mr_mapped_size m"] by (simp add: h_lo_def h_hi_def)

lemma handles_ok_inj:
  assumes "handles_ok c s i" and "p \<in> set (mr_list i)" and "q \<in> set (mr_list i)"
    and "mrs s p = Some m" and "mrs s q = Some n" and "mr_handle m = mr_handle n"
  shows "p = q"
proof (rule ccontr)
  assume "p \<noteq> q"
  then have "h_hi c m \<le> h_lo n \<or> h_hi c n \<le> h_lo m"
    using assms unfolding handles_ok_def by blast
  then show False
    using assms(6) h_lo_hi [of m c] h_lo_hi [of n c] by (auto simp: h_lo_def)
qed

text \<open>The overflow test of the source, on natural numbers.\<close>

lemma no_overflow:
  assumes cfg: "page_cfg c" and nh: "unat nh < 2 ^ (64 - PAGE_SHIFT c)"
    and nov: "\<not> (nh + handle_pages c n) AND drop_bit (PAGE_SHIFT c) (-1) < nh"
  shows "unat (nh + handle_pages c n) = unat nh + unat (handle_pages c n)"
    and "unat (nh + handle_pages c n) < 2 ^ (64 - PAGE_SHIFT c)"
proof -
  let ?k = "64 - PAGE_SHIFT c" and ?h = "handle_pages c n"
  have ps: "0 < PAGE_SHIFT c" "PAGE_SHIFT c \<le> 16" using cfg by (simp_all add: page_cfg_def)
  have un: "unat n < 2 ^ 64" using unsigned_less [of n] by simp
  have e64: "(2::nat) ^ 64 = 2 ^ ?k * 2 ^ PAGE_SHIFT c" using ps by (simp flip: power_add)
  have "unat n div 2 ^ PAGE_SHIFT c < 2 ^ ?k"
    using un unfolding e64 by (simp add: less_mult_imp_div_less)
  moreover have "unat ?h = max 1 (unat n div 2 ^ PAGE_SHIFT c)"
    unfolding handle_pages_def max_def word_le_nat_alt by (simp add: unat_drop_bit_div)
  moreover have "(1::nat) < 2 ^ ?k" using ps by (intro one_less_power) auto
  ultimately have h: "unat ?h < 2 ^ ?k" by simp
  have "(2::nat) ^ Suc ?k \<le> 2 ^ 64" using ps by (intro power_increasing) auto
  then have sum: "unat nh + unat ?h < 2 ^ 64" using nh h by simp
  then show eq: "unat (nh + ?h) = unat nh + unat ?h"
    by (simp add: unat_plus_if')
  have mask: "drop_bit (PAGE_SHIFT c) (-1 :: u64) = 2 ^ ?k - 1"
  proof -
    have "drop_bit (PAGE_SHIFT c) (-1 :: u64) = mask ?k"
      using ps by (intro bit_eqI) (auto simp: bit_simps)
    then show ?thesis by (simp add: mask_eq_exp_minus_1)
  qed
  have "unat nh \<le> (unat nh + unat ?h) mod 2 ^ ?k"
    using nov unfolding mask word_less_nat_alt unat_and_low eq by simp
  then show "unat (nh + ?h) < 2 ^ ?k"
  proof (rule contrapos_pp)
    assume big: "\<not> unat (nh + ?h) < 2 ^ ?k"
    then have "(unat nh + unat ?h) mod 2 ^ ?k = unat nh + unat ?h - 2 ^ ?k"
      using nh h eq by (simp add: le_mod_geq)
    then show "\<not> unat nh \<le> (unat nh + unat ?h) mod 2 ^ ?k"
      using h big eq by linarith
  qed
qed

text \<open>Every ioctl keeps the handles of every file in order.\<close>

definition sys_handles :: "drv_cfg \<Rightarrow> drv \<Rightarrow> bool" where
  "sys_handles c s \<longleftrightarrow> (\<forall>f i. private_data s f = Some i \<longrightarrow> handles_ok c s i)"

lemma handles_ok_same:
  assumes "handles_ok c s i"
    and same: "\<And>p m'. p \<in> set (mr_list i) \<Longrightarrow> mrs s' p = Some m' \<Longrightarrow>
      \<exists>m. mrs s p = Some m \<and> mr_handle m' = mr_handle m \<and> mr_mapped_size m' = mr_mapped_size m"
    and j: "set (mr_list j) \<subseteq> set (mr_list i)" "next_handle j = next_handle i"
      "next_handle_overflow j = next_handle_overflow i"
  shows "handles_ok c s' j"
proof -
  have "h_hi c m' \<le> unat (next_handle i)"
    if "\<not> next_handle_overflow i" "p \<in> set (mr_list j)" "mrs s' p = Some m'" for p m'
    using same [of p m'] that j(1) assms(1) unfolding handles_ok_def h_hi_def by fastforce
  moreover have "h_hi c m' \<le> h_lo n' \<or> h_hi c n' \<le> h_lo m'"
    if pq: "p \<in> set (mr_list j)" "q \<in> set (mr_list j)" "p \<noteq> q" "mrs s' p = Some m'" "mrs s' q = Some n'"
    for p q m' n'
  proof -
    obtain m n where "mrs s p = Some m" "h_lo m' = h_lo m" "h_hi c m' = h_hi c m"
      "mrs s q = Some n" "h_lo n' = h_lo n" "h_hi c n' = h_hi c n"
      using same [of p m'] same [of q n'] pq subsetD [OF j(1)] by (auto simp: h_lo_def h_hi_def)
    moreover have "p \<in> set (mr_list i)" "q \<in> set (mr_list i)" using pq j(1) by auto
    ultimately have "h_hi c m \<le> h_lo n \<or> h_hi c n \<le> h_lo m"
      using assms(1) pq(3) unfolding handles_ok_def by blast
    then show ?thesis using \<open>h_lo m' = _\<close> \<open>h_hi c m' = _\<close> \<open>h_lo n' = _\<close> \<open>h_hi c n' = _\<close> by simp
  qed
  ultimately show ?thesis using assms(1) j(2,3) unfolding handles_ok_def by auto
qed

lemma handles_ok_pin:
  assumes cfg: "page_cfg c" and h: "handles_ok c s i" and p: "p \<notin> set (mr_list i)"
    and nov: "\<not> next_handle_overflow i" and m: "mr_handle m = next_handle i"
    and s': "mrs s' = (mrs s)(p \<mapsto> m)"
  shows "handles_ok c s' (info_after_pin c p m i)"
proof -
  let ?j = "info_after_pin c p m i"
  have old: "h_hi c n \<le> h_lo m" if "q \<in> set (mr_list i)" "mrs s q = Some n" for q n
    using h nov that m unfolding handles_ok_def h_lo_def by auto
  have pairs: "h_hi c a \<le> h_lo b \<or> h_hi c b \<le> h_lo a"
    if "r \<in> set (mr_list ?j)" "q \<in> set (mr_list ?j)" "r \<noteq> q" "mrs s' r = Some a" "mrs s' q = Some b"
    for r q a b
  proof -
    consider "r = p" | "q = p" "r \<noteq> p" | "r \<noteq> p" "q \<noteq> p" by blast
    then show ?thesis
    proof cases
      case 3
      then show ?thesis using that s' h unfolding handles_ok_def info_after_pin_def by auto
    qed (use that s' old in \<open>auto simp: info_after_pin_def\<close>)
  qed
  have upd: "unat (next_handle ?j) < 2 ^ (64 - PAGE_SHIFT c)"
    "h_hi c a \<le> unat (next_handle ?j)"
    if ov: "\<not> next_handle_overflow ?j" and q: "q \<in> set (mr_list ?j)" "mrs s' q = Some a" for q a
  proof -
    have nh: "unat (next_handle i) < 2 ^ (64 - PAGE_SHIFT c)"
      using h nov by (simp add: handles_ok_def)
    have ov': "\<not> (next_handle i + handle_pages c (mr_mapped_size m)) AND
        drop_bit (PAGE_SHIFT c) (-1) < next_handle i"
      using ov by (simp add: info_after_pin_def)
    have new: "unat (next_handle ?j) = h_hi c m" "unat (next_handle ?j) < 2 ^ (64 - PAGE_SHIFT c)"
      using no_overflow [OF cfg nh ov'] m by (simp_all add: info_after_pin_def h_hi_def)
    show "unat (next_handle ?j) < 2 ^ (64 - PAGE_SHIFT c)" using new(2) .
    show "h_hi c a \<le> unat (next_handle ?j)"
    proof (cases "q = p")
      case True
      then show ?thesis using q s' new(1) by simp
    next
      case False
      then have "h_hi c a \<le> h_lo m" using q s' old by (auto simp: info_after_pin_def)
      then show ?thesis using new(1) h_lo_hi [of m c] by simp
    qed
  qed
  have ex: "\<exists>q a. q \<in> set (mr_list ?j) \<and> mrs s' q = Some a"
    using s' by (intro exI [of _ p] exI [of _ m]) (simp add: info_after_pin_def)
  show ?thesis using pairs upd ex unfolding handles_ok_def by blast
qed

text \<open>Handles stay in order when lists shrink and regions keep their handles and sizes.\<close>

lemma sys_handles_keep:
  assumes h: "sys_handles c s"
    and m: "\<And>p m'. mrs s' p = Some m' \<Longrightarrow>
        \<exists>m. mrs s p = Some m \<and> mr_handle m' = mr_handle m \<and> mr_mapped_size m' = mr_mapped_size m"
    and pd: "\<And>g j. private_data s' g = Some j \<Longrightarrow> \<exists>i. private_data s g = Some i \<and>
        set (mr_list j) \<subseteq> set (mr_list i) \<and> next_handle j = next_handle i \<and>
        next_handle_overflow j = next_handle_overflow i"
  shows "sys_handles c s'"
  unfolding sys_handles_def
proof (intro allI impI)
  fix g j
  assume "private_data s' g = Some j"
  then obtain i where "private_data s g = Some i" "set (mr_list j) \<subseteq> set (mr_list i)"
    "next_handle j = next_handle i" "next_handle_overflow j = next_handle_overflow i"
    using pd by blast
  then show "handles_ok c s' j"
    using handles_ok_same [of c s i s' j] m h by (auto simp: sys_handles_def)
qed

lemma sys_handles_pin:
  assumes cfg: "page_cfg c" and inv: "own_inv D s" and h: "sys_handles c s"
    and i: "private_data s f = Some i" and p: "mrs s p = None" and ovf: "\<not> next_handle_overflow i"
    and m: "pinned_mr c addr sz i m"
    and s': "mrs s' = (mrs s)(p \<mapsto> m)" "private_data s' = (private_data s)(f \<mapsto> info_after_pin c p m i)"
  shows "sys_handles c s'"
  unfolding sys_handles_def
proof (intro allI impI)
  fix g j
  assume j: "private_data s' g = Some j"
  have np: "p \<notin> set (mr_list k)" if "private_data s g = Some k" for g k
    using file_ok_mr [OF inv_file [OF inv that], of p] p by auto
  show "handles_ok c s' j"
  proof (cases "g = f")
    case True
    then have "j = info_after_pin c p m i" using j s' by simp
    then show ?thesis
      using handles_ok_pin [OF cfg _ np, of s i f m] i s' ovf m h
      by (auto simp: sys_handles_def pinned_mr_def)
  next
    case False
    then have g: "private_data s g = Some j" using j s' by simp
    show ?thesis
      by (rule handles_ok_same [of c s j])
        (use g np [OF g] h s' in \<open>auto simp: sys_handles_def split: if_splits\<close>)
  qed
qed

lemma ioctl_spec_handles:
  assumes "ioctl_spec c f s s'" and cfg: "page_cfg c" and inv: "own_inv D s" and h: "sys_handles c s"
  shows "sys_handles c s'"
proof -
  note keep = sys_handles_keep [OF h]
  show ?thesis using assms(1)
  proof cases
    case spec_same
    then show ?thesis by (intro keep) auto
  next
    case (spec_pin i p addr sz m)
    then show ?thesis using sys_handles_pin [OF cfg inv h] by blast
  next
    case (spec_unpin i p)
    then show ?thesis
      by (intro keep) (auto split: if_splits dest: set_remove1_subset [THEN subsetD])
  next
    case (spec_req i p m t)
    then show ?thesis by (intro keep) (auto split: if_splits)
  qed
qed

section \<open>The state machine\<close>

text \<open>
  A state of the system is the driver's state and the regions that an unpin has taken off their
  list and not freed yet, each with the page table that unpin read. Steps: the system calls on the
  device; the two halves of an unpin, between which the callback may run; the NVIDIA driver's
  callback, for a region whose page table it has not released; the kernel's munmap, which runs the
  close handler and drops the VMA; the last close of a file, which the kernel delays until no VMA
  refers to it. A mmap names a handle that a pin of the same file has returned
  (\<open>named_region\<close>), on a VMA of whole pages; a VMA whose mmap failed is dropped.
\<close>

type_synonym sys = "drv \<times> (nat \<rightharpoonup> page_table option)"

definition named_region :: "drv \<Rightarrow> nat \<Rightarrow> u64 \<Rightarrow> bool" where
  "named_region s f h \<longleftrightarrow>
     (\<exists>i p m. private_data s f = Some i \<and> p \<in> set (mr_list i) \<and> mrs s p = Some m \<and> mr_handle m = h)"

definition drop_vma :: "nat \<Rightarrow> drv \<Rightarrow> drv" where
  "drop_vma v s = s\<lparr>vmas := (vmas s)(v := None)\<rparr>"

definition put_doc :: "drv_cfg \<Rightarrow> ext \<Rightarrow> drv \<Rightarrow> nat \<Rightarrow> page_table option \<Rightarrow> bool" where
  "put_doc c x s p pt \<longleftrightarrow>
     (\<forall>m t. mrs s p = Some m \<longrightarrow> pt = Some t \<longrightarrow>
        (put_pages_status c x m t = 0 \<longleftrightarrow> mr_page_table m \<noteq> None))"

inductive sys_step :: "drv_cfg \<Rightarrow> sys \<Rightarrow> sys \<Rightarrow> bool" for c where
  step_open: "private_data s f = None \<Longrightarrow> gdrdrv_open mi f ok tg s = Inr (r, s') \<Longrightarrow>
    sys_step c (s, D) (s', D)"
| step_ioctl: "get_pages_doc x \<Longrightarrow> put_pages_doc x \<Longrightarrow> kmalloc_doc x s \<Longrightarrow>
    gdrdrv_ioctl c x tg f cmd u s = Inr (r, out, s') \<Longrightarrow> sys_step c (s, D) (s', D)"
| step_unpin_begin: "unpin_detach c f h s = Inr (0, Some p, s1) \<Longrightarrow>
    gdr_free_mr_begin p s1 = Inr (pt, s') \<Longrightarrow> sys_step c (s, D) (s', D(p \<mapsto> pt))"
| step_unpin_finish: "D p = Some pt \<Longrightarrow> put_doc c x s p pt \<Longrightarrow>
    gdr_free_mr_finish c x p pt s = Inr s' \<Longrightarrow> sys_step c (s, D) (s', D(p := None))"
| step_callback: "mrs s p = Some m \<Longrightarrow> mr_page_table m \<noteq> None \<Longrightarrow>
    gdrdrv_get_pages_free_callback c p s = Inr s' \<Longrightarrow> sys_step c (s, D) (s', D)"
| step_mmap: "vmas s v = None \<Longrightarrow> vm_file a = Some f \<Longrightarrow> named_region s f (vm_pgoff a) \<Longrightarrow>
    take_bit (PAGE_SHIFT c) (vm_end a - vm_start a) = 0 \<Longrightarrow>
    \<forall>p m. mrs s p = Some m \<longrightarrow> map_type_ok c s m \<Longrightarrow>
    gdrdrv_mmap c remap tg f v (set_vma v a s) = Inr (r, s') \<Longrightarrow>
    sys_step c (s, D) (if r = 0 then s' else drop_vma v s', D)"
| step_munmap: "vmas s v = Some a \<Longrightarrow> gdrdrv_vma_close v s = Inr s' \<Longrightarrow>
    sys_step c (s, D) (drop_vma v s', D)"
| step_release: "\<forall>v a. vmas s v = Some a \<longrightarrow> vm_file a \<noteq> Some f \<Longrightarrow> put_pages_doc x \<Longrightarrow>
    gdrdrv_release c x f s = Inr (r, s') \<Longrightarrow> sys_step c (s, D) (s', D)"

inductive_cases sys_stepE [elim]: "sys_step c (s, D) (s', D')"

definition sys_init :: "drv_cfg \<Rightarrow> sys \<Rightarrow> bool" where
  "sys_init c sd \<longleftrightarrow> snd sd = Map.empty \<and>
     (\<exists>result e dir dir'. gdrdrv_init c result e drv_static dir = (0, fst sd, dir'))"

definition sys_reach :: "drv_cfg \<Rightarrow> sys \<Rightarrow> bool" where
  "sys_reach c sd \<longleftrightarrow> (\<exists>sd0. sys_init c sd0 \<and> (sys_step c)\<^sup>*\<^sup>* sd0 sd)"

text \<open>
  The invariant: every region is listed by one file or detached; the handles of each file are in
  order; a mapped region's VMA is alive, belongs to the region's file and carries its handle; a
  detached region is unlocked and unmapped; and the reference count is right.
\<close>

definition vma_link :: "drv \<Rightarrow> bool" where
  "vma_link s \<longleftrightarrow>
     (\<forall>f i p m v. private_data s f = Some i \<longrightarrow> p \<in> set (mr_list i) \<longrightarrow> mrs s p = Some m \<longrightarrow>
        gdr_mr_is_mapped m \<longrightarrow> mr_vma m = Some v \<longrightarrow>
        (\<exists>a. vmas s v = Some a \<and> vm_file a = Some f \<and> vm_pgoff a = mr_handle m))"

definition detached_ok :: "drv \<Rightarrow> (nat \<rightharpoonup> page_table option) \<Rightarrow> bool" where
  "detached_ok s D \<longleftrightarrow>
     (\<forall>p pt. D p = Some pt \<longrightarrow> (\<exists>m. mrs s p = Some m \<and> mr_sem m = SemFree \<and>
        \<not> gdr_mr_is_mapped m \<and> (pt = None \<longrightarrow> mr_page_table m = None)))"

definition sys_inv :: "drv_cfg \<Rightarrow> sys \<Rightarrow> bool" where
  "sys_inv c sd \<longleftrightarrow> own_inv (dom (snd sd)) (fst sd) \<and> sys_handles c (fst sd) \<and> vma_link (fst sd) \<and>
     detached_ok (fst sd) (snd sd) \<and> ref_ok (fst sd)"

lemma sys_inv_init: "sys_init c sd \<Longrightarrow> sys_inv c sd"
  using init_state
  by (fastforce simp: sys_init_def sys_inv_def own_inv_def drv_ok_def listed_def sys_handles_def
      vma_link_def detached_ok_def ref_ok_def pinned_def)

section \<open>Every step keeps the invariant\<close>

lemma unpin_own:
  assumes inv: "own_inv D s" and f: "private_data s f = Some i" and p: "p \<in> set (mr_list i)"
    and s': "mrs s' = (mrs s)(p := None)" "vmas s' = vmas s"
      "private_data s' = (private_data s)(f \<mapsto> i\<lparr>mr_list := remove1 p (mr_list i)\<rparr>)"
  shows "own_inv D s'"
proof -
  obtain m where m: "mrs s p = Some m" using inv_mr [OF inv f p] .
  let ?s1 = "set_mr p m (s'\<lparr>vmas := vmas s\<rparr>)"
  have pD: "p \<notin> D" using inv f p by (auto simp: own_inv_def listed_def)
  have det: "own_inv (insert p D) ?s1"
    by (rule inv_detach [OF inv f p, where m' = m]) (use s' in simp_all)
  show ?thesis by (rule inv_kfree [OF det pD]) (use s' m in \<open>auto simp: fun_upd_idem\<close>)
qed

lemma ioctl_spec_own:
  assumes "ioctl_spec c f s s'" and inv: "own_inv D s"
  shows "own_inv D s'"
  using assms(1)
proof cases
  case spec_same
  then show ?thesis using inv_cong [OF _ _ _ inv] by simp
next
  case (spec_pin i p addr sz m)
  have "\<not> info_lock i" using inv_file [OF inv spec_pin(1)] by (simp add: file_ok_def)
  then show ?thesis
    by (intro inv_publish [OF inv spec_pin(1,2,6) _ _ spec_pin(5,7)])
      (use spec_pin in \<open>auto simp: info_after_pin_def pinned_mr_def fresh_mr_def vma_live_def\<close>)
next
  case (spec_unpin i p)
  then show ?thesis using unpin_own [OF inv] by blast
next
  case (spec_req i p m t)
  obtain k where k: "mrs s p = Some k" "mr_sem k = SemFree" "vma_live s k"
    using inv_mr [OF inv spec_req(1,2)] .
  have "own_inv D (set_mr p (m\<lparr>mr_req_mapping_type := t\<rparr>) s)"
    by (rule inv_set_mr [OF inv])
      (use spec_req k in \<open>auto simp: listed_def vma_live_def gdr_mr_is_mapped_def\<close>)
  then show ?thesis by (rule inv_cong [rotated -1]) (use spec_req in simp_all)
qed

lemma own_detached:
  "own_inv (dom D) s \<Longrightarrow> D p = Some pt \<Longrightarrow> private_data s f = Some i \<Longrightarrow> p \<notin> set (mr_list i)"
  by (auto simp: own_inv_def listed_def)

lemma own_one_file:
  "own_inv D s \<Longrightarrow> private_data s f = Some i \<Longrightarrow> private_data s g = Some j \<Longrightarrow>
    p \<in> set (mr_list i) \<Longrightarrow> p \<in> set (mr_list j) \<Longrightarrow> g = f"
  unfolding own_inv_def drv_ok_def by blast

lemma ioctl_spec_detached:
  assumes "ioctl_spec c f s s'" and inv: "own_inv (dom D) s" and d: "detached_ok s D"
  shows "detached_ok s' D"
  unfolding detached_ok_def
proof (intro allI impI)
  fix p pt assume p: "D p = Some pt"
  then obtain m where m: "mrs s p = Some m" "mr_sem m = SemFree" "\<not> gdr_mr_is_mapped m"
    "pt = None \<longrightarrow> mr_page_table m = None"
    using d unfolding detached_ok_def by blast
  have "mrs s' p = mrs s p"
    using assms(1)
  proof cases
    case (spec_unpin i q)
    then show ?thesis using own_detached [OF inv p spec_unpin(1)] by auto
  next
    case (spec_req i q k t)
    then show ?thesis using own_detached [OF inv p spec_req(1)] by auto
  qed (use m in auto)
  then show "\<exists>m. mrs s' p = Some m \<and> mr_sem m = SemFree \<and> \<not> gdr_mr_is_mapped m \<and>
      (pt = None \<longrightarrow> mr_page_table m = None)"
    using m by simp
qed

lemma ioctl_spec_link:
  assumes "ioctl_spec c f s s'" and l: "vma_link s"
  shows "vma_link s'"
proof -
  have keep: "vma_link s'" if v: "vmas s' = vmas s"
    and st: "\<And>g j p m'. private_data s' g = Some j \<Longrightarrow> p \<in> set (mr_list j) \<Longrightarrow> mrs s' p = Some m' \<Longrightarrow>
      gdr_mr_is_mapped m' \<Longrightarrow> \<exists>i m. private_data s g = Some i \<and> p \<in> set (mr_list i) \<and>
        mrs s p = Some m \<and> gdr_mr_is_mapped m \<and> mr_vma m' = mr_vma m \<and> mr_handle m' = mr_handle m"
    unfolding vma_link_def v
  proof (intro allI impI)
    fix g j p m' w
    assume *: "private_data s' g = Some j" "p \<in> set (mr_list j)" "mrs s' p = Some m'"
      "gdr_mr_is_mapped m'" and w: "mr_vma m' = Some w"
    obtain i m where "private_data s g = Some i" "p \<in> set (mr_list i)" "mrs s p = Some m"
      "gdr_mr_is_mapped m" "mr_vma m' = mr_vma m" "mr_handle m' = mr_handle m"
      using st [OF *] by blast
    then show "\<exists>a. vmas s w = Some a \<and> vm_file a = Some g \<and> vm_pgoff a = mr_handle m'"
      using l w unfolding vma_link_def by fastforce
  qed
  show ?thesis using assms(1)
  proof cases
    case spec_same
    then show ?thesis by (intro keep) auto
  next
    case (spec_pin i p addr sz m)
    then show ?thesis
      by (intro keep) (auto simp: info_after_pin_def pinned_mr_def fresh_mr_def split: if_splits)
  next
    case (spec_unpin i p)
    then show ?thesis
      by (intro keep) (auto split: if_splits dest: set_remove1_subset [THEN subsetD])
  next
    case (spec_req i p m t)
    then show ?thesis by (intro keep) (auto simp: gdr_mr_is_mapped_def split: if_splits)
  qed
qed

definition core_inv :: "drv_cfg \<Rightarrow> (nat \<rightharpoonup> page_table option) \<Rightarrow> drv \<Rightarrow> bool" where
  "core_inv c D s \<longleftrightarrow> own_inv (dom D) s \<and> sys_handles c s \<and> vma_link s \<and> detached_ok s D"

lemma ioctl_specs_core:
  assumes "(ioctl_spec c f)\<^sup>*\<^sup>* s s'" and "page_cfg c" and "core_inv c D s"
  shows "core_inv c D s'"
  using assms(1,3)
proof (induction rule: rtranclp_induct)
  case base
  then show ?case .
next
  case (step s1 s2)
  then have "core_inv c D s1" by blast
  then show ?case
    using step.hyps(2) assms(2) ioctl_spec_own ioctl_spec_handles ioctl_spec_link ioctl_spec_detached
    unfolding core_inv_def by blast
qed

lemma open_core:
  assumes "private_data s f = None" and run: "gdrdrv_open mi f ok tg s = Inr (r, s')"
    and inv: "core_inv c D s"
  shows "core_inv c D s'"
proof (cases "s' = s")
  case False
  define i where "i = \<lparr>mr_list = [], info_lock = False, tgid = tg, next_handle = 0,
    next_handle_overflow = False\<rparr>"
  have s': "mrs s' = mrs s" "vmas s' = vmas s" "private_data s' = (private_data s)(f \<mapsto> i)"
    using run False by (auto simp: gdrdrv_open_def i_def Let_def split: if_splits)
  have i: "mr_list i = []" "\<not> info_lock i" "next_handle i = 0" by (simp_all add: i_def)
  have own: "own_inv (dom D) s" using inv by (simp add: core_inv_def)
  have "others f s = listed s"
    unfolding others_def listed_def using assms(1) by (intro Collect_cong) (metis option.discI)
  then have l: "listed s' = listed s" unfolding listed_upd [OF s'(3)] by (simp add: i)
  have "drv_ok s'"
    using own unfolding own_inv_def drv_ok_def s'(3) by (auto simp: file_ok_def s' i)
  then have "own_inv (dom D) s'"
    using own unfolding own_inv_def l by (auto simp: vma_live_def s')
  moreover have "sys_handles c s'"
    using inv unfolding core_inv_def sys_handles_def s'(3) by (auto simp: handles_ok_def i s')
  moreover have "vma_link s'"
    using inv unfolding core_inv_def vma_link_def s'(3) by (auto simp: i s')
  moreover have "detached_ok s' D" using inv unfolding core_inv_def detached_ok_def s' by blast
  ultimately show ?thesis by (simp add: core_inv_def)
qed (use inv in simp)

lemma sys_handles_cong:
  assumes "sys_handles c s" and "private_data s' = private_data s"
    and "\<And>p m'. mrs s' p = Some m' \<Longrightarrow>
      \<exists>m. mrs s p = Some m \<and> mr_handle m' = mr_handle m \<and> mr_mapped_size m' = mr_mapped_size m"
  shows "sys_handles c s'"
  unfolding sys_handles_def
proof (intro allI impI)
  fix f i assume i: "private_data s' f = Some i"
  show "handles_ok c s' i"
    by (rule handles_ok_same [of c s i]) (use assms i in \<open>auto simp: sys_handles_def\<close>)
qed

text \<open>Unpinning in two halves.\<close>

lemma unpin_begin_core:
  assumes det: "unpin_detach c f h s = Inr (0, Some p, s1)"
    and beg: "gdr_free_mr_begin p s1 = Inr (pt, s')" and inv: "core_inv c D s"
  shows "core_inv c (D(p \<mapsto> pt)) s'"
proof -
  have own: "own_inv (dom D) s" using inv by (simp add: core_inv_def)
  obtain i where i: "private_data s f = Some i"
    using det by (auto simp: unpin_detach_def mutex_lock_def)
  obtain m where pick: "pick_mr s h (mr_list i) = Some p" and m: "mrs s p = Some m"
    and s1: "mrs s1 = (mrs s)(p \<mapsto> m\<lparr>mr_sem := SemWriter, mr_cpu_mapping_type := GDR_MR_NONE\<rparr>)"
      "private_data s1 = (private_data s)(f \<mapsto> i\<lparr>mr_list := remove1 p (mr_list i)\<rparr>)" "vmas s1 = vmas s"
    using detach_effect [OF own i, where h = h and c = c] det
    by (cases "pick_mr s h (mr_list i)") (auto simp: EINVAL_def)
  let ?m = "m\<lparr>mr_sem := SemWriter, mr_cpu_mapping_type := GDR_MR_NONE, mr_sem := SemFree\<rparr>"
  have s': "s' = set_mr p ?m s1" "pt = mr_page_table m"
    using beg s1 by (auto simp: gdr_free_mr_begin_def up_write_def split: if_splits)
  have m': "mrs s' = (mrs s)(p \<mapsto> ?m)" and pd': "private_data s' = private_data s1"
    and v': "vmas s' = vmas s" using s' s1 by simp_all
  note pin = pick_mr_in [OF pick]
  have "own_inv (insert p (dom D)) s'"
    by (rule inv_detach [OF own i pin _ m' v']) (simp add: pd' s1)
  then have "own_inv (dom (D(p \<mapsto> pt))) s'" by simp
  moreover have "sys_handles c s'"
    unfolding sys_handles_def
  proof (intro allI impI)
    fix g j assume j: "private_data s' g = Some j"
    obtain k where k: "private_data s g = Some k" "set (mr_list j) \<subseteq> set (mr_list k)"
      "next_handle j = next_handle k" "next_handle_overflow j = next_handle_overflow k"
      using j i set_remove1_subset [of p "mr_list i"] that unfolding pd' s1(2)
      by (cases "g = f") auto
    show "handles_ok c s' j"
      by (rule handles_ok_same [of c s k])
        (use k inv m m' in \<open>auto simp: core_inv_def sys_handles_def split: if_splits\<close>)
  qed
  moreover have "vma_link s'"
    using inv i unfolding core_inv_def vma_link_def m' pd' s1 v'
    by (auto simp: gdr_mr_is_mapped_def split: if_splits dest: set_remove1_subset [THEN subsetD])
  moreover have "detached_ok s' (D(p \<mapsto> pt))"
    using inv s'(2) unfolding core_inv_def detached_ok_def m' by (auto simp: gdr_mr_is_mapped_def)
  ultimately show ?thesis by (simp add: core_inv_def)
qed

lemma unpin_finish_core:
  assumes D: "D p = Some pt" and fin: "gdr_free_mr_finish c x p pt s = Inr s'" and inv: "core_inv c D s"
  shows "core_inv c (D(p := None)) s'"
proof -
  have own: "own_inv (dom D) s" using inv by (simp add: core_inv_def)
  have s': "mrs s' = (mrs s)(p := None)" "private_data s' = private_data s" "vmas s' = vmas s"
    using fin by (auto simp: gdr_free_mr_finish_def Let_def split: option.splits if_splits)
  have "insert p (dom (D(p := None))) = dom D" using D by auto
  then have own': "own_inv (insert p (dom (D(p := None)))) s" using own by simp
  have "own_inv (dom (D(p := None))) s'"
    by (rule inv_kfree [OF own' _ s'(2,1,3)]) simp
  moreover have "sys_handles c s'"
    by (rule sys_handles_cong [of c s]) (use inv s' in \<open>auto simp: core_inv_def split: if_splits\<close>)
  moreover have "vma_link s'"
    using inv unfolding core_inv_def vma_link_def s' by (auto split: if_splits)
  moreover have "detached_ok s' (D(p := None))"
    using inv unfolding core_inv_def detached_ok_def s' by (auto split: if_splits)
  ultimately show ?thesis by (simp add: core_inv_def)
qed

text \<open>A step that changes one region in place and no list.\<close>

lemma in_place_core:
  assumes inv: "core_inv c D s" and own: "own_inv (dom D) s'"
    and m: "mrs s p = Some m" and s': "mrs s' = (mrs s)(p \<mapsto> m')" "private_data s' = private_data s"
    and h: "mr_handle m' = mr_handle m" "mr_mapped_size m' = mr_mapped_size m"
    and det: "\<not> gdr_mr_is_mapped m \<longrightarrow> p \<in> dom D \<longrightarrow> \<not> gdr_mr_is_mapped m' \<and> mr_sem m' = SemFree \<and>
      (mr_page_table m = None \<longrightarrow> mr_page_table m' = None)"
    and v: "\<And>w. w \<in> dom (vmas s) \<Longrightarrow> vma_view s' w = vma_view s w"
    and lk: "\<And>f i w. private_data s f = Some i \<Longrightarrow> p \<in> set (mr_list i) \<Longrightarrow> gdr_mr_is_mapped m' \<Longrightarrow>
      mr_vma m' = Some w \<Longrightarrow> gdr_mr_is_mapped m \<and> mr_vma m = Some w \<or>
      (\<exists>a. vmas s' w = Some a \<and> vm_file a = Some f \<and> vm_pgoff a = mr_handle m)"
  shows "core_inv c D s'"
proof -
  have "sys_handles c s'"
    by (rule sys_handles_cong [of c s]) (use inv s' m h in \<open>auto simp: core_inv_def split: if_splits\<close>)
  moreover have "detached_ok s' D"
    unfolding detached_ok_def
  proof (intro allI impI)
    fix q pt assume q: "D q = Some pt"
    obtain k where k: "mrs s q = Some k" "mr_sem k = SemFree" "\<not> gdr_mr_is_mapped k"
      "pt = None \<longrightarrow> mr_page_table k = None"
      using inv q unfolding core_inv_def detached_ok_def by blast
    show "\<exists>m. mrs s' q = Some m \<and> mr_sem m = SemFree \<and> \<not> gdr_mr_is_mapped m \<and>
        (pt = None \<longrightarrow> mr_page_table m = None)"
      using k det m q by (cases "q = p") (auto simp: s')
  qed
  moreover have "vma_link s'"
    unfolding vma_link_def
  proof (intro allI impI)
    fix f i q k w
    assume i: "private_data s' f = Some i" and q: "q \<in> set (mr_list i)" and k: "mrs s' q = Some k"
      and mp: "gdr_mr_is_mapped k" and w: "mr_vma k = Some w"
    have old: "\<exists>a. vmas s' w = Some a \<and> vm_file a = Some f \<and> vm_pgoff a = mr_handle n"
      if n: "mrs s q = Some n" "gdr_mr_is_mapped n" "mr_vma n = Some w" for n
    proof -
      obtain a where a: "vmas s w = Some a" "vm_file a = Some f" "vm_pgoff a = mr_handle n"
        using inv i q n unfolding core_inv_def vma_link_def s'(2) by blast
      have "vma_view s' w = vma_view s w" using v a by blast
      then show ?thesis using a by (auto simp: vma_view_def vma_core_def)
    qed
    show "\<exists>a. vmas s' w = Some a \<and> vm_file a = Some f \<and> vm_pgoff a = mr_handle k"
    proof (cases "q = p")
      case True
      then have k: "k = m'" using k s' by simp
      have "gdr_mr_is_mapped m \<and> mr_vma m = Some w \<or>
          (\<exists>a. vmas s' w = Some a \<and> vm_file a = Some f \<and> vm_pgoff a = mr_handle m)"
        by (rule lk) (use i q True mp w k s' in auto)
      then show ?thesis using old [of m] True m k h by auto
    next
      case False
      then show ?thesis using old [of k] k mp w s' by simp
    qed
  qed
  ultimately show ?thesis using own by (simp add: core_inv_def)
qed

lemma core_mr:
  assumes inv: "core_inv c D s" and m: "mrs s p = Some m"
  shows "mr_sem m = SemFree" and "vma_live s m"
proof -
  have "p \<in> listed s \<or> p \<in> dom D" using inv m by (auto simp: core_inv_def own_inv_def)
  then have "mr_sem m = SemFree \<and> vma_live s m"
  proof
    assume "p \<in> listed s"
    then obtain f i where "private_data s f = Some i" "p \<in> set (mr_list i)" by (auto simp: listed_def)
    moreover have "own_inv (dom D) s" using inv by (simp add: core_inv_def)
    ultimately show ?thesis using inv_mr [of "dom D" s f i p] m by auto
  next
    assume "p \<in> dom D"
    then show ?thesis using inv m unfolding core_inv_def detached_ok_def vma_live_def by fastforce
  qed
  then show "mr_sem m = SemFree" and "vma_live s m" by simp_all
qed

lemma callback_core:
  assumes inv: "core_inv c0 D s" and m: "mrs s p = Some m"
    and run: "gdrdrv_get_pages_free_callback c p s = Inr s'"
  shows "core_inv c0 D s'"
proof -
  note k = core_mr [OF inv m]
  have own: "own_inv (dom D) s" using inv by (simp add: core_inv_def)
  obtain s1 where s1: "gdrdrv_get_pages_free_callback c p s = Inr s1" "own_inv (dom D) s1"
    using callback_inv [OF own m k] by blast
  obtain s2 where s2: "gdrdrv_get_pages_free_callback c p s = Inr s2"
    "mrs s2 = (mrs s)(p \<mapsto> m\<lparr>mr_cb_flag := True,
      mr_cpu_mapping_type := if mr_page_table m = None then mr_cpu_mapping_type m else GDR_MR_NONE,
      mr_page_table := None\<rparr>)"
    "private_data s2 = private_data s" "vmas s2 = vmas s"
    using callback_effect [OF m k] by blast
  have eq: "s1 = s'" "s2 = s'" using s1 s2 run by simp_all
  show ?thesis
    by (rule in_place_core [OF inv s1(2) [unfolded eq] m s2(2,3) [unfolded eq]])
      (use k s2(4) [unfolded eq] in \<open>auto simp: gdr_mr_is_mapped_def vma_view_def split: if_splits\<close>)
qed

lemma set_vma_core:
  assumes inv: "core_inv c D s" and v: "vmas s v = None"
  shows "core_inv c D (set_vma v a s)"
proof -
  have own: "own_inv (dom D) s" using inv by (simp add: core_inv_def)
  have "own_inv (dom D) (set_vma v a s)" by (rule inv_cong [OF _ _ _ own]) auto
  moreover have "sys_handles c (set_vma v a s)"
    by (rule sys_handles_cong [of c s]) (use inv in \<open>auto simp: core_inv_def\<close>)
  moreover have "vma_link (set_vma v a s)"
    using inv v unfolding core_inv_def vma_link_def by fastforce
  moreover have "detached_ok (set_vma v a s) D"
    using inv by (simp add: core_inv_def detached_ok_def)
  ultimately show ?thesis by (simp add: core_inv_def)
qed

lemma drop_vma_simps [simp]:
  "mrs (drop_vma v s) = mrs s" "private_data (drop_vma v s) = private_data s"
  "vmas (drop_vma v s) = (vmas s)(v := None)" "nv_get_pages_refcount (drop_vma v s) = nv_get_pages_refcount s"
  "calls (drop_vma v s) = calls s"
  by (simp_all add: drop_vma_def)

text \<open>A state in which the regions and the VMAs they are mapped through are as before.\<close>

lemma core_same_mrs:
  assumes inv: "core_inv c D s" and own: "own_inv (dom D) s1"
    and eq: "mrs s1 = mrs s" "private_data s1 = private_data s"
    and view: "\<And>w. vmas s w \<noteq> None \<Longrightarrow> vma_view s1 w = vma_view s w"
  shows "core_inv c D s1"
proof -
  have "sys_handles c s1"
    by (rule sys_handles_cong [of c s]) (use inv eq in \<open>auto simp: core_inv_def\<close>)
  moreover have "detached_ok s1 D" using inv eq unfolding core_inv_def detached_ok_def by simp
  moreover have "vma_link s1"
    unfolding vma_link_def
  proof (intro allI impI)
    fix g i p m w
    assume "private_data s1 g = Some i" "p \<in> set (mr_list i)" "mrs s1 p = Some m"
      "gdr_mr_is_mapped m" "mr_vma m = Some w"
    then obtain b where b: "vmas s w = Some b" "vm_file b = Some g" "vm_pgoff b = mr_handle m"
      using inv eq unfolding core_inv_def vma_link_def by fastforce
    then have "vma_view s1 w = vma_view s w" using view by simp
    then show "\<exists>a. vmas s1 w = Some a \<and> vm_file a = Some g \<and> vm_pgoff a = mr_handle m"
      using b by (auto simp: vma_view_def vma_core_def)
  qed
  ultimately show ?thesis using own by (simp add: core_inv_def)
qed

lemma fresh_vma_unlinked:
  assumes "core_inv c D s" and "vmas s v = None"
    and "p \<in> listed s" and "mrs s p = Some m" and "gdr_mr_is_mapped m"
  shows "mr_vma m \<noteq> Some v"
  using assms unfolding core_inv_def own_inv_def vma_live_def by fastforce

text \<open>A VMA may go once no listed region is mapped through it.\<close>

lemma drop_vma_core:
  assumes inv: "core_inv c D s"
    and v: "\<And>p m. p \<in> listed s \<Longrightarrow> mrs s p = Some m \<Longrightarrow> gdr_mr_is_mapped m \<Longrightarrow> mr_vma m \<noteq> Some v"
  shows "core_inv c D (drop_vma v s)"
proof -
  have own: "own_inv (dom D) s" using inv by (simp add: core_inv_def)
  have l: "listed (drop_vma v s) = listed s" by (simp add: listed_def)
  have "drv_ok (drop_vma v s)" using own by (simp add: own_inv_def drv_ok_def file_ok_def)
  moreover have "vma_live (drop_vma v s) m" if pm: "p \<in> listed s" "mrs s p = Some m" for p m
    unfolding vma_live_def
  proof
    assume mp: "gdr_mr_is_mapped m"
    then obtain w where w: "mr_vma m = Some w" "vmas s w \<noteq> None"
      using own pm unfolding own_inv_def vma_live_def by blast
    moreover have "w \<noteq> v" using v [OF pm mp] w(1) by simp
    ultimately show "\<exists>w. mr_vma m = Some w \<and> vmas (drop_vma v s) w \<noteq> None" by simp
  qed
  ultimately have "own_inv (dom D) (drop_vma v s)" using own unfolding own_inv_def l by auto
  moreover have "sys_handles c (drop_vma v s)"
    by (rule sys_handles_cong [of c s]) (use inv in \<open>auto simp: core_inv_def\<close>)
  moreover have "vma_link (drop_vma v s)"
    unfolding vma_link_def drop_vma_simps
  proof (intro allI impI)
    fix f i p m w
    assume *: "private_data s f = Some i" "p \<in> set (mr_list i)" "mrs s p = Some m" "gdr_mr_is_mapped m"
      and w: "mr_vma m = Some w"
    then have "p \<in> listed s" by (auto simp: listed_def)
    then have "w \<noteq> v" using v * w by auto
    then show "\<exists>a. ((vmas s)(v := None)) w = Some a \<and> vm_file a = Some f \<and> vm_pgoff a = mr_handle m"
      using inv * w unfolding core_inv_def vma_link_def by fastforce
  qed
  moreover have "detached_ok (drop_vma v s) D"
    using inv by (simp add: core_inv_def detached_ok_def)
  ultimately show ?thesis by (simp add: core_inv_def)
qed

lemma vma_link_file:
  assumes inv: "core_inv c D s" and p: "p \<in> listed s" "mrs s p = Some m" "gdr_mr_is_mapped m"
    "mr_vma m = Some v" and a: "vmas s v = Some a"
  obtains f i where "vm_file a = Some f" and "private_data s f = Some i" and "p \<in> set (mr_list i)"
    and "mr_handle m = vm_pgoff a"
proof -
  obtain f i where f: "private_data s f = Some i" "p \<in> set (mr_list i)" using p by (auto simp: listed_def)
  obtain b where "vmas s v = Some b" "vm_file b = Some f" "vm_pgoff b = mr_handle m"
    using inv f p unfolding core_inv_def vma_link_def by blast
  then show ?thesis using that f a by auto
qed

lemma pick_mr_handle:
  assumes "live_mrs s ps" and "p \<in> set ps" and "mrs s p = Some m" and "mr_handle m = h"
  obtains q n where "pick_mr s h ps = Some q" and "mrs s q = Some n" and "mr_handle n = h"
    and "q \<in> set ps"
proof -
  have "List.find (\<lambda>p. h = mr_handle (the (mrs s p))) ps \<noteq> None"
    using assms by (auto simp: find_None_iff)
  then obtain q where q: "List.find (\<lambda>p. h = mr_handle (the (mrs s p))) ps = Some q" by auto
  then have mem: "q \<in> set ps" and h: "h = mr_handle (the (mrs s q))" by (auto simp: find_Some_iff)
  obtain n where n: "mrs s q = Some n" using assms(1) mem by (auto simp: live_mrs_def)
  show ?thesis
    by (rule that [of q n]) (use q n h mem in \<open>simp_all add: pick_mr_def\<close>)
qed

lemma mapped_pick:
  assumes inv: "core_inv c D s" and i: "private_data s f = Some i"
    and p: "p \<in> set (mr_list i)" "mrs s p = Some n" "mr_handle n = h"
  shows "pick_mr s h (mr_list i) = Some p"
proof -
  have own: "own_inv (dom D) s" using inv by (simp add: core_inv_def)
  obtain q k where q: "pick_mr s h (mr_list i) = Some q" "mrs s q = Some k" "mr_handle k = h"
      "q \<in> set (mr_list i)"
    using pick_mr_handle [OF file_ok_live [OF inv_file [OF own i]] p] by blast
  have "handles_ok c s i" using inv i by (simp add: core_inv_def sys_handles_def)
  then have "q = p" using handles_ok_inj [of c s i q p k n] q p by simp
  with q(1) show ?thesis by simp
qed

definition close_mrs :: "vma \<Rightarrow> drv \<Rightarrow> nat \<rightharpoonup> gdr_mr" where
  "close_mrs a s = (case vm_file a of None \<Rightarrow> mrs s
     | Some f \<Rightarrow> (case private_data s f of None \<Rightarrow> mrs s
       | Some i \<Rightarrow> (case pick_mr s (vm_pgoff a) (mr_list i) of None \<Rightarrow> mrs s
         | Some p \<Rightarrow> (mrs s)(p \<mapsto> (the (mrs s p))\<lparr>mr_vma := None, mr_cpu_mapping_type := GDR_MR_NONE\<rparr>))))"

lemma close_core:
  assumes inv: "core_inv c D s" and own1: "own_inv (dom D) s1"
    and eq: "vmas s1 = vmas s" "private_data s1 = private_data s" "mrs s1 = close_mrs a s"
  shows "core_inv c D s1"
proof (cases "mrs s1 = mrs s")
  case True
  then show ?thesis using core_same_mrs [OF inv own1] eq by (simp add: vma_view_def)
next
  case False
  have own: "own_inv (dom D) s" using inv by (simp add: core_inv_def)
  obtain f i p where "vm_file a = Some f" and f: "private_data s f = Some i"
    and p: "pick_mr s (vm_pgoff a) (mr_list i) = Some p"
    and m1: "mrs s1 = (mrs s)(p \<mapsto> (the (mrs s p))\<lparr>mr_vma := None, mr_cpu_mapping_type := GDR_MR_NONE\<rparr>)"
    using False eq(3) by (auto simp: close_mrs_def split: option.splits)
  obtain m where m: "mrs s p = Some m" "mr_sem m = SemFree"
    using inv_mr [OF own f pick_mr_in [OF p]] .
  show ?thesis
    by (rule in_place_core [OF inv own1 m(1) m1 [unfolded m(1) option.sel] eq(2)])
      (use m eq(1) in \<open>auto simp: gdr_mr_is_mapped_def vma_view_def\<close>)
qed

lemma munmap_core:
  assumes inv: "core_inv c D s" and a: "vmas s v = Some a" and run: "gdrdrv_vma_close v s = Inr s1"
  shows "core_inv c D (drop_vma v s1)"
proof -
  have own: "own_inv (dom D) s" using inv by (simp add: core_inv_def)
  have own1: "own_inv (dom D) s1" and eq: "vmas s1 = vmas s" "private_data s1 = private_data s"
      and m1: "mrs s1 = close_mrs a s"
    using vma_close_inv [OF own a] run unfolding close_mrs_def by auto
  have inv1: "core_inv c D s1" by (rule close_core [OF inv own1 eq m1])
  show ?thesis
  proof (rule drop_vma_core [OF inv1], rule notI)
    fix p m assume p: "p \<in> listed s1" and m: "mrs s1 p = Some m" and mp: "gdr_mr_is_mapped m"
      and w: "mr_vma m = Some v"
    have a1: "vmas s1 v = Some a" using a eq by simp
    obtain f i where f: "vm_file a = Some f" "private_data s1 f = Some i" "p \<in> set (mr_list i)"
      and h: "mr_handle m = vm_pgoff a"
      using vma_link_file [OF inv1 p m mp w a1] by blast
    have i: "private_data s f = Some i" using f eq by simp
    obtain n where n: "mrs s p = Some n" using inv_mr [OF own i f(3)] .
    have "mr_handle n = vm_pgoff a"
      using m1 f i m h n by (auto simp: close_mrs_def split: option.splits if_splits)
    from mapped_pick [OF inv i f(3) n this] have "mr_cpu_mapping_type m = GDR_MR_NONE"
      using m1 f i m by (auto simp: close_mrs_def)
    then show False using mp by (simp add: gdr_mr_is_mapped_def)
  qed
qed

text \<open>
  An mmap through the new VMA \<open>v\<close> that has changed one region, the one its handle names: it is mapped
  through \<open>v\<close> or not at all.
\<close>

lemma mmap_core_region:
  assumes inv: "core_inv c D s" and own1: "own_inv (dom D) s1" and fl: "vm_file a = Some f"
    and named: "named_region s f (vm_pgoff a)" and i: "private_data s f = Some i"
    and p: "pick_mr s (vm_pgoff a) (mr_list i) = Some p" and m: "mrs s p = Some m"
    and t: "t \<noteq> GDR_MR_NONE \<longrightarrow> vm = Some v"
    and s1: "mrs s1 = (mrs s)(p \<mapsto> m\<lparr>mr_vma := vm, mr_mapping := mp, mr_cpu_mapping_type := t\<rparr>)"
    and eq: "private_data s1 = private_data s" "vma_view s1 = vma_view s"
    and va: "vmas s v = Some a"
  shows "core_inv c D s1"
proof -
  have own: "own_inv (dom D) s" using inv by (simp add: core_inv_def)
  note pl = pick_mr_in [OF p]
  obtain q n where "q \<in> set (mr_list i)" "mrs s q = Some n" "mr_handle n = vm_pgoff a"
    using named i unfolding named_region_def by auto
  then have h: "mr_handle m = vm_pgoff a"
    using mapped_pick [OF inv i] p m by fastforce
  have pD: "p \<notin> dom D" using own i pl by (auto simp: own_inv_def listed_def)
  have "vma_view s1 v = Some (vma_core a)" using eq(2) va by (simp add: vma_view_def)
  then obtain b where b: "vmas s1 v = Some b" "vm_file b = Some f" "vm_pgoff b = vm_pgoff a"
    using fl by (auto simp: vma_view_def vma_core_def)
  have one: "g = f" if "private_data s g = Some k" "p \<in> set (mr_list k)" for g k
    using own_one_file [OF own i that(1) pl that(2)] .
  show ?thesis
    by (rule in_place_core [OF inv own1 m s1 eq(1)])
      (use t pD b h one in \<open>auto simp: gdr_mr_is_mapped_def eq(2)\<close>)
qed

lemma mmap_core:
  assumes inv: "core_inv c D s" and cfg: "page_cfg c" and v: "vmas s v = None"
    and fl: "vm_file a = Some f" and named: "named_region s f (vm_pgoff a)"
    and al: "take_bit (PAGE_SHIFT c) (vm_end a - vm_start a) = 0"
    and ty: "\<forall>p m. mrs s p = Some m \<longrightarrow> map_type_ok c s m"
    and run: "gdrdrv_mmap c remap tg f v (set_vma v a s) = Inr (r, s')"
  shows "core_inv c D (if r = 0 then s' else drop_vma v s')"
proof -
  let ?s = "set_vma v a s"
  have inv0: "core_inv c D ?s" by (rule set_vma_core [OF inv v])
  then have own: "own_inv (dom D) ?s" by (simp add: core_inv_def)
  have va: "vmas ?s v = Some a" by simp
  have ty': "\<forall>p m. mrs ?s p = Some m \<longrightarrow> map_type_ok c ?s m"
    using ty by (simp add: map_type_ok_def)
  have eq: "private_data s' = private_data ?s" "vma_view s' = vma_view ?s"
    and cs: "mrs s' = mrs ?s \<or>
     (\<exists>i p m vm mp t. private_data ?s f = Some i \<and> pick_mr ?s (vm_pgoff a) (mr_list i) = Some p \<and>
        mrs ?s p = Some m \<and> mr_sem m = SemFree \<and> (t \<noteq> GDR_MR_NONE \<longrightarrow> r = 0 \<and> vm = Some v) \<and>
        mrs s' = (mrs ?s)(p \<mapsto> m\<lparr>mr_vma := vm, mr_mapping := mp, mr_cpu_mapping_type := t\<rparr>))"
    and own1: "own_inv (dom D) s'"
    using mmap_effect [OF own cfg va al ty', where remap = remap and tg = tg and f = f]
      mmap_inv [OF own cfg va al ty', where remap = remap and tg = tg and f = f] run by auto
  have named': "named_region ?s f (vm_pgoff a)" using named by (simp add: named_region_def)
  have inv1: "core_inv c D s'"
    using cs
  proof
    assume "mrs s' = mrs ?s"
    then show ?thesis using core_same_mrs [OF inv0 own1 _ eq(1)] eq(2) by simp
  next
    assume "\<exists>i p m vm mp t. private_data ?s f = Some i \<and> pick_mr ?s (vm_pgoff a) (mr_list i) = Some p \<and>
        mrs ?s p = Some m \<and> mr_sem m = SemFree \<and> (t \<noteq> GDR_MR_NONE \<longrightarrow> r = 0 \<and> vm = Some v) \<and>
        mrs s' = (mrs ?s)(p \<mapsto> m\<lparr>mr_vma := vm, mr_mapping := mp, mr_cpu_mapping_type := t\<rparr>)"
    then show ?thesis using mmap_core_region [OF inv0 own1 fl named' _ _ _ _ _ eq va] by blast
  qed
  have "core_inv c D (drop_vma v s')" if "r \<noteq> 0"
  proof (rule drop_vma_core [OF inv1])
    fix q k assume q: "q \<in> listed s'" and k: "mrs s' q = Some k" and mp: "gdr_mr_is_mapped k"
    have "mrs s q = Some k"
      using cs k mp that by (auto simp: gdr_mr_is_mapped_def split: if_splits)
    moreover have "q \<in> listed s" using q eq(1) by (simp add: listed_def)
    ultimately show "mr_vma k \<noteq> Some v" using fresh_vma_unlinked [OF inv v] mp by blast
  qed
  then show ?thesis using inv1 by simp
qed

lemma release_core:
  assumes inv: "core_inv c0 D s" and run: "gdrdrv_release c x f s = Inr (r, s')"
  shows "core_inv c0 D s'"
proof (cases "private_data s f")
  case None
  then show ?thesis using run inv by (simp add: gdrdrv_release_def)
next
  case (Some i)
  have own: "own_inv (dom D) s" using inv by (simp add: core_inv_def)
  obtain s1 where s1: "gdrdrv_release c x f s = Inr (0, s1)" "own_inv (dom D) s1"
    "private_data s1 = (private_data s)(f := None)" "mrs s1 = (mrs s) |` (- set (mr_list i))" "vmas s1 = vmas s"
    using release_inv [OF own Some] by blast
  have eq: "s1 = s'" using s1(1) run by simp
  note s' = s1(2-4) [unfolded eq] and vs = s1(5) [unfolded eq]
  have sub: "mrs s p = Some m" if "mrs s' p = Some m" for p m
    using that s'(3) by (simp add: restrict_map_def split: if_splits)
  have "sys_handles c0 s'"
    unfolding sys_handles_def
  proof (intro allI impI)
    fix g j assume "private_data s' g = Some j"
    then have j: "private_data s g = Some j" using s'(2) by (simp split: if_splits)
    show "handles_ok c0 s' j"
      by (rule handles_ok_same [of c0 s j]) (use j inv sub in \<open>auto simp: core_inv_def sys_handles_def\<close>)
  qed
  moreover have "vma_link s'"
    unfolding vma_link_def vs
  proof (intro allI impI)
    fix g j p m w
    assume "private_data s' g = Some j" "p \<in> set (mr_list j)" "mrs s' p = Some m"
      "gdr_mr_is_mapped m" "mr_vma m = Some w"
    moreover have "private_data s g = Some j" using \<open>private_data s' g = Some j\<close> s'(2)
      by (simp split: if_splits)
    ultimately show "\<exists>a. vmas s w = Some a \<and> vm_file a = Some g \<and> vm_pgoff a = mr_handle m"
      using inv sub unfolding core_inv_def vma_link_def by blast
  qed
  moreover have "detached_ok s' D"
    unfolding detached_ok_def
  proof (intro allI impI)
    fix p pt assume p: "D p = Some pt"
    then have "p \<notin> set (mr_list i)" using own_detached [OF own p Some] by simp
    then have "mrs s' p = mrs s p" using s'(3) by simp
    then show "\<exists>m. mrs s' p = Some m \<and> mr_sem m = SemFree \<and> \<not> gdr_mr_is_mapped m \<and>
        (pt = None \<longrightarrow> mr_page_table m = None)"
      using inv p unfolding core_inv_def detached_ok_def by simp
  qed
  ultimately show ?thesis using s'(1) by (simp add: core_inv_def)
qed

lemma ref_ok_step:
  assumes "sys_step c (s, D) (s', D')" and d: "detached_ok s D" and ok: "ref_ok s"
  shows "ref_ok s'"
  using assms(1)
proof cases
  case (step_open f mi ok' tg r)
  then show ?thesis using open_ref_ok ok by blast
next
  case (step_ioctl x tg f cmd u r out)
  then show ?thesis using ioctl_ref_ok ok by blast
next
  case (step_unpin_begin f h p s1 pt)
  have "ref_ok s1" using ref_ok_view [OF pt_view_detach [OF step_unpin_begin(2)]] ok by simp
  then show ?thesis using ref_ok_view [OF begin_view(1) [OF step_unpin_begin(3)]] by simp
next
  case (step_unpin_finish p pt x)
  obtain m where m: "mrs s p = Some m" "pt = None \<longrightarrow> mr_page_table m = None"
    using d step_unpin_finish(2) unfolding detached_ok_def by blast
  show ?thesis
    by (rule finish_ref_ok [OF step_unpin_finish(4) ok m(1)])
      (use m step_unpin_finish(3) in \<open>auto simp: put_doc_def\<close>)
next
  case (step_callback p m)
  then show ?thesis using callback_ref_ok ok by blast
next
  case (step_mmap v a f remap tg r s1)
  have "pt_view s1 = pt_view (set_vma v a s)" using mmap_ref_ok step_mmap(8) by blast
  then have "ref_ok s1 = ref_ok (set_vma v a s)" by (rule ref_ok_view)
  then have "ref_ok s1" using ok by simp
  then show ?thesis using step_mmap(1) by (auto simp: drop_vma_def)
next
  case (step_munmap v a s1)
  have "ref_ok s1" using ref_ok_view [OF vma_close_ref_ok [OF step_munmap(4)]] ok by simp
  then show ?thesis using step_munmap(1) by (simp add: drop_vma_def)
next
  case (step_release f x r)
  then show ?thesis using release_ref_ok ok by blast
qed

lemma sys_inv_step:
  assumes "sys_step c (s, D) (s', D')" and cfg: "page_cfg c" and inv: "sys_inv c (s, D)"
  shows "sys_inv c (s', D')"
proof -
  have core: "core_inv c D s" and ref: "ref_ok s" and d: "detached_ok s D"
    using inv by (simp_all add: sys_inv_def core_inv_def)
  have own: "own_inv (dom D) s" using core by (simp add: core_inv_def)
  have "core_inv c D' s'"
    using assms(1)
  proof cases
    case (step_ioctl x tg f cmd u r out)
    then show ?thesis using ioctl_specs_core [OF ioctl_refines [OF own] cfg core] by simp
  next
    case (step_mmap v a f remap tg r s1)
    then show ?thesis using mmap_core [OF core cfg] by simp
  next
    case (step_open f mi ok' tg r)
    then show ?thesis using open_core core by simp
  next
    case (step_unpin_begin f h p s1 pt)
    then show ?thesis using unpin_begin_core core by simp
  next
    case (step_unpin_finish p pt x)
    then show ?thesis using unpin_finish_core core by simp
  next
    case (step_callback p m)
    then show ?thesis using callback_core core by simp
  next
    case (step_munmap v a s1)
    then show ?thesis using munmap_core core by simp
  next
    case (step_release f x r)
    then show ?thesis using release_core core by simp
  qed
  then show ?thesis using ref_ok_step [OF assms(1) d ref] by (simp add: sys_inv_def core_inv_def)
qed

lemma sys_inv_reach:
  assumes cfg: "page_cfg c" and "sys_reach c sd"
  shows "sys_inv c sd"
proof -
  obtain sd0 where init: "sys_init c sd0" and steps: "(sys_step c)\<^sup>*\<^sup>* sd0 sd"
    using assms(2) by (auto simp: sys_reach_def)
  from steps show ?thesis
  proof (induction rule: rtranclp_induct)
    case base
    then show ?case using sys_inv_init init by blast
  next
    case (step y z)
    then show ?case using sys_inv_step [OF _ cfg, of "fst y" "snd y" "fst z" "snd z"] by simp
  qed
qed

end
