(* ===== verification/Drv_Correct.thy ===== *)
theory Drv_Correct
  imports Drv_System
begin

text \<open>
  The properties of the driver: what holds in every reachable state, what each operation answers,
  and the places where the code does not do what it means to, as theorems about concrete runs.
\<close>

section \<open>A run of the system\<close>

text \<open>Load, open, pin and mmap on the example machine, state by state.\<close>

definition drv_of :: "(int \<times> 'a \<times> drv) run \<Rightarrow> drv" where
  "drv_of r = (case r of Inr (_, _, s) \<Rightarrow> s | Inl _ \<Rightarrow> drv_static)"

definition drv_of2 :: "(int \<times> drv) run \<Rightarrow> drv" where
  "drv_of2 r = (case r of Inr (_, s) \<Rightarrow> s | Inl _ \<Rightarrow> drv_static)"

definition ex_penv :: proc_env where
  "ex_penv = \<lparr>mk_dir = True, mk_params = True, mk_refcount = True\<rparr>"

definition ex_uarg :: uarg where
  "ex_uarg = \<lparr>ua_readable = True, ua_writable = True,
     ua_pin = \<lparr>pb_addr = 0x700000000, pb_size = 0x28000, pb_p2p_token = 0, pb_va_space = 0, pb_handle = 0\<rparr>,
     ua_pin_v2 = \<lparr>pv_addr = 0x700000000, pv_size = 0x28000, pv_flags = 0, pv_pad = 0, pv_handle = 0\<rparr>,
     ua_unpin = 0, ua_cb = \<lparr>cb_handle = 0, cb_flag = 0\<rparr>,
     ua_info = \<lparr>gi_handle = 0, gi_va = 0, gi_mapped_size = 0, gi_page_size = 0, gi_tsc_khz = 0,
                gi_tm_cycles = 0, gi_mapped = 0, gi_wc_mapping = 0\<rparr>,
     ua_info_v2 = \<lparr>gv_handle = 0, gv_va = 0, gv_mapped_size = 0, gv_page_size = 0, gv_tsc_khz = 0,
                gv_tm_cycles = 0, gv_mapping_type = 0\<rparr>,
     ua_attr = \<lparr>ga_attr = 1, ga_val = 0\<rparr>, ua_req = \<lparr>rq_handle = 0, rq_mapping_type = 1\<rparr>\<rparr>"

definition run_loaded :: drv where
  "run_loaded = fst (snd (gdrdrv_init ex_cfg 240 ex_penv drv_static None))"

definition run_opened :: drv where
  "run_opened = drv_of2 (gdrdrv_open 0 3 True 42 run_loaded)"

definition run_pinned :: drv where
  "run_pinned = drv_of (gdrdrv_ioctl ex_cfg ex_ext 42 3 GDRDRV_IOC_PIN_BUFFER ex_uarg run_opened)"

definition run_mapped :: drv where
  "run_mapped = drv_of2 (gdrdrv_mmap ex_cfg ex_remap 42 3 9 (set_vma 9 ex_vma run_pinned))"

lemma ex_page_cfg: "page_cfg ex_cfg"
  by (simp add: page_cfg_def ex_cfg_def)

lemma run_opened_eq: "run_opened = ex_open"
  by (simp add: run_opened_def run_loaded_def gdrdrv_init_def gdrdrv_open_def drv_static_def drv_of2_def
      ex_open_def ex_info_def ex_cfg_def Let_def)

lemma reach_step:
  "sys_reach c sd \<Longrightarrow> sys_step c sd sd' \<Longrightarrow> sys_reach c sd'"
  unfolding sys_reach_def by (meson rtranclp.rtrancl_into_rtrancl)

lemma drv_of_ok: "(case r of Inr (a, _, _) \<Rightarrow> a = 0 | Inl _ \<Rightarrow> False) \<Longrightarrow> \<exists>out. r = Inr (0, out, drv_of r)"
  by (auto simp: drv_of_def split: sum.splits)

lemma drv_of2_ok: "(case r of Inr (a, _) \<Rightarrow> a = 0 | Inl _ \<Rightarrow> False) \<Longrightarrow> r = Inr (0, drv_of2 r)"
  by (auto simp: drv_of2_def split: sum.splits)

lemma ex_docs: "get_pages_doc ex_ext" "put_pages_doc ex_ext"
  by (simp_all add: get_pages_doc_def put_pages_doc_def ex_ext_def)

lemma reach_opened: "sys_reach ex_cfg (run_opened, Map.empty)"
proof -
  have "sys_init ex_cfg (run_loaded, Map.empty)"
    unfolding sys_init_def run_loaded_def
    by (intro conjI exI [of _ 240] exI [of _ ex_penv] exI [of _ None]
        exI [of _ "snd (snd (gdrdrv_init ex_cfg 240 ex_penv drv_static None))"])
      (simp_all add: gdrdrv_init_def Let_def)
  then have "sys_reach ex_cfg (run_loaded, Map.empty)" unfolding sys_reach_def by blast
  moreover have "case gdrdrv_open 0 3 True 42 run_loaded of Inr (a, _) \<Rightarrow> a = 0 | Inl _ \<Rightarrow> False"
    by code_simp
  then have "gdrdrv_open 0 3 True 42 run_loaded = Inr (0, run_opened)"
    unfolding run_opened_def by (rule drv_of2_ok)
  moreover have "private_data run_loaded 3 = None"
    by (simp add: run_loaded_def gdrdrv_init_def drv_static_def Let_def)
  ultimately show ?thesis using reach_step step_open by blast
qed

lemma run_pin_ok: "\<exists>out. gdrdrv_ioctl ex_cfg ex_ext 42 3 GDRDRV_IOC_PIN_BUFFER ex_uarg run_opened
    = Inr (0, out, run_pinned)"
proof -
  have "case gdrdrv_ioctl ex_cfg ex_ext 42 3 GDRDRV_IOC_PIN_BUFFER ex_uarg run_opened of
      Inr (a, _, _) \<Rightarrow> a = 0 | Inl _ \<Rightarrow> False"
    by code_simp
  then show ?thesis unfolding run_pinned_def by (rule drv_of_ok)
qed

lemma reach_pinned: "sys_reach ex_cfg (run_pinned, Map.empty)"
proof -
  have "kmalloc_doc ex_ext run_opened"
    by (simp add: kmalloc_doc_def run_opened_eq ex_open_def)
  then show ?thesis using run_pin_ok reach_opened reach_step step_ioctl ex_docs by blast
qed

text \<open>The state after the pin, in full.\<close>

lemma ex_pin_core:
  "gdrdrv_pin_buffer_core ex_cfg ex_ext 3 0x700000000 0x28000 0 0 0 ex_open = Inr (0, Some 0, ex_pinned)"
proof -
  let ?m = "zero_mr\<lparr>mr_va := 0x700000000, mr_mapped_size := 0x30000\<rparr>"
  let ?m1 = "?m\<lparr>mr_sem := SemWriter, mr_page_table := Some ex_pt, mr_tm_cycles := 250, mr_tsc_khz := 2000\<rparr>"
  let ?s1 = "set_mr 7 ?m1 (ex_open\<lparr>nv_get_pages_refcount := 1\<rparr>)"
  let ?s2 = "set_mr 7 (?m1\<lparr>mr_page_size := 65536\<rparr>) (ex_open\<lparr>nv_get_pages_refcount := 1\<rparr>)"
  have 1: "pin_setup ex_cfg 7 0x700000000 0x28000 0 0 0 ex_open = (0, 0, set_mr 7 ?m ex_open)"
    by (simp add: pin_setup_def Let_def ex_cfg_def zero_mr_def gdr_use_persistent_mapping_def
        GPU_PAGE_MASK_def GPU_PAGE_OFFSET_def GPU_PAGE_SIZE_def GPU_PAGE_SHIFT_def
        GDRDRV_PIN_BUFFER_FLAG_DEFAULT_def)
  have 2: "pin_get_pages ex_cfg ex_ext 7 0 (set_mr 7 ?m ex_open) = Inr (0, ?s1)"
    by (simp add: pin_get_pages_def down_write_def ex_cfg_def ex_ext_def zero_mr_def set_mr_def
        gdr_use_persistent_mapping_def Let_def ex_open_def)
  have 3: "pin_check_page_table ex_cfg 7 0 ?s1 = Inr (0, ?s2)"
    by (simp add: pin_check_page_table_def NVIDIA_P2P_PAGE_TABLE_VERSION_COMPATIBLE_def ex_pt_def
        NVIDIA_P2P_VERSION_COMPATIBLE_def ex_cfg_def)
  have 4: "pin_publish ex_cfg 3 7 0 ?s2 = Inr (0, Some 0, ex_pinned)"
    by (simp add: pin_publish_def mutex_lock_def gdr_generate_mr_handle_def ex_open_def ex_info_def Let_def
        handle_pages_def list_add_def up_write_def mutex_unlock_def set_mr_def set_info_def max_def
        ex_pinned_def ex_mr_def zero_mr_def ex_cfg_def)
  have k: "x_kmalloc ex_ext = Some 7" by (simp add: ex_ext_def)
  show ?thesis
    by (simp add: gdrdrv_pin_buffer_core_def k 1 2 3 4 pin_out_def)
qed

lemma run_pinned_eq: "run_pinned = ex_pinned"
proof -
  have "gdrdrv_ioctl ex_cfg ex_ext 42 3 GDRDRV_IOC_PIN_BUFFER ex_uarg ex_open =
      gdrdrv_pin_buffer ex_cfg ex_ext 3 ex_uarg ex_open"
    by (simp add: gdrdrv_ioctl_def ioc_defs IOC_TYPE_def ex_open_def ex_info_def
        gdrdrv_check_same_process_def)
  also have "\<dots> = Inr (0, OutPin (ua_pin ex_uarg\<lparr>pb_handle := 0\<rparr>), ex_pinned)"
    by (simp add: gdrdrv_pin_buffer_def ex_uarg_def GDRDRV_PIN_BUFFER_FLAG_DEFAULT_def ex_pin_core
        copy_to_user_def)
  finally show ?thesis by (simp add: run_pinned_def run_opened_eq drv_of_def)
qed

lemma ex_reach: "sys_reach ex_cfg (ex_pinned, Map.empty)"
  using reach_pinned by (simp add: run_pinned_eq)

lemma ex_named: "named_region ex_pinned 3 (vm_pgoff ex_vma)"
  by (simp add: named_region_def ex_defs)

lemma ex_map_types: "\<forall>p m. mrs ex_pinned p = Some m \<longrightarrow> map_type_ok ex_cfg ex_pinned m"
  by (simp add: map_type_ok_def mmap_mapping_type_def gdr_mr_supports_cache_mapping_def ex_defs)

lemma run_mmap_ok: "gdrdrv_mmap ex_cfg ex_remap 42 3 9 (set_vma 9 ex_vma ex_pinned) = Inr (0, run_mapped)"
proof -
  have "case gdrdrv_mmap ex_cfg ex_remap 42 3 9 (set_vma 9 ex_vma ex_pinned) of
      Inr (a, _) \<Rightarrow> a = 0 | Inl _ \<Rightarrow> False"
    by code_simp
  then show ?thesis unfolding run_mapped_def run_pinned_eq by (rule drv_of2_ok)
qed

lemma reach_mapped: "sys_reach ex_cfg (run_mapped, Map.empty)"
proof -
  have "sys_step ex_cfg (ex_pinned, Map.empty) (if (0::int) = 0 then run_mapped else drop_vma 9 run_mapped, Map.empty)"
    by (rule step_mmap [OF _ _ ex_named _ ex_map_types run_mmap_ok]) (simp_all add: ex_defs take_bit_eq_mod)
  then show ?thesis using reach_step [OF ex_reach] by simp
qed

section \<open>Every reachable state\<close>

lemma reach_core: "page_cfg c \<Longrightarrow> sys_reach c (s, D) \<Longrightarrow> core_inv c D s"
  using sys_inv_reach by (fastforce simp: sys_inv_def core_inv_def)

lemma reach_own: "page_cfg c \<Longrightarrow> sys_reach c (s, D) \<Longrightarrow> own_inv (dom D) s"
  using reach_core by (simp add: core_inv_def)


text \<open>
  C2. The module-wide reference count of pinned GPU buffers is, in every reachable state, the
  number of regions that hold a page table: also while an unpin is half done, and when the NVIDIA
  driver's callback takes the pages back in between.
\<close>

theorem reach_refcount:
  assumes "page_cfg c" and "sys_reach c (s, D)"
  shows "nv_get_pages_refcount s = int (card {p. \<exists>m. mrs s p = Some m \<and> mr_page_table m \<noteq> None})"
  using sys_inv_reach [OF assms] by (simp add: sys_inv_def ref_ok_def pinned_def)

theorem reach_refcount_witness:
  "nv_get_pages_refcount run_mapped =
    int (card {p. \<exists>m. mrs run_mapped p = Some m \<and> mr_page_table m \<noteq> None})"
  by (rule reach_refcount [OF ex_page_cfg reach_mapped])

text \<open>
  C6. When every file has been closed and no unpin is half done, no region is left and unloading the
  module neither stops the kernel (BUG_ON) nor warns.
\<close>

theorem unload_clean:
  assumes "page_cfg c" and "sys_reach c (s, Map.empty)" and "private_data s = Map.empty"
  shows "mrs s = Map.empty \<and> gdrdrv_cleanup c s dir = Inr (None, False)"
proof -
  have "dom (mrs s) = {}"
    using reach_own [OF assms(1,2)] assms(3) by (simp add: own_inv_def listed_def)
  then have m: "mrs s = Map.empty" by simp
  have "ref_ok s" using sys_inv_reach [OF assms(1,2)] by (simp add: sys_inv_def)
  then have "nv_get_pages_refcount s = 0" using m by (simp add: ref_ok_def pinned_def)
  then show ?thesis using m
    by (cases dir) (simp_all add: gdrdrv_cleanup_def gdrdrv_procfs_cleanup_def)
qed

theorem unload_clean_witness:
  "mrs run_loaded = Map.empty \<and> gdrdrv_cleanup ex_cfg run_loaded None = Inr (None, False)"
proof -
  have "sys_init ex_cfg (run_loaded, Map.empty)"
    unfolding sys_init_def run_loaded_def
    by (intro conjI exI [of _ 240] exI [of _ ex_penv] exI [of _ None]
        exI [of _ "snd (snd (gdrdrv_init ex_cfg 240 ex_penv drv_static None))"])
      (simp_all add: gdrdrv_init_def Let_def)
  then have r: "sys_reach ex_cfg (run_loaded, Map.empty)" unfolding sys_reach_def by blast
  show ?thesis
    by (rule unload_clean [OF ex_page_cfg r])
      (simp add: run_loaded_def gdrdrv_init_def drv_static_def Let_def)
qed







end
