(* ===== verification/Drv_Answers.thy ===== *)
theory Drv_Answers
  imports Drv_Correct
begin

text \<open>
  What each operation of the driver answers and does, on the region its handle names, in any
  reachable state: lookup, pin, unpin, callback, queries, mapping-type requests, access checks.
\<close>

section \<open>Two regions\<close>




section \<open>Handles\<close>

text \<open>The region that bears a handle is the one the lookup picks.\<close>

lemma core_pick:
  assumes "core_inv c D s" and i: "private_data s f = Some i"
    and p: "p \<in> set (mr_list i)" and m: "mrs s p = Some m"
  shows "pick_mr s (mr_handle m) (mr_list i) = Some p"
proof -
  have own: "own_inv (dom D) s" and h: "handles_ok c s i"
    using assms(1) i by (simp_all add: core_inv_def sys_handles_def)
  show ?thesis
    by (rule pick_mr_hit [OF p m refl _ file_ok_live [OF inv_file [OF own i]]])
      (use handles_ok_inj [OF h _ p _ m] in auto)
qed

lemma reach_pick:
  assumes cfg: "page_cfg c" and reach: "sys_reach c (s, D)" and i: "private_data s f = Some i"
    and p: "p \<in> set (mr_list i)" and m: "mrs s p = Some m"
  shows "pick_mr s (mr_handle m) (mr_list i) = Some p"
  by (rule core_pick [OF reach_core [OF cfg reach] i p m])



text \<open>
  C8. Lookup after pin: a handle that a region of the file bears finds and locks exactly that region
  (as writer or as a reader), whatever the order of the list, and changes nothing else.
\<close>

theorem reach_lookup:
  assumes cfg: "page_cfg c" and reach: "sys_reach c (s, D)" and i: "private_data s f = Some i"
    and p: "p \<in> set (mr_list i)" and m: "mrs s p = Some m"
  shows "gdr_get_mr_from_handle f (mr_handle m) w s =
    Inr (Some p, set_mr p (m\<lparr>mr_sem := if w then SemWriter else SemReaders 1\<rparr>) s)"
proof -
  have ok: "file_ok s i" by (rule inv_file [OF reach_own [OF cfg reach] i])
  show ?thesis using get_mr_eq [OF i ok] reach_pick [OF cfg reach i p m] m by simp
qed

theorem reach_lookup_witness:
  "gdr_get_mr_from_handle 3 0 True ex_pinned =
    Inr (Some 7, set_mr 7 (ex_mr\<lparr>mr_sem := SemWriter\<rparr>) ex_pinned)"
  using reach_lookup [OF ex_page_cfg ex_reach, of 3 _ 7 ex_mr True]
  by (simp add: ex_pinned_def ex_mr_def zero_mr_def)





section \<open>Revocation\<close>

lemma detach_calls:
  assumes i: "private_data s f = Some i" and ok: "file_ok s i" and pick: "pick_mr s h (mr_list i) = Some p"
    and m: "mrs s p = Some m" "mr_sem m = SemFree"
    and mapped: "gdr_mr_is_mapped m" and v: "mr_vma m = Some v" "vmas s v = Some a"
  shows "\<exists>s1. unpin_detach c f h s = Inr (0, Some p, s1) \<and>
    calls s1 = calls s @ [UnmapRange (mr_mapping m) (push_bit (PAGE_SHIFT c) (vm_pgoff a)) (vm_end a - vm_start a)] \<and>
    mrs s1 p = Some (m\<lparr>mr_sem := SemWriter, mr_cpu_mapping_type := GDR_MR_NONE\<rparr>) \<and>
    nv_get_pages_refcount s1 = nv_get_pages_refcount s"
proof -
  let ?l = "set_info f (i\<lparr>info_lock := True\<rparr>) s"
  have nl: "\<not> info_lock i" using ok by (simp add: file_ok_def)
  have lock: "mutex_lock f s = Inr ?l" using i nl by (simp add: mutex_lock_def)
  have "pick_mr ?l h (mr_list i) = pick_mr s h (mr_list i)" by (simp add: pick_mr_def)
  then have look: "gdr_mr_from_handle_unlocked f h ?l = Inr (Some p)"
    using from_handle_eq [of ?l f "i\<lparr>info_lock := True\<rparr>" h] file_ok_live [OF ok] pick
    by (simp add: live_mrs_def)
  have mp: "gdr_mr_is_mapped (m\<lparr>mr_sem := SemWriter\<rparr>)" using mapped by (simp add: gdr_mr_is_mapped_def)
  show ?thesis
    using m v mp
    by (simp add: unpin_detach_def lock look down_write_def gdr_mr_destroy_all_mappings_def
        gdrdrv_zap_vma_def list_del_def mutex_unlock_def)
qed

text \<open>
  C3. Unpinning a mapped region revokes the user mapping before it gives the pages back: exactly the
  file range of the region's VMA is unmapped, and only then the page table is returned to the NVIDIA
  driver; the region is freed and the reference count drops by one.
\<close>

theorem unpin_revokes_first:
  assumes cfg: "page_cfg c" and reach: "sys_reach c (s, D)" and i: "private_data s f = Some i"
    and p: "p \<in> set (mr_list i)" and m: "mrs s p = Some m" and mapped: "mr_cpu_mapping_type m \<noteq> GDR_MR_NONE"
    and pt: "mr_page_table m = Some pt" and doc: "put_pages_doc x"
  shows "\<exists>v a s'. mr_vma m = Some v \<and> vmas s v = Some a \<and>
    gdrdrv_unpin_buffer_core c x f (mr_handle m) s = Inr (0, s') \<and>
    calls s' = calls s @ [UnmapRange (mr_mapping m) (push_bit (PAGE_SHIFT c) (vm_pgoff a)) (vm_end a - vm_start a),
                          PutPages (pt_id pt) 0] \<and>
    mrs s' p = None \<and> nv_get_pages_refcount s' = nv_get_pages_refcount s - 1"
proof -
  have ok: "file_ok s i" by (rule inv_file [OF reach_own [OF cfg reach] i])
  have mp: "gdr_mr_is_mapped m" using mapped by (simp add: gdr_mr_is_mapped_def)
  note k = core_mr [OF reach_core [OF cfg reach] m]
  then obtain v a where v: "mr_vma m = Some v" "vmas s v = Some a" using mp by (auto simp: vma_live_def)
  have pick: "pick_mr s (mr_handle m) (mr_list i) = Some p" by (rule reach_pick [OF cfg reach i p m])
  let ?m = "m\<lparr>mr_sem := SemWriter, mr_cpu_mapping_type := GDR_MR_NONE\<rparr>"
  obtain s1 where d: "unpin_detach c f (mr_handle m) s = Inr (0, Some p, s1)"
    "calls s1 = calls s @ [UnmapRange (mr_mapping m) (push_bit (PAGE_SHIFT c) (vm_pgoff a)) (vm_end a - vm_start a)]"
    "mrs s1 p = Some ?m" "nv_get_pages_refcount s1 = nv_get_pages_refcount s"
    using detach_calls [OF i ok pick m k(1) mp v] by blast
  have um: "\<not> gdr_mr_is_mapped ?m" by (simp add: gdr_mr_is_mapped_def)
  have st: "put_pages_status c x n pt = 0" for n using put_pages_doc_status [OF doc] .
  show ?thesis
    using v d um pt st
    by (intro exI [of _ v] exI [of _ a])
      (simp add: gdrdrv_unpin_buffer_core_def gdr_free_mr_unlocked_def gdr_free_mr_begin_def up_write_def
        gdr_free_mr_finish_def)
qed

lemma run_mapped_mr:
  "\<exists>i m. private_data run_mapped 3 = Some i \<and> mr_list i = [7] \<and> mrs run_mapped 7 = Some m \<and>
    mr_cpu_mapping_type m = GDR_MR_WC \<and> mr_page_table m = Some ex_pt \<and> mr_handle m = 0 \<and> mr_vma m = Some 9"
proof -
  have "(case private_data run_mapped 3 of Some i \<Rightarrow> mr_list i | None \<Rightarrow> []) = [7]" by code_simp
  then obtain i where "private_data run_mapped 3 = Some i" "mr_list i = [7]"
    by (cases "private_data run_mapped 3") auto
  moreover have "case mrs run_mapped 7 of Some m \<Rightarrow> mr_cpu_mapping_type m = GDR_MR_WC \<and>
      mr_page_table m = Some ex_pt \<and> mr_handle m = 0 \<and> mr_vma m = Some 9 | None \<Rightarrow> False"
    by code_simp
  ultimately show ?thesis by (cases "mrs run_mapped 7") auto
qed

theorem unpin_revokes_first_witness:
  "\<exists>s' r1 r2 r3. gdrdrv_unpin_buffer_core ex_cfg ex_ext 3 0 run_mapped = Inr (0, s') \<and>
    calls s' = calls run_mapped @ [UnmapRange r1 r2 r3, PutPages 1 0] \<and> mrs s' 7 = None"
proof -
  obtain i m where im: "private_data run_mapped 3 = Some i" "7 \<in> set (mr_list i)" "mrs run_mapped 7 = Some m"
    "mr_cpu_mapping_type m \<noteq> GDR_MR_NONE" "mr_page_table m = Some ex_pt" "mr_handle m = 0"
    using run_mapped_mr by auto
  have "pt_id ex_pt = 1" by (simp add: ex_pt_def)
  then show ?thesis
    using unpin_revokes_first [OF ex_page_cfg reach_mapped im(1-5) ex_docs(2)] im(6) by force
qed

text \<open>
  C10. The NVIDIA driver's callback takes a pinned region out of service for good: the page table is
  released first and the user mapping, if there is one, is zapped right after, inside the callback;
  from then on the region reports \<open>cb_flag\<close>, holds no page table and is not mapped.
\<close>

theorem callback_revokes:
  assumes cfg: "page_cfg c" and reach: "sys_reach c (s, D)" and m: "mrs s p = Some m"
    and pt: "mr_page_table m = Some pt"
  shows "\<exists>s' m'. gdrdrv_get_pages_free_callback c p s = Inr s' \<and> mrs s' p = Some m' \<and>
    mr_cb_flag m' \<and> mr_page_table m' = None \<and> mr_cpu_mapping_type m' = GDR_MR_NONE \<and> mr_sem m' = SemFree \<and>
    nv_get_pages_refcount s' = nv_get_pages_refcount s - 1 \<and>
    calls s' = calls s @ FreePageTable (pt_id pt) #
      (if mr_cpu_mapping_type m = GDR_MR_NONE then []
       else (case mr_vma m of None \<Rightarrow> []
         | Some v \<Rightarrow> (case vmas s v of None \<Rightarrow> []
           | Some a \<Rightarrow> [UnmapRange (mr_mapping m) (push_bit (PAGE_SHIFT c) (vm_pgoff a)) (vm_end a - vm_start a)])))"
proof -
  note k = core_mr [OF reach_core [OF cfg reach] m]
  show ?thesis
  proof (cases "mr_cpu_mapping_type m = GDR_MR_NONE")
    case True
    then show ?thesis using m k pt
      by (simp add: gdrdrv_get_pages_free_callback_def down_write_def up_write_def gdr_mr_is_mapped_def)
  next
    case False
    then obtain v a where "mr_vma m = Some v" "vmas s v = Some a"
      using k(2) by (auto simp: vma_live_def gdr_mr_is_mapped_def)
    then show ?thesis using m k(1) pt False
      by (simp add: gdrdrv_get_pages_free_callback_def down_write_def up_write_def gdr_mr_is_mapped_def
          gdr_mr_destroy_all_mappings_def gdrdrv_zap_vma_def)
  qed
qed

theorem callback_revokes_witness:
  "\<exists>s' m'. gdrdrv_get_pages_free_callback ex_cfg 7 run_mapped = Inr s' \<and> mrs s' 7 = Some m' \<and>
    mr_cb_flag m' \<and> mr_page_table m' = None"
proof -
  obtain m where "mrs run_mapped 7 = Some m" "mr_page_table m = Some ex_pt" using run_mapped_mr by auto
  from callback_revokes [OF ex_page_cfg reach_mapped this] show ?thesis by blast
qed

section \<open>Access and queries\<close>

text \<open>
  Only the process that opened the file may use it: from any other thread group every ioctl with
  the driver's magic number and every mmap is refused with -EACCES, before anything is looked at or
  changed.
\<close>

lemma other_process_refused:
  assumes "private_data s f = Some i" and "tgid i \<noteq> tg"
  shows "(IOC_TYPE cmd = GDRDRV_IOCTL \<longrightarrow> gdrdrv_ioctl c x tg f cmd u s = Inr (- EACCES, NoOut, s)) \<and>
    (\<forall>v a. vmas s v = Some a \<longrightarrow> gdrdrv_mmap c remap tg f v s = Inr (- EACCES, s))"
  using assms by (simp add: gdrdrv_ioctl_def gdrdrv_mmap_def gdrdrv_check_same_process_def)

lemma other_process_example:
  "gdrdrv_ioctl ex_cfg ex_ext 43 3 GDRDRV_IOC_UNPIN_BUFFER ex_uarg ex_open = Inr (- EACCES, NoOut, ex_open)"
  using other_process_refused [of ex_open 3 ex_info 43 GDRDRV_IOC_UNPIN_BUFFER ex_cfg ex_ext ex_uarg]
  by (simp add: ex_open_def ex_info_def ioc_defs IOC_TYPE_def)

text \<open>The query for the mapping type, from the invariant alone.\<close>

lemma info_v2_answer:
  assumes core: "core_inv c D s" and i: "private_data s f = Some i"
    and p: "p \<in> set (mr_list i)" and m: "mrs s p = Some m"
    and u: "ua_readable u" "ua_writable u" "gv_handle (ua_info_v2 u) = mr_handle m"
  shows "gdrdrv_get_info_v2 f u s = Inr (0, OutInfoV2 (ua_info_v2 u\<lparr>gv_va := mr_va m,
    gv_mapped_size := mr_mapped_size m, gv_page_size := mr_page_size m, gv_tm_cycles := mr_tm_cycles m,
    gv_tsc_khz := mr_tsc_khz m, gv_mapping_type := mr_type_val (mr_cpu_mapping_type m)\<rparr>), s)"
proof -
  have ok: "file_ok s i" using core i by (intro inv_file) (auto simp: core_inv_def)
  obtain k where "mrs s p = Some k"
    and get: "gdr_get_mr_from_handle f (mr_handle m) False s = Inr (Some p, set_mr p (k\<lparr>mr_sem := SemReaders 1\<rparr>) s)"
    and put: "gdr_put_mr p False (set_mr p (k\<lparr>mr_sem := SemReaders 1\<rparr>) s) = Inr s"
    using get_read [OF i ok core_pick [OF core i p m]] by blast
  then show ?thesis
    using u m by (simp add: gdrdrv_get_info_v2_def copy_to_user_def Let_def)
qed

text \<open>
  C16. The three queries answer from the region that bears the handle and change nothing: the callback
  flag, the old information block (mapped, write-combined) and the new one (mapping type, decodable).
\<close>

theorem queries_answer:
  assumes cfg: "page_cfg c" and reach: "sys_reach c (s, D)" and i: "private_data s f = Some i"
    and p: "p \<in> set (mr_list i)" and m: "mrs s p = Some m"
    and u: "ua_readable u" "ua_writable u"
  shows "(cb_handle (ua_cb u) = mr_handle m \<longrightarrow> gdrdrv_get_cb_flag f u s =
       Inr (0, OutCb (ua_cb u\<lparr>cb_flag := of_bool32 (mr_cb_flag m)\<rparr>), s)) \<and>
    (gi_handle (ua_info u) = mr_handle m \<longrightarrow> (\<exists>g. gdrdrv_get_info f u s = Inr (0, OutInfo g, s) \<and>
       gi_va g = mr_va m \<and> gi_mapped_size g = mr_mapped_size m \<and> gi_page_size g = mr_page_size m \<and>
       (gi_mapped g = 1 \<longleftrightarrow> mr_cpu_mapping_type m \<noteq> GDR_MR_NONE) \<and>
       (gi_wc_mapping g = 1 \<longleftrightarrow> mr_cpu_mapping_type m = GDR_MR_WC))) \<and>
    (gv_handle (ua_info_v2 u) = mr_handle m \<longrightarrow> (\<exists>g. gdrdrv_get_info_v2 f u s = Inr (0, OutInfoV2 g, s) \<and>
       gv_va g = mr_va m \<and> gv_mapped_size g = mr_mapped_size m \<and> gv_page_size g = mr_page_size m \<and>
       gv_tm_cycles g = mr_tm_cycles m \<and> gv_tsc_khz g = mr_tsc_khz m \<and>
       mr_type_of (gv_mapping_type g) = Some (mr_cpu_mapping_type m)))"
proof -
  have ok: "file_ok s i" by (rule inv_file [OF reach_own [OF cfg reach] i])
  have pick: "pick_mr s (mr_handle m) (mr_list i) = Some p" by (rule reach_pick [OF cfg reach i p m])
  obtain k where "mrs s p = Some k"
    and get: "gdr_get_mr_from_handle f (mr_handle m) False s = Inr (Some p, set_mr p (k\<lparr>mr_sem := SemReaders 1\<rparr>) s)"
    and put: "gdr_put_mr p False (set_mr p (k\<lparr>mr_sem := SemReaders 1\<rparr>) s) = Inr s"
    using get_read [OF i ok pick] by blast
  then have k: "k = m" using m by simp
  show ?thesis
    using u get put unfolding k
    by (simp add: gdrdrv_get_cb_flag_def gdrdrv_get_info_def gdrdrv_get_info_v2_def copy_to_user_def Let_def
        of_bool32_def gdr_mr_is_mapped_def)
qed

theorem queries_answer_witness:
  "\<exists>g. gdrdrv_get_info_v2 3 ex_uarg run_mapped = Inr (0, OutInfoV2 g, run_mapped) \<and>
     mr_type_of (gv_mapping_type g) = Some GDR_MR_WC"
proof -
  obtain i m where im: "private_data run_mapped 3 = Some i" "7 \<in> set (mr_list i)" "mrs run_mapped 7 = Some m"
    and t: "mr_cpu_mapping_type m = GDR_MR_WC" "mr_handle m = 0"
    using run_mapped_mr by auto
  have u: "ua_readable ex_uarg" "ua_writable ex_uarg" "gv_handle (ua_info_v2 ex_uarg) = 0"
    by (simp_all add: ex_uarg_def)
  show ?thesis using queries_answer [OF ex_page_cfg reach_mapped im u(1,2)] t u(3) by auto
qed

lemma req_type_answer:
  assumes core: "core_inv c D s" and i: "private_data s f = Some i"
    and p: "p \<in> set (mr_list i)" and m: "mrs s p = Some m"
    and u: "ua_readable u" "rq_handle (ua_req u) = mr_handle m"
    and ty: "mr_type_of (rq_mapping_type (ua_req u)) = Some ty"
  shows "gdrdrv_req_mapping_type c f u s =
    (if mr_cpu_mapping_type m \<noteq> GDR_MR_NONE then Inr (- EBUSY, NoOut, s)
     else if ty = GDR_MR_CACHING \<and> \<not> gdr_mr_supports_cache_mapping c s m \<or>
             ty = GDR_MR_WC \<and> cpu_must_use_device_mapping s \<or>
             ty = GDR_MR_DEVICE \<and> \<not> cpu_must_use_device_mapping s
     then Inr (- EOPNOTSUPP, NoOut, s)
     else Inr (0, NoOut, set_mr p (m\<lparr>mr_req_mapping_type := ty\<rparr>) s))"
proof -
  have ok: "file_ok s i" using core i by (intro inv_file) (auto simp: core_inv_def)
  have pick: "pick_mr s (mr_handle m) (mr_list i) = Some p" by (rule core_pick [OF core i p m])
  have k: "mr_sem m = SemFree" using core_mr [OF core m] by simp
  have cache: "gdr_mr_supports_cache_mapping c (set_mr p n s) (m\<lparr>mr_sem := w\<rparr>) =
      gdr_mr_supports_cache_mapping c s m" for n w
    unfolding gdr_mr_supports_cache_mapping_def pfn_is_ram_cong by simp
  have same: "set_mr p m s = s" using m by (simp add: set_mr_same)
  show ?thesis
    using m k u ty pick
    by (simp add: gdrdrv_req_mapping_type_def get_mr_eq [OF i ok] put_write mr_sem_same same cache
        gdr_mr_is_mapped_def)
qed

text \<open>
  C14. A requested mapping type is accepted exactly when it makes sense: not for a mapped region
  (-EBUSY), cached only when the platform supports it for these pages, write-combined not where the
  CPU must use device mappings, device only there (-EOPNOTSUPP); on success it is recorded in the
  region and nothing else changes, on failure nothing changes.
\<close>

theorem req_mapping_type_answer:
  assumes cfg: "page_cfg c" and reach: "sys_reach c (s, D)" and i: "private_data s f = Some i"
    and p: "p \<in> set (mr_list i)" and m: "mrs s p = Some m"
    and u: "ua_readable u" "rq_handle (ua_req u) = mr_handle m"
    and ty: "mr_type_of (rq_mapping_type (ua_req u)) = Some ty"
  shows "gdrdrv_req_mapping_type c f u s =
    (if mr_cpu_mapping_type m \<noteq> GDR_MR_NONE then Inr (- EBUSY, NoOut, s)
     else if ty = GDR_MR_CACHING \<and> \<not> gdr_mr_supports_cache_mapping c s m \<or>
             ty = GDR_MR_WC \<and> cpu_must_use_device_mapping s \<or>
             ty = GDR_MR_DEVICE \<and> \<not> cpu_must_use_device_mapping s
     then Inr (- EOPNOTSUPP, NoOut, s)
     else Inr (0, NoOut, set_mr p (m\<lparr>mr_req_mapping_type := ty\<rparr>) s))"
  by (rule req_type_answer [OF reach_core [OF cfg reach] i p m u ty])

theorem req_mapping_type_answer_witness:
  "gdrdrv_req_mapping_type ex_cfg 3 ex_uarg ex_pinned =
    Inr (0, NoOut, set_mr 7 (ex_mr\<lparr>mr_req_mapping_type := GDR_MR_WC\<rparr>) ex_pinned)"
proof -
  have i: "private_data ex_pinned 3 = Some (ex_info\<lparr>mr_list := [7], next_handle := 0x30\<rparr>)"
    and p: "7 \<in> set (mr_list (ex_info\<lparr>mr_list := [7], next_handle := 0x30\<rparr>))"
    and m: "mrs ex_pinned 7 = Some ex_mr" and r: "ua_readable ex_uarg"
    and h: "rq_handle (ua_req ex_uarg) = mr_handle ex_mr"
    and ty: "mr_type_of (rq_mapping_type (ua_req ex_uarg)) = Some GDR_MR_WC"
    by (simp_all add: ex_pinned_def ex_uarg_def ex_mr_def zero_mr_def mr_type_of_def)
  show ?thesis
    using req_mapping_type_answer [OF ex_page_cfg ex_reach i p m r h ty]
    by (simp add: ex_pinned_def ex_open_def ex_mr_def zero_mr_def)
qed

end
