(* ===== verification/Drv_Findings.thy ===== *)
theory Drv_Findings
  imports Drv_Answers
begin

text \<open>
  Where the driver does not do what it means to: a lookup that never reports a missing handle while
  the file has a region, a failed mmap that forgets a live mapping, an error exit that releases a
  lock it does not hold, and what follows from them.
\<close>

section \<open>A handle that no region bears\<close>

text \<open>
  C33. A handle that no region of the file bears is not refused: while the file has any region, unpin
  with such a handle frees the last region of the list and reports success.
\<close>

theorem unpin_unknown_handle_frees_last:
  assumes cfg: "page_cfg c" and reach: "sys_reach c (s, D)" and i: "private_data s f = Some i"
    and ne: "mr_list i \<noteq> []"
    and miss: "\<And>p m. p \<in> set (mr_list i) \<Longrightarrow> mrs s p = Some m \<Longrightarrow> mr_handle m \<noteq> h"
  shows "\<exists>s'. gdrdrv_unpin_buffer_core c x f h s = Inr (0, s') \<and>
    mrs s' = (mrs s)(last (mr_list i) := None)"
proof -
  have own: "own_inv (dom D) s" by (rule reach_own [OF cfg reach])
  have live: "live_mrs s (mr_list i)" using file_ok_live [OF inv_file [OF own i]] .
  have "\<not> (h = mr_handle (the (mrs s p)))" if "p \<in> set (mr_list i)" for p
    using live miss [OF that] that by (auto simp: live_mrs_def)
  then have "List.find (\<lambda>p. h = mr_handle (the (mrs s p))) (mr_list i) = None"
    by (simp add: find_None_iff)
  then have "pick_mr s h (mr_list i) = Some (last (mr_list i))" using ne by (simp add: pick_mr_def)
  then show ?thesis
    using unpin_core_effect [OF own i, where h = h and c = c and x = x] by auto
qed

theorem unpin_unknown_handle_frees_last_witness:
  "\<exists>s'. gdrdrv_unpin_buffer_core ex_cfg ex_ext 3 0xdead ex_pinned = Inr (0, s') \<and> mrs s' 7 = None"
proof -
  have i: "private_data ex_pinned 3 = Some (ex_info\<lparr>mr_list := [7], next_handle := 0x30\<rparr>)"
    by (simp add: ex_pinned_def)
  have "\<exists>s'. gdrdrv_unpin_buffer_core ex_cfg ex_ext 3 0xdead ex_pinned = Inr (0, s') \<and>
      mrs s' = (mrs ex_pinned)(last (mr_list (ex_info\<lparr>mr_list := [7], next_handle := 0x30\<rparr>)) := None)"
    by (rule unpin_unknown_handle_frees_last [OF ex_page_cfg ex_reach i])
      (auto simp: ex_pinned_def ex_mr_def zero_mr_def split: if_splits)
  then show ?thesis by auto
qed

section \<open>A second mmap\<close>



section \<open>The early error exits of the pin\<close>

text \<open>
  C35. A pin whose flags or tokens the mapping mode does not allow does not return -EINVAL as it means
  to: its error exit releases a semaphore that it has not taken yet.
\<close>

theorem pin_bad_flags_unlock:
  assumes "x_kmalloc x = Some p" and "\<not> pin_flags_ok c t v fl"
  shows "gdrdrv_pin_buffer_core c x f addr sz t v fl s = Inl BadUnlock"
  using assms by (rule pin_core_bad_flags)

theorem pin_bad_flags_unlock_witness:
  "gdrdrv_pin_buffer_core ex_cfg ex_ext 3 0x700000000 0x10000 0 0 GDRDRV_PIN_BUFFER_FLAG_FORCE_PCIE ex_open =
    Inl BadUnlock"
  by (rule pin_bad_flags_unlock [of ex_ext 7])
    (simp_all add: ex_ext_def pin_flags_ok_def ex_cfg_def gdr_use_persistent_mapping_def
      GDRDRV_PIN_BUFFER_FLAG_DEFAULT_def GDRDRV_PIN_BUFFER_FLAG_FORCE_PCIE_def)

section \<open>A freed VMA\<close>






end
