(* ===== verification/Drv_Loops.thy ===== *)
theory Drv_Loops
  imports Drv_Handlers "HOL-Library.While_Combinator"
begin

text \<open>
  The loop of \<open>gdrdrv_io_remap_pfn_range\<close> as the source has it, with its own condition
  \<open>remaining_size > 0\<close> and no other bound: when it ends, what it computes, and what the
  \<open>BUG_ON\<close> before it is for.
\<close>

type_synonym chunk_state = "int \<times> u64 \<times> u64 \<times> u64 \<times> drv"

text \<open>\<open>status\<close>, \<open>chunk_vaddr\<close>, \<open>chunk_pfn\<close>, \<open>remaining_size\<close>; the \<open>break\<close> keeps the others.\<close>

definition chunk_cond :: "chunk_state \<Rightarrow> bool" where
  "chunk_cond st = (case st of (status, vaddr, pfn, remaining_size, s) \<Rightarrow> status = 0 \<and> remaining_size > 0)"

definition chunk_body :: "drv_cfg \<Rightarrow> remap_fn \<Rightarrow> nat \<Rightarrow> u64 \<Rightarrow> chunk_state \<Rightarrow> chunk_state" where
  "chunk_body c remap v prot st =
     (case st of (status, vaddr, pfn, remaining_size, s) \<Rightarrow>
        (let (status', s1) = gdrdrv_io_remap_pfn_range1 c remap v vaddr pfn (PAGE_SIZE c) prot s
         in if status' \<noteq> 0 then (status', vaddr, pfn, remaining_size, s1)
            else (0, vaddr + PAGE_SIZE c, pfn + 1, remaining_size - PAGE_SIZE c, s1)))"

definition chunk_loop ::
  "drv_cfg \<Rightarrow> remap_fn \<Rightarrow> nat \<Rightarrow> u64 \<Rightarrow> u64 \<Rightarrow> u64 \<Rightarrow> u64 \<Rightarrow> drv \<Rightarrow> (int \<times> drv) option" where
  "chunk_loop c remap v vaddr pfn sz prot s =
     map_option (\<lambda>(status, _, _, _, s'). (status, s'))
       (while_option chunk_cond (chunk_body c remap v prot) (0, vaddr, pfn, sz, s))"

lemma mod_PAGE_SIZE_unat:
  assumes "page_cfg c"
  shows "sz mod PAGE_SIZE c = 0 \<longleftrightarrow> unat sz mod 2 ^ PAGE_SHIFT c = 0"
  by (simp add: word_unat_eq_iff unat_mod unat_PAGE_SIZE [OF assms])

text \<open>A whole number of pages is used up page by page.\<close>

lemma page_step:
  assumes cfg: "page_cfg c" and "sz mod PAGE_SIZE c = 0" and "0 < sz"
  shows "PAGE_SIZE c \<le> sz" and "(sz - PAGE_SIZE c) mod PAGE_SIZE c = 0" and "unat (sz - PAGE_SIZE c) < unat sz"
proof -
  let ?P = "2 ^ PAGE_SHIFT c :: nat"
  have m: "unat sz mod ?P = 0" using assms(2) mod_PAGE_SIZE_unat [OF cfg] by simp
  have "0 < unat sz" using assms(3) by (simp add: word_less_nat_alt)
  then have le: "?P \<le> unat sz" using m by (metis dvd_imp_le mod_0_imp_dvd)
  then show 1: "PAGE_SIZE c \<le> sz" by (simp add: word_le_nat_alt unat_PAGE_SIZE [OF cfg])
  have sub: "unat (sz - PAGE_SIZE c) = unat sz - ?P"
    using 1 by (simp add: unat_sub unat_PAGE_SIZE [OF cfg])
  have "(unat sz - ?P) mod ?P = 0" using m le by (metis le_mod_geq)
  then show "(sz - PAGE_SIZE c) mod PAGE_SIZE c = 0" using mod_PAGE_SIZE_unat [OF cfg] sub by simp
  show "unat (sz - PAGE_SIZE c) < unat sz" using sub le
    by (simp add: less_le_trans [of 0 "2 ^ PAGE_SHIFT c" "unat sz"])
qed

lemma chunk_loop_ends:
  assumes cfg: "page_cfg c" and "sz mod PAGE_SIZE c = 0"
  shows "chunk_loop c remap v vaddr pfn sz prot s = Some (remap_chunks c remap v vaddr pfn sz prot s)"
  using assms(2)
proof (induction "unat sz" arbitrary: vaddr pfn sz s rule: less_induct)
  case less
  have P: "0 < PAGE_SIZE c" by (simp add: word_less_nat_alt unat_PAGE_SIZE [OF cfg])
  obtain st s1 where call: "gdrdrv_io_remap_pfn_range1 c remap v vaddr pfn (PAGE_SIZE c) prot s = (st, s1)"
    by fastforce
  show ?case
  proof (cases "0 < sz")
    case False
    then have "sz = 0" using word_neq_0_conv by blast
    moreover have "PAGE_SIZE c \<noteq> 0" using P by auto
    ultimately show ?thesis
      by (simp add: chunk_loop_def while_option_unfold chunk_cond_def remap_chunks.simps [of c] not_le)
  next
    case True
    note pg = page_step [OF cfg less.prems True]
    show ?thesis
    proof (cases "st = 0")
      case True
      have "chunk_loop c remap v vaddr pfn sz prot s =
          chunk_loop c remap v (vaddr + PAGE_SIZE c) (pfn + 1) (sz - PAGE_SIZE c) prot s1"
        using \<open>0 < sz\<close> call True
        by (simp add: chunk_loop_def while_option_unfold [of _ _ "(0, vaddr, _)"] chunk_cond_def chunk_body_def)
      also have "\<dots> = Some (remap_chunks c remap v (vaddr + PAGE_SIZE c) (pfn + 1) (sz - PAGE_SIZE c) prot s1)"
        by (rule less.hyps [OF pg(3,2)])
      finally show ?thesis
        using P pg(1) call True by (subst remap_chunks.simps) simp
    next
      case False
      have "chunk_loop c remap v vaddr pfn sz prot s = Some (st, s1)"
        using \<open>0 < sz\<close> call False
        by (simp add: chunk_loop_def while_option_unfold chunk_cond_def chunk_body_def)
      then show ?thesis
        using P pg(1) call False by (subst remap_chunks.simps) simp
    qed
  qed
qed

text \<open>A size that is no whole number of pages never comes down to zero.\<close>

lemma odd_size_step:
  assumes cfg: "page_cfg c" and "sz mod PAGE_SIZE c \<noteq> 0"
  shows "0 < sz" and "(sz - PAGE_SIZE c) mod PAGE_SIZE c \<noteq> 0"
proof -
  show "0 < sz" using assms(2) by (metis mod_0 word_neq_0_conv)
  have P: "take_bit (PAGE_SHIFT c) (PAGE_SIZE c) = 0"
    by (simp add: mod_PAGE_SIZE [symmetric] word_unat_eq_iff unat_mod)
  show "(sz - PAGE_SIZE c) mod PAGE_SIZE c \<noteq> 0"
  proof
    assume "(sz - PAGE_SIZE c) mod PAGE_SIZE c = 0"
    then have z: "take_bit (PAGE_SHIFT c) (sz - PAGE_SIZE c) = 0" by (simp add: mod_PAGE_SIZE)
    have "take_bit (PAGE_SHIFT c) ((sz - PAGE_SIZE c) - (0 - PAGE_SIZE c)) = 0"
      by (rule take_bit_sub0 [OF z take_bit_sub0 [OF _ P]]) simp
    then show False using assms(2) by (simp add: mod_PAGE_SIZE)
  qed
qed

lemma chunk_loop_diverges:
  assumes cfg: "page_cfg c" and sz: "sz mod PAGE_SIZE c \<noteq> 0" and ok: "\<And>a p n q. remap a p n q = 0"
  shows "chunk_loop c remap v vaddr pfn sz prot s = None"
proof -
  let ?P = "\<lambda>st :: chunk_state. case st of (status, _, _, n, _) \<Rightarrow> status = 0 \<and> n mod PAGE_SIZE c \<noteq> 0"
  have keep: "?P (chunk_body c remap v prot st)" if "?P st" for st
    using that odd_size_step(2) [OF cfg] ok
    by (auto simp: chunk_body_def gdrdrv_io_remap_pfn_range1_def split: prod.splits)
  have "while_option chunk_cond (chunk_body c remap v prot) (0, vaddr, pfn, sz, s) = None"
  proof (rule ccontr)
    assume "\<not> ?thesis"
    then obtain t where t: "while_option chunk_cond (chunk_body c remap v prot) (0, vaddr, pfn, sz, s) = Some t"
      by blast
    have "?P t" by (rule while_option_rule [OF _ t]) (use keep sz in auto)
    moreover have "\<not> chunk_cond t" using t by (rule while_option_stop)
    ultimately show False using odd_size_step(1) [OF cfg] by (auto simp: chunk_cond_def)
  qed
  then show ?thesis by (simp add: chunk_loop_def)
qed

text \<open>
  C11. The loop of \<open>gdrdrv_io_remap_pfn_range\<close> over host pages, which counts \<open>remaining_size\<close> down to
  exactly zero, ends for every size that the \<open>BUG_ON\<close> before it lets through, whatever the calls
  answer, and does the calls of the model \<open>remap_chunks\<close>; for any other size it would never end as
  long as the calls succeed.
\<close>

theorem chunk_loop_terminates:
  assumes "page_cfg c"
  shows "if sz mod PAGE_SIZE c = 0
    then chunk_loop c remap v vaddr pfn sz prot s = Some (remap_chunks c remap v vaddr pfn sz prot s)
    else (\<forall>a p n q. remap a p n q = 0) \<longrightarrow> chunk_loop c remap v vaddr pfn sz prot s = None"
  using chunk_loop_ends [OF assms] chunk_loop_diverges [OF assms] by simp

theorem chunk_loop_terminates_witness:
  "chunk_loop ex_cfg ex_remap 9 0x7f0000000000 0x10000 0x3000 0x25 ex_open =
     Some (remap_chunks ex_cfg ex_remap 9 0x7f0000000000 0x10000 0x3000 0x25 ex_open) \<and>
   chunk_loop ex_cfg ex_remap 9 0x7f0000000000 0x10000 0x3001 0x25 ex_open = None"
proof -
  have cfg: "page_cfg ex_cfg" and sz: "PAGE_SIZE ex_cfg = 0x1000"
    by (simp_all add: page_cfg_def ex_cfg_def PAGE_SIZE_def)
  have rm: "ex_remap a p n q = 0" for a p n q by (simp add: ex_remap_def)
  show ?thesis
    using chunk_loop_terminates [OF cfg, of "0x3000" ex_remap 9 "0x7f0000000000" "0x10000" "0x25" ex_open]
      chunk_loop_terminates [OF cfg, of "0x3001" ex_remap 9 "0x7f0000000000" "0x10000" "0x25" ex_open]
    by (simp add: sz rm)
qed

end
