(* ===== verification/C_Text.thy ===== *)
theory C_Text
  imports Prelude 
begin

text \<open>
  What the sources use of the C library's text functions: \<open>%d\<close>, \<open>%lld\<close> (decimal output of an
  integer) and \<open>atoi\<close>, and that the second reads back what the first prints.
\<close>

section \<open>Decimal output\<close>

definition digit_char :: "nat \<Rightarrow> char" where
  "digit_char d = char_of (48 + d)"

fun dec_nat :: "nat \<Rightarrow> string" where
  "dec_nat n = (if n < 10 then [digit_char n] else dec_nat (n div 10) @ [digit_char (n mod 10)])"

declare dec_nat.simps [simp del]

definition dec_int :: "int \<Rightarrow> string" where
  "dec_int i = (if i < 0 then CHR ''-'' # dec_nat (nat (- i)) else dec_nat (nat i))"

section \<open>atoi\<close>

definition digit_of :: "char \<Rightarrow> nat option" where
  "digit_of x = (let k = of_char x :: nat in if 48 \<le> k \<and> k \<le> 57 then Some (k - 48) else None)"

definition isspace :: "char \<Rightarrow> bool" where
  "isspace x \<longleftrightarrow> (let k = of_char x :: nat in k = 32 \<or> 9 \<le> k \<and> k \<le> 13)"

text \<open>The digits up to the first character that is none.\<close>

fun read_digits :: "nat \<Rightarrow> string \<Rightarrow> nat" where
  "read_digits n [] = n"
| "read_digits n (x # xs) = (case digit_of x of None \<Rightarrow> n | Some d \<Rightarrow> read_digits (10 * n + d) xs)"

text \<open>For numerals that an \<open>int\<close> can hold; C leaves the others undefined.\<close>

definition atoi :: "string \<Rightarrow> int" where
  "atoi xs = (case dropWhile isspace xs of
       [] \<Rightarrow> 0
     | y # ys \<Rightarrow>
         if y = CHR ''-'' then - int (read_digits 0 ys)
         else if y = CHR ''+'' then int (read_digits 0 ys)
         else int (read_digits 0 (y # ys)))"

section \<open>Reading back what was printed\<close>

lemma digit_char_code: "d < 10 \<Longrightarrow> of_char (digit_char d) = (48 + d :: nat)"
  by (simp add: digit_char_def)

lemma digit_of_char: "d < 10 \<Longrightarrow> digit_of (digit_char d) = Some d"
  by (simp add: digit_of_def digit_char_code Let_def)

definition stops :: "string \<Rightarrow> bool" where
  "stops xs \<longleftrightarrow> (\<forall>y ys. xs = y # ys \<longrightarrow> digit_of y = None)"

lemma read_digits_stop: "stops xs \<Longrightarrow> read_digits n xs = n"
  by (cases xs) (simp_all add: stops_def)

lemma read_digits_step:
  "d < 10 \<Longrightarrow> read_digits m (digit_char d # xs) = read_digits (10 * m + d) xs"
  by (simp add: digit_of_char)

text \<open>Reading a printed number behind \<open>m\<close> multiplies \<open>m\<close> by a power of ten.\<close>

lemma read_dec_nat:
  "\<exists>k. \<forall>m xs. read_digits m (dec_nat n @ xs) = read_digits (m * 10 ^ k + n) xs"
proof (induction n rule: dec_nat.induct)
  case (1 n)
  show ?case
  proof (cases "n < 10")
    case True
    then show ?thesis
      by (intro exI [of _ 1]) (simp add: dec_nat.simps [of n] digit_of_char algebra_simps)
  next
    case False
    then obtain k where k: "\<And>m xs. read_digits m (dec_nat (n div 10) @ xs) =
        read_digits (m * 10 ^ k + n div 10) xs"
      using 1 by blast
    have "read_digits m (dec_nat n @ xs) = read_digits (m * 10 ^ Suc k + n) xs" for m xs
    proof -
      have "read_digits m (dec_nat n @ xs) =
          read_digits (10 * (m * 10 ^ k + n div 10) + n mod 10) xs"
        using False by (simp add: dec_nat.simps [of n] k digit_of_char)
      also have "10 * (m * 10 ^ k + n div 10) + n mod 10 = m * 10 ^ Suc k + n" by simp
      finally show ?thesis .
    qed
    then show ?thesis by blast
  qed
qed

lemma read_dec_nat0: "stops xs \<Longrightarrow> read_digits 0 (dec_nat n @ xs) = n"
  using read_dec_nat [of n] by (auto simp: read_digits_stop)

lemma dec_nat_head: "\<exists>d ys. d < 10 \<and> dec_nat n = digit_char d # ys"
proof (induction n rule: dec_nat.induct)
  case (1 n)
  then show ?case
    by (cases "n < 10") (auto simp: dec_nat.simps [of n])
qed

lemma atoi_dec_int:
  assumes "stops xs"
  shows "atoi (dec_int i @ xs) = i"
proof -
  have minus: "\<not> isspace (CHR ''-'')" by (simp add: isspace_def Let_def)
  have dig: "\<not> isspace (digit_char d) \<and> digit_char d \<noteq> CHR ''-'' \<and> digit_char d \<noteq> CHR ''+''"
    if "d < 10" for d
    using digit_char_code [OF that] by (auto simp: isspace_def Let_def)
  show ?thesis
  proof (cases "i < 0")
    case True
    then show ?thesis
      using read_dec_nat0 [OF assms, of "nat (- i)"] minus by (simp add: dec_int_def atoi_def)
  next
    case False
    obtain d ys where d: "d < 10" "dec_nat (nat i) = digit_char d # ys" using dec_nat_head by blast
    then show ?thesis
      using False read_dec_nat0 [OF assms, of "nat i"] dig [OF d(1)]
      by (simp add: dec_int_def atoi_def del: read_digits.simps)
  qed
qed

end
