(* ===== verification/Drv_Proc.thy ===== *)
theory Drv_Proc
  imports Drv_Correct C_Text
begin

text \<open>
  What the two files under /proc/driver/gdrdrv show (src/gdrdrv/gdrdrv.c): the parameters of the
  module, and the reference count of pinned buffers. Each function gives the text that it writes
  with \<open>seq_printf\<close>; opening, seeking and copying out are the kernel's seq_file functions.
\<close>

definition GDRDRV_MAJOR_VERSION :: nat where "GDRDRV_MAJOR_VERSION = 2"
definition GDRDRV_MINOR_VERSION :: nat where "GDRDRV_MINOR_VERSION = 5"

definition GDRDRV_VERSION_STRING :: string where
  "GDRDRV_VERSION_STRING = dec_nat GDRDRV_MAJOR_VERSION @ ''.'' @ dec_nat GDRDRV_MINOR_VERSION"

definition GDRDRV_BUILT_FOR_NVIDIA_FLAVOR_STRING :: "drv_cfg \<Rightarrow> string" where
  "GDRDRV_BUILT_FOR_NVIDIA_FLAVOR_STRING c = (if opensource c then ''opensource'' else ''proprietary'')"

definition newline :: string where "newline = [char_of (10 :: nat)]"

text \<open>\<open>dbg\<close> and \<open>info\<close> are the module parameters \<open>dbg_enabled\<close> and \<open>info_enabled\<close>.\<close>

definition gdrdrv_proc_params_read :: "drv_cfg \<Rightarrow> int \<Rightarrow> int \<Rightarrow> int \<times> string" where
  "gdrdrv_proc_params_read c dbg info =
     (0, ''Version: '' @ GDRDRV_VERSION_STRING @ newline @
         ''Built for NVIDIA driver flavor: '' @ GDRDRV_BUILT_FOR_NVIDIA_FLAVOR_STRING c @ newline @
         ''Use persistent mapping: '' @ (if gdr_use_persistent_mapping c then ''yes'' else ''no'') @ newline @
         ''dbg_enabled: '' @ dec_int dbg @ newline @
         ''info_enabled: '' @ dec_int info @ newline)"

definition gdrdrv_proc_ngp_refcount_read :: "drv \<Rightarrow> int \<times> string" where
  "gdrdrv_proc_ngp_refcount_read s = (0, dec_int (nv_get_pages_refcount s) @ newline)"

lemma stops_newline: "stops newline"
  by (simp add: stops_def newline_def digit_of_def Let_def)

lemma version_string: "GDRDRV_VERSION_STRING = ''2.5''"
  by code_simp

text \<open>The version that the ioctl reports is the one the file shows.\<close>

lemma version_numbers:
  "GDRDRV_VERSION = push_bit GDRDRV_MAJOR_VERSION_SHIFT (of_nat GDRDRV_MAJOR_VERSION) OR
     of_nat GDRDRV_MINOR_VERSION"
  by (simp add: GDRDRV_VERSION_def GDRDRV_MAJOR_VERSION_def GDRDRV_MINOR_VERSION_def
      GDRDRV_MAJOR_VERSION_SHIFT_def)

text \<open>
  C15. In every reachable state the text of /proc/driver/gdrdrv/nv_get_pages_refcount is one line
  whose number, read back with \<open>atoi\<close>, is the number of regions that hold a page table.
\<close>

theorem refcount_file_reads_back:
  assumes "page_cfg c" and "sys_reach c (s, D)"
  shows "\<exists>xs. gdrdrv_proc_ngp_refcount_read s = (0, xs @ newline) \<and>
    atoi (xs @ newline) = int (card {p. \<exists>m. mrs s p = Some m \<and> mr_page_table m \<noteq> None})"
proof -
  have "ref_ok s" using sys_inv_reach [OF assms] by (simp add: sys_inv_def)
  then have "nv_get_pages_refcount s = int (card {p. \<exists>m. mrs s p = Some m \<and> mr_page_table m \<noteq> None})"
    by (simp add: ref_ok_def pinned_def)
  then show ?thesis
    using atoi_dec_int [OF stops_newline] by (simp add: gdrdrv_proc_ngp_refcount_read_def)
qed

theorem refcount_file_reads_back_witness:
  "\<exists>xs. gdrdrv_proc_ngp_refcount_read run_mapped = (0, xs @ newline) \<and>
    atoi (xs @ newline) = int (card {p. \<exists>m. mrs run_mapped p = Some m \<and> mr_page_table m \<noteq> None})"
  by (rule refcount_file_reads_back [OF ex_page_cfg reach_mapped])

end
