(* ===== verification/Drv_Dummy.thy ===== *)
theory Drv_Dummy
  imports Drv_Answers
begin

text \<open>
  The dummy NVIDIA driver (src/gdrdrv/nv-p2p-dummy.c), against which the module is linked on a
  machine without the real one: every call fails. Loaded with it, the driver pins nothing.
\<close>

definition nvidia_p2p_init_mapping :: "u64 \<Rightarrow> int" where
  "nvidia_p2p_init_mapping p2p_token = - EINVAL"

definition nvidia_p2p_destroy_mapping :: "u64 \<Rightarrow> int" where
  "nvidia_p2p_destroy_mapping p2p_token = - EINVAL"

text \<open>The page table is written through a pointer in the real driver; here it is not.\<close>

definition nvidia_p2p_get_pages :: "u64 \<Rightarrow> u32 \<Rightarrow> u64 \<Rightarrow> u64 \<Rightarrow> int \<times> page_table option" where
  "nvidia_p2p_get_pages p2p_token va_space virtual_address len = (- EINVAL, None)"

definition nvidia_p2p_put_pages :: "u64 \<Rightarrow> u32 \<Rightarrow> u64 \<Rightarrow> page_table \<Rightarrow> int" where
  "nvidia_p2p_put_pages p2p_token va_space virtual_address pt = - EINVAL"

definition nvidia_p2p_free_page_table :: "page_table \<Rightarrow> int" where
  "nvidia_p2p_free_page_table pt = - EINVAL"

definition nvidia_p2p_get_pages_persistent :: "u64 \<Rightarrow> u64 \<Rightarrow> u32 \<Rightarrow> int \<times> page_table option" where
  "nvidia_p2p_get_pages_persistent virtual_address len flags = (- EINVAL, None)"

definition nvidia_p2p_put_pages_persistent :: "u64 \<Rightarrow> page_table \<Rightarrow> u32 \<Rightarrow> int" where
  "nvidia_p2p_put_pages_persistent virtual_address pt flags = - EINVAL"

definition nv_p2p_dummy_init :: int where "nv_p2p_dummy_init = 0"

definition dummy_ext :: "ext \<Rightarrow> ext" where
  "dummy_ext x = x\<lparr>x_get_pages := nvidia_p2p_get_pages, x_put_pages := nvidia_p2p_put_pages,
     x_get_pages_persistent := nvidia_p2p_get_pages_persistent,
     x_put_pages_persistent := nvidia_p2p_put_pages_persistent\<rparr>"

text \<open>The dummy answers as the documentation of the calls allows: a negative error.\<close>

lemma dummy_get_pages_doc: "get_pages_doc (dummy_ext x)"
  by (simp add: get_pages_doc_def dummy_ext_def nvidia_p2p_get_pages_def
      nvidia_p2p_get_pages_persistent_def EINVAL_def)

lemma dummy_pin_get_pages:
  assumes m: "mrs s p = Some m" "mr_sem m = SemFree"
  shows "pin_get_pages c (dummy_ext x) p gf s = Inr (- EINVAL, set_mr p (m\<lparr>mr_sem := SemWriter\<rparr>) s)"
  using m
  by (simp add: pin_get_pages_def down_write_def dummy_ext_def nvidia_p2p_get_pages_def
      nvidia_p2p_get_pages_persistent_def EINVAL_def)

text \<open>A pin over the dummy fails with the dummy's error and leaves regions, lists and count alone.\<close>

lemma dummy_pin_fails:
  assumes p: "x_kmalloc x = Some p" "mrs s p = None" and fl: "pin_flags_ok c t v fl"
  shows "\<exists>s'. gdrdrv_pin_buffer_core c (dummy_ext x) f addr sz t v fl s = Inr (- EINVAL, None, s') \<and>
    mrs s' = mrs s \<and> private_data s' = private_data s"
proof -
  obtain gf m where st: "pin_setup c p addr sz t v fl s = (0, gf, set_mr p m s)"
    and m: "fresh_mr c addr sz m" "mr_sem m = SemFree"
    using pin_setup_ok [OF fl] by blast
  let ?w = "set_mr p (m\<lparr>mr_sem := SemWriter\<rparr>) s"
  have um: "\<not> gdr_mr_is_mapped (m\<lparr>mr_sem := SemWriter\<rparr>)"
    using m(1) by (simp add: fresh_mr_def gdr_mr_is_mapped_def)
  have eq: "pin_get_pages c (dummy_ext x) p gf (set_mr p m s) = Inr (- EINVAL, ?w)"
    using dummy_pin_get_pages [of "set_mr p m s" p m c x gf] m(2) by simp
  obtain s2 where "pin_out c (dummy_ext x) p (- EINVAL, None, ?w) = Inr (- EINVAL, None, s2)"
    "mrs s2 = mrs s" "private_data s2 = private_data s"
    using pin_out_fail [of "- EINVAL" ?w s p "m\<lparr>mr_sem := SemWriter\<rparr>" c "dummy_ext x" None] um p(2)
    by (auto simp: EINVAL_def)
  moreover have "x_kmalloc (dummy_ext x) = Some p" using p(1) by (simp add: dummy_ext_def)
  ultimately show ?thesis
    using st eq by (simp add: gdrdrv_pin_buffer_core_def) (simp add: EINVAL_def)
qed

end
