(* ===== verification/Api_Types.thy ===== *)
theory Api_Types
  imports Drv_Ioctl
begin

text \<open>
  Data of the user-space library (src/gdrapi.c, src/gdrapi_internal.h, include/gdrapi.h): its
  version and flag constants, the handle objects, the library's global state, and the system
  calls it makes. A \<open>gdr_memh_t\<close> or \<open>struct gdr\<close> that the C code reaches through a pointer
  lives in a store under the address \<open>calloc\<close> gave it.
\<close>

section \<open>Constants of gdrapi.h and gdrdrv.h\<close>

definition MAJOR_VERSION_SHIFT :: nat where "MAJOR_VERSION_SHIFT = 16"
definition MINOR_VERSION_MASK :: u32 where
  "MINOR_VERSION_MASK = push_bit MAJOR_VERSION_SHIFT 1 - 1"
definition GDR_API_MAJOR_VERSION :: u32 where "GDR_API_MAJOR_VERSION = 2"
definition GDR_API_MINOR_VERSION :: u32 where "GDR_API_MINOR_VERSION = 5"
definition GDR_API_VERSION :: u32 where
  "GDR_API_VERSION = push_bit MAJOR_VERSION_SHIFT GDR_API_MAJOR_VERSION OR GDR_API_MINOR_VERSION"
definition MINIMUM_GDRDRV_VERSION :: u32 where
  "MINIMUM_GDRDRV_VERSION = push_bit MAJOR_VERSION_SHIFT 2 OR 0"

definition GDRDRV_MINIMUM_VERSION_WITH_GET_INFO_V2 :: u32 where
  "GDRDRV_MINIMUM_VERSION_WITH_GET_INFO_V2 = push_bit GDRDRV_MAJOR_VERSION_SHIFT 2 OR 4"
definition GDRDRV_MINIMUM_VERSION_WITH_GET_ATTR :: u32 where
  "GDRDRV_MINIMUM_VERSION_WITH_GET_ATTR = push_bit GDRDRV_MAJOR_VERSION_SHIFT 2 OR 5"
definition GDRDRV_MINIMUM_VERSION_WITH_PIN_BUFFER_V2 :: u32 where
  "GDRDRV_MINIMUM_VERSION_WITH_PIN_BUFFER_V2 = push_bit GDRDRV_MAJOR_VERSION_SHIFT 2 OR 5"
definition GDRDRV_MINIMUM_VERSION_WITH_REQ_MAPPING_TYPE :: u32 where
  "GDRDRV_MINIMUM_VERSION_WITH_REQ_MAPPING_TYPE = push_bit GDRDRV_MAJOR_VERSION_SHIFT 2 OR 5"

lemmas api_versions = MAJOR_VERSION_SHIFT_def MINOR_VERSION_MASK_def GDR_API_MAJOR_VERSION_def
  GDR_API_MINOR_VERSION_def GDR_API_VERSION_def MINIMUM_GDRDRV_VERSION_def
  GDRDRV_MINIMUM_VERSION_WITH_GET_INFO_V2_def GDRDRV_MINIMUM_VERSION_WITH_GET_ATTR_def
  GDRDRV_MINIMUM_VERSION_WITH_PIN_BUFFER_V2_def GDRDRV_MINIMUM_VERSION_WITH_REQ_MAPPING_TYPE_def
  GDRDRV_MAJOR_VERSION_SHIFT_def

definition GDR_PIN_FLAG_DEFAULT :: u32 where "GDR_PIN_FLAG_DEFAULT = 0"
definition GDR_PIN_FLAG_FORCE_PCIE :: u32 where "GDR_PIN_FLAG_FORCE_PCIE = 1"

text \<open>\<open>gdr_mapping_type_t\<close>, \<open>gdr_map_flags_t\<close> and \<open>gdr_attr_t\<close>, by value.\<close>

definition GDR_MAPPING_TYPE_NONE :: u32 where "GDR_MAPPING_TYPE_NONE = 0"
definition GDR_MAPPING_TYPE_WC :: u32 where "GDR_MAPPING_TYPE_WC = 1"
definition GDR_MAPPING_TYPE_CACHING :: u32 where "GDR_MAPPING_TYPE_CACHING = 2"
definition GDR_MAPPING_TYPE_DEVICE :: u32 where "GDR_MAPPING_TYPE_DEVICE = 3"
definition GDR_MAPPING_TYPE_MAX :: nat where "GDR_MAPPING_TYPE_MAX = 4"

lemmas mapping_types = GDR_MAPPING_TYPE_NONE_def GDR_MAPPING_TYPE_WC_def
  GDR_MAPPING_TYPE_CACHING_def GDR_MAPPING_TYPE_DEVICE_def GDR_MAPPING_TYPE_MAX_def

definition GDR_MAP_FLAG_DEFAULT :: int where "GDR_MAP_FLAG_DEFAULT = 0"
definition GDR_MAP_FLAG_REQ_WC_MAPPING :: int where "GDR_MAP_FLAG_REQ_WC_MAPPING = 1"
definition GDR_MAP_FLAG_REQ_CACHE_MAPPING :: int where "GDR_MAP_FLAG_REQ_CACHE_MAPPING = 2"
definition GDR_MAP_FLAG_REQ_DEVICE_MAPPING :: int where "GDR_MAP_FLAG_REQ_DEVICE_MAPPING = 3"

lemmas map_flags = GDR_MAP_FLAG_DEFAULT_def GDR_MAP_FLAG_REQ_WC_MAPPING_def
  GDR_MAP_FLAG_REQ_CACHE_MAPPING_def GDR_MAP_FLAG_REQ_DEVICE_MAPPING_def

definition GDR_ATTR_USE_PERSISTENT_MAPPING :: u32 where "GDR_ATTR_USE_PERSISTENT_MAPPING = 1"
definition GDR_ATTR_SUPPORT_PIN_FLAG_FORCE_PCIE :: u32 where
  "GDR_ATTR_SUPPORT_PIN_FLAG_FORCE_PCIE = 2"

section \<open>Handles and the library's state\<close>

record memh =
  mh_handle :: u32
  mh_mapping_type :: u32

record gdr =
  g_fd :: int
  g_memhs :: "nat list"       \<comment> \<open>the list from its head\<close>
  g_page_size :: u64
  g_page_mask :: u64
  g_page_shift :: u8
  g_gdrdrv_version :: u32

text \<open>
  The static variables of gdrapi.c (\<open>gdr_mapping_type_counters\<close> and the CPU flags) and the
  objects the library has allocated.
\<close>

record lib =
  memhs :: "nat \<rightharpoonup> memh"
  gdrs :: "nat \<rightharpoonup> gdr"
  gdr_mapping_type_counters :: "int list"
  has_sse :: bool
  has_sse2 :: bool
  has_sse4_1 :: bool
  has_avx :: bool
  has_avx2 :: u32

definition lib_static :: lib where
  "lib_static = \<lparr>memhs = Map.empty, gdrs = Map.empty, gdr_mapping_type_counters = [0, 0, 0, 0],
     has_sse = False, has_sse2 = False, has_sse4_1 = False, has_avx = False, has_avx2 = 0\<rparr>"

definition memh_at :: "nat \<Rightarrow> lib \<Rightarrow> memh run" where
  "memh_at p L = (case memhs L p of Some m \<Rightarrow> Inr m | None \<Rightarrow> Inl UseAfterFree)"

definition gdr_at :: "nat \<Rightarrow> lib \<Rightarrow> gdr run" where
  "gdr_at g L = (case gdrs L g of Some r \<Rightarrow> Inr r | None \<Rightarrow> Inl UseAfterFree)"

lemma memh_at_Inr [simp]: "memh_at p L = Inr m \<longleftrightarrow> memhs L p = Some m"
  by (simp add: memh_at_def split: option.splits)

lemma gdr_at_Inr [simp]: "gdr_at g L = Inr r \<longleftrightarrow> gdrs L g = Some r"
  by (simp add: gdr_at_def split: option.splits)

text \<open>
  \<open>to_memh\<close> and \<open>from_memh\<close> convert between the address of an object and the user's handle.
\<close>

definition gdr_is_mapped :: "u32 \<Rightarrow> bool" where
  "gdr_is_mapped mapping_type = (mapping_type \<noteq> GDR_MAPPING_TYPE_NONE)"

text \<open>The number of mapping types with live mappings, as the loop counts them.\<close>

primrec count_nonzero :: "int list \<Rightarrow> nat" where
  "count_nonzero [] = 0"
| "count_nonzero (n # ns) = (if n \<noteq> 0 then Suc (count_nonzero ns) else count_nonzero ns)"

definition gdr_has_mix_mapping :: "lib \<Rightarrow> bool" where
  "gdr_has_mix_mapping L = (count_nonzero (gdr_mapping_type_counters L) > 1)"

text \<open>\<open>++gdr_mapping_type_counters[ty]\<close> and \<open>--gdr_mapping_type_counters[ty]\<close>.\<close>

definition add_counter :: "u32 \<Rightarrow> int \<Rightarrow> lib \<Rightarrow> lib run" where
  "add_counter ty k L =
     (let ns = gdr_mapping_type_counters L; i = unat ty
      in if i < length ns then Inr (L\<lparr>gdr_mapping_type_counters := ns[i := ns ! i + k]\<rparr>)
         else Inl OutOfBounds)"

lemma count_nonzero_eq: "count_nonzero ns = length (filter (\<lambda>n. n \<noteq> 0) ns)"
  by (induction ns) simp_all

lemma two_nonzero:
  "i < length ns \<Longrightarrow> j < length ns \<Longrightarrow> i \<noteq> j \<Longrightarrow> ns ! i \<noteq> 0 \<Longrightarrow> ns ! j \<noteq> 0 \<Longrightarrow>
     1 < count_nonzero ns"
proof (induction ns arbitrary: i j)
  case (Cons n ns)
  have pos: "0 < count_nonzero ns" if "k < length ns" "ns ! k \<noteq> 0" for k
    using that nth_mem [of k ns] by (auto simp: count_nonzero_eq filter_empty_conv)
  show ?case
    using Cons.prems Cons.IH pos by (cases i; cases j) (auto simp: less_Suc_eq_0_disj)
qed simp

section \<open>System calls\<close>

text \<open>
  The kernel and the C library as the library sees them, over a state \<open>'d\<close> of their own: each
  call returns its result and the value of \<open>errno\<close> after it. \<open>ioctl\<close> is given the argument
  structure and returns what was written back to it.
\<close>

record 'd os =
  sys_open :: "'d \<Rightarrow> (int \<times> int \<times> 'd) run"
  sys_close :: "int \<Rightarrow> 'd \<Rightarrow> (int \<times> int \<times> 'd) run"
  sys_ioctl :: "int \<Rightarrow> u32 \<Rightarrow> uarg \<Rightarrow> 'd \<Rightarrow> (int \<times> int \<times> uout \<times> 'd) run"
  sys_mmap :: "u64 \<Rightarrow> int \<Rightarrow> u64 \<Rightarrow> 'd \<Rightarrow> (u64 option \<times> int \<times> 'd) run"
    \<comment> \<open>length, descriptor, offset; \<open>None\<close> is MAP_FAILED\<close>
  sys_munmap :: "u64 \<Rightarrow> u64 \<Rightarrow> 'd \<Rightarrow> (int \<times> int \<times> 'd) run"
  sys_pagesize :: u64          \<comment> \<open>sysconf(_SC_PAGESIZE)\<close>
  sys_calloc :: "lib \<Rightarrow> nat option"
  sys_cpuid :: "u32 \<Rightarrow> (u32 \<times> u32 \<times> u32 \<times> u32) option"
    \<comment> \<open>__get_cpuid: eax, ebx, ecx, edx when it returns 1\<close>

text \<open>
  The argument structures on the stack of the caller. A field that the code does not set before
  the call holds what the stack held; the driver does not read it.
\<close>

definition stack_arg :: uarg where
  "stack_arg = \<lparr>ua_readable = True, ua_writable = True,
     ua_pin = \<lparr>pb_addr = 0, pb_size = 0, pb_p2p_token = 0, pb_va_space = 0, pb_handle = 0\<rparr>,
     ua_pin_v2 = \<lparr>pv_addr = 0, pv_size = 0, pv_flags = 0, pv_pad = 0, pv_handle = 0\<rparr>,
     ua_unpin = 0, ua_cb = \<lparr>cb_handle = 0, cb_flag = 0\<rparr>,
     ua_info = \<lparr>gi_handle = 0, gi_va = 0, gi_mapped_size = 0, gi_page_size = 0, gi_tsc_khz = 0,
                gi_tm_cycles = 0, gi_mapped = 0, gi_wc_mapping = 0\<rparr>,
     ua_info_v2 = \<lparr>gv_handle = 0, gv_va = 0, gv_mapped_size = 0, gv_page_size = 0, gv_tsc_khz = 0,
                gv_tm_cycles = 0, gv_mapping_type = 0\<rparr>,
     ua_attr = \<lparr>ga_attr = 0, ga_val = 0\<rparr>, ua_req = \<lparr>rq_handle = 0, rq_mapping_type = 0\<rparr>\<rparr>"

text \<open>The structure after the call: what the driver wrote, else as it was.\<close>

definition pin_result :: "uarg \<Rightarrow> uout \<Rightarrow> pin_buffer_params" where
  "pin_result u out = (case out of OutPin p \<Rightarrow> p | _ \<Rightarrow> ua_pin u)"
definition pin_v2_result :: "uarg \<Rightarrow> uout \<Rightarrow> pin_buffer_v2_params" where
  "pin_v2_result u out = (case out of OutPinV2 p \<Rightarrow> p | _ \<Rightarrow> ua_pin_v2 u)"
definition cb_result :: "uarg \<Rightarrow> uout \<Rightarrow> get_cb_flag_params" where
  "cb_result u out = (case out of OutCb p \<Rightarrow> p | _ \<Rightarrow> ua_cb u)"
definition info_result :: "uarg \<Rightarrow> uout \<Rightarrow> get_info_params" where
  "info_result u out = (case out of OutInfo p \<Rightarrow> p | _ \<Rightarrow> ua_info u)"
definition info_v2_result :: "uarg \<Rightarrow> uout \<Rightarrow> get_info_v2_params" where
  "info_v2_result u out = (case out of OutInfoV2 p \<Rightarrow> p | _ \<Rightarrow> ua_info_v2 u)"
definition attr_result :: "uarg \<Rightarrow> uout \<Rightarrow> get_attr_params" where
  "attr_result u out = (case out of OutAttr p \<Rightarrow> p | _ \<Rightarrow> ua_attr u)"
definition version_result :: "uout \<Rightarrow> get_version_params" where
  "version_result out = (case out of OutVersion p \<Rightarrow> p
     | _ \<Rightarrow> \<lparr>ve_gdrdrv_version = 0, ve_minimum_gdr_api_version = 0\<rparr>)"

lemmas ioctl_results = pin_result_def pin_v2_result_def cb_result_def info_result_def
  info_v2_result_def attr_result_def version_result_def

section \<open>CPU features\<close>

text \<open>The masks of cpuid.h.\<close>

definition bit_SSE4_1 :: u32 where "bit_SSE4_1 = push_bit 19 1"
definition bit_AVX :: u32 where "bit_AVX = push_bit 28 1"
definition bit_SSE :: u32 where "bit_SSE = push_bit 25 1"
definition bit_SSE2 :: u32 where "bit_SSE2 = push_bit 26 1"
definition bit_AVX2 :: u32 where "bit_AVX2 = push_bit 5 1"

lemmas cpuid_bits = bit_SSE4_1_def bit_AVX_def bit_SSE_def bit_SSE2_def bit_AVX2_def

definition gdr_init_cpu_flags :: "cpu_arch \<Rightarrow> 'd os \<Rightarrow> lib \<Rightarrow> lib" where
  "gdr_init_cpu_flags ar K L =
     (if ar = X86 then
        (let L1 = (case sys_cpuid K 1 of
             Some (ax, bx, cx, dx) \<Rightarrow>
               L\<lparr>has_sse4_1 := (cx AND bit_SSE4_1 \<noteq> 0), has_avx := (cx AND bit_AVX \<noteq> 0),
                 has_sse := (dx AND bit_SSE \<noteq> 0), has_sse2 := (dx AND bit_SSE2 \<noteq> 0)\<rparr>
           | None \<Rightarrow> L)
         in case sys_cpuid K 7 of
              Some (ax, bx, cx, dx) \<Rightarrow> L1\<lparr>has_avx2 := bx AND bit_AVX2\<rparr>
            | None \<Rightarrow> L1)
      else L)"

end
