(* ===== verification/Copy_Machine.thy ===== *)
theory Copy_Machine
  imports Prelude
begin

text \<open>
  The machine on which the copy routines of the library run: a byte memory over the 64-bit
  address space and a trace of the accesses made, in program order. Loads and stores have the
  width and the kind of the instruction that makes them, aligned instructions stop the program
  on an unaligned address, and \<open>memcpy\<close> is defined on disjoint regions only. The second half
  is the vocabulary in which the routines are specified: a region moved, the accesses that
  tile it, and the stores that no fence has followed yet.
\<close>

section \<open>Accesses and their trace\<close>

datatype ld_kind =
    Load          \<comment> \<open>_mm256_load_pd, _mm_load_ps\<close>
  | LoadU         \<comment> \<open>_mm256_loadu_pd, _mm_loadu_ps\<close>
  | StreamLoad    \<comment> \<open>_mm_stream_load_si128\<close>
  | Read          \<comment> \<open>a scalar read through a pointer, READ_ONCE included\<close>

datatype st_kind =
    Store         \<comment> \<open>_mm256_store_pd, _mm_store_ps\<close>
  | StoreU        \<comment> \<open>_mm_storeu_si128\<close>
  | StreamStore   \<comment> \<open>_mm256_stream_pd, _mm_stream_ps, _mm_stream_si128\<close>
  | Write         \<comment> \<open>a scalar write through a pointer, WRITE_ONCE included\<close>

datatype fence = StoreFence | FullFence

datatype access =
    Ld ld_kind u64 nat
  | St st_kind u64 nat
  | Memcpy u64 u64 nat    \<comment> \<open>destination, source, size\<close>
  | Fence fence

type_synonym mem = "u64 \<Rightarrow> u8"

record cpu =
  mem :: mem
  trace :: "access list"    \<comment> \<open>oldest first\<close>

definition log_access :: "access \<Rightarrow> cpu \<Rightarrow> cpu" where
  "log_access e \<sigma> = \<sigma>\<lparr>trace := trace \<sigma> @ [e]\<rparr>"

definition ld_aligned :: "ld_kind \<Rightarrow> bool" where
  "ld_aligned lk = (lk = Load \<or> lk = StreamLoad)"

definition st_aligned :: "st_kind \<Rightarrow> bool" where
  "st_aligned sk = (sk = Store \<or> sk = StreamStore)"

definition aligned_at :: "nat \<Rightarrow> u64 \<Rightarrow> bool" where
  "aligned_at w a = (unat a mod w = 0)"

definition read_bytes :: "mem \<Rightarrow> u64 \<Rightarrow> nat \<Rightarrow> u8 list" where
  "read_bytes m a w = map (\<lambda>i. m (a + of_nat i)) [0..<w]"

definition write_bytes :: "mem \<Rightarrow> u64 \<Rightarrow> u8 list \<Rightarrow> mem" where
  "write_bytes m a r = (\<lambda>b. if unat (b - a) < length r then r ! unat (b - a) else m b)"

definition load :: "ld_kind \<Rightarrow> nat \<Rightarrow> u64 \<Rightarrow> cpu \<Rightarrow> (u8 list \<times> cpu) run" where
  "load lk w a \<sigma> =
     bindE (checkE (ld_aligned lk \<longrightarrow> aligned_at w a) Misaligned) (\<lambda>_.
     Inr (read_bytes (mem \<sigma>) a w, log_access (Ld lk a w) \<sigma>))"

definition store :: "st_kind \<Rightarrow> nat \<Rightarrow> u64 \<Rightarrow> u8 list \<Rightarrow> cpu \<Rightarrow> cpu run" where
  "store sk w a r \<sigma> =
     bindE (checkE (st_aligned sk \<longrightarrow> aligned_at w a) Misaligned) (\<lambda>_.
     Inr (log_access (St sk a w) (\<sigma>\<lparr>mem := write_bytes (mem \<sigma>) a r\<rparr>)))"

definition fence :: "fence \<Rightarrow> cpu \<Rightarrow> cpu" where
  "fence fk \<sigma> = log_access (Fence fk) \<sigma>"

text \<open>
  Two regions of \<open>n\<close> bytes are apart when neither contains the other's first byte; the
  differences wrap, so regions that run over the end of the address space are covered.
\<close>

definition apart :: "u64 \<Rightarrow> u64 \<Rightarrow> nat \<Rightarrow> bool" where
  "apart d s n = (n \<le> unat (d - s) \<and> n \<le> unat (s - d))"

definition copy_bytes :: "mem \<Rightarrow> u64 \<Rightarrow> u64 \<Rightarrow> nat \<Rightarrow> mem" where
  "copy_bytes m d s n = (\<lambda>a. if unat (a - d) < n then m (s + (a - d)) else m a)"

definition memcpy :: "u64 \<Rightarrow> u64 \<Rightarrow> u64 \<Rightarrow> cpu \<Rightarrow> cpu run" where
  "memcpy d s n \<sigma> =
     bindE (checkE (apart d s (unat n)) Overlap) (\<lambda>_.
     Inr (log_access (Memcpy d s (unat n)) (\<sigma>\<lparr>mem := copy_bytes (mem \<sigma>) d s (unat n)\<rparr>)))"

lemma log_access_simps [simp]:
  "mem (log_access e \<sigma>) = mem \<sigma>" "trace (log_access e \<sigma>) = trace \<sigma> @ [e]"
  by (simp_all add: log_access_def)

lemma fence_simps [simp]:
  "mem (fence fk \<sigma>) = mem \<sigma>" "trace (fence fk \<sigma>) = trace \<sigma> @ [Fence fk]"
  by (simp_all add: fence_def)

section \<open>What a trace says\<close>

fun stores_of :: "access list \<Rightarrow> (u64 \<times> nat) list" where
  "stores_of [] = []"
| "stores_of (St sk a w # es) = (a, w) # stores_of es"
| "stores_of (Memcpy d s n # es) = (d, n) # stores_of es"
| "stores_of (_ # es) = stores_of es"

fun loads_of :: "access list \<Rightarrow> (u64 \<times> nat) list" where
  "loads_of [] = []"
| "loads_of (Ld lk a w # es) = (a, w) # loads_of es"
| "loads_of (Memcpy d s n # es) = (s, n) # loads_of es"
| "loads_of (_ # es) = loads_of es"

fun fences_of :: "access list \<Rightarrow> fence list" where
  "fences_of [] = []"
| "fences_of (Fence fk # es) = fk # fences_of es"
| "fences_of (_ # es) = fences_of es"

text \<open>The accesses cover \<open>[a, a + n)\<close> in ascending order, every byte exactly once.\<close>

fun tiles :: "u64 \<Rightarrow> nat \<Rightarrow> (u64 \<times> nat) list \<Rightarrow> bool" where
  "tiles a n [] = (n = 0)"
| "tiles a n ((b, w) # ws) = (b = a \<and> w \<le> n \<and> tiles (a + of_nat w) (n - w) ws)"

text \<open>The stores after the last fence: those that may still sit in a write-combining buffer.\<close>

fun unfenced :: "access list \<Rightarrow> (u64 \<times> nat) list \<Rightarrow> (u64 \<times> nat) list" where
  "unfenced [] ws = ws"
| "unfenced (Fence _ # es) ws = unfenced es []"
| "unfenced (e # es) ws = unfenced es (ws @ stores_of [e])"

abbreviation pending :: "cpu \<Rightarrow> (u64 \<times> nat) list" where
  "pending \<sigma> \<equiv> unfenced (trace \<sigma>) []"

lemma stores_of_append [simp]: "stores_of (xs @ ys) = stores_of xs @ stores_of ys"
  by (induction xs rule: stores_of.induct) simp_all

lemma loads_of_append [simp]: "loads_of (xs @ ys) = loads_of xs @ loads_of ys"
  by (induction xs rule: loads_of.induct) simp_all

lemma fences_of_append [simp]: "fences_of (xs @ ys) = fences_of xs @ fences_of ys"
  by (induction xs rule: fences_of.induct) simp_all

lemma unfenced_append [simp]: "unfenced (xs @ ys) ws = unfenced ys (unfenced xs ws)"
  by (induction xs ws rule: unfenced.induct) simp_all

lemma tiles_append:
  assumes "tiles a j xs" and "tiles (a + of_nat j) k ys"
  shows "tiles a (j + k) (xs @ ys)"
  using assms
proof (induction xs arbitrary: a j)
  case (Cons x xs)
  obtain b w where x: "x = (b, w)" by fastforce
  have w: "b = a" "w \<le> j" "tiles (a + of_nat w) (j - w) xs"
    using Cons.prems(1) by (auto simp: x)
  have "(a + of_nat w) + of_nat (j - w) = a + of_nat j"
    using w(2) by (simp add: of_nat_diff)
  with Cons.IH [OF w(3)] Cons.prems(2) have "tiles (a + of_nat w) (j - w + k) (xs @ ys)"
    by simp
  with w show ?case by (simp add: x Nat.add_diff_assoc2)
qed simp

section \<open>Bytes\<close>

lemma unat_less64: "unat (w :: u64) < 2 ^ 64"
  by (rule order.strict_trans2 [OF unsigned_less]) simp

lemma read_bytes_length [simp]: "length (read_bytes m a w) = w"
  by (simp add: read_bytes_def)

lemma read_bytes_append:
  "read_bytes m a (j + k) = read_bytes m a j @ read_bytes m (a + of_nat j) k"
  by (rule nth_equalityI)
    (auto simp: read_bytes_def nth_append add.assoc simp flip: of_nat_add)

lemma write_bytes_nil [simp]: "write_bytes m a [] = m"
  by (simp add: write_bytes_def)

lemma write_bytes_append:
  assumes "length xs + length ys \<le> 2 ^ 64"
  shows "write_bytes (write_bytes m a xs) (a + of_nat (length xs)) ys = write_bytes m a (xs @ ys)"
proof
  fix b
  have sh: "unat (b - (a + of_nat (length xs))) < length ys \<longleftrightarrow>
      length xs \<le> unat (b - a) \<and> unat (b - a) < length xs + length ys"
    by (rule unat_diff_shift [OF assms])
  have off: "unat (b - (a + of_nat (length xs))) = unat (b - a) - length xs"
    if le: "length xs \<le> unat (b - a)"
  proof -
    have "length xs < 2 ^ 64" using le unat_less64 [of "b - a"] by linarith
    then have u: "unat (of_nat (length xs) :: u64) = length xs" by (rule unat_of_nat64)
    have "(of_nat (length xs) :: u64) \<le> b - a" using le by (simp add: word_le_nat_alt u)
    then have "unat ((b - a) - of_nat (length xs)) = unat (b - a) - length xs"
      by (simp add: unat_sub u)
    then show ?thesis by (simp add: diff_diff_eq)
  qed
  show "write_bytes (write_bytes m a xs) (a + of_nat (length xs)) ys b
      = write_bytes m a (xs @ ys) b"
    using sh off by (auto simp: write_bytes_def nth_append)
qed

lemma write_read_bytes: "write_bytes m d (read_bytes m s n) = copy_bytes m d s n"
  by (rule ext) (simp add: write_bytes_def copy_bytes_def read_bytes_def)

lemma copy_bytes_0 [simp]: "copy_bytes m d s 0 = m"
  by (simp add: copy_bytes_def)

section \<open>Regions\<close>

lemma apart_0 [simp]: "apart d s 0"
  by (simp add: apart_def)

lemma apart_mono: "apart d s n \<Longrightarrow> k \<le> n \<Longrightarrow> apart (d + x) (s + x) k"
  by (simp add: apart_def)

lemma apart_le: "apart d s n \<Longrightarrow> n \<le> 2 ^ 64"
  using unat_less64 [of "d - s"] unfolding apart_def by linarith

lemma apart_commute: "apart d s n = apart s d n"
  by (auto simp: apart_def)

text \<open>A byte of the source region is not in the destination region.\<close>

lemma apart_source:
  assumes "apart d s n" and "unat x < n"
  shows "\<not> unat (s + x - d) < n"
proof
  assume lt: "unat (s + x - d) < n"
  define y where "y = s + x - d"
  have eq: "s - d = y - x" and eq': "d - s = x - y" by (simp_all add: y_def)
  have "n \<le> unat (y - x)" "n \<le> unat (x - y)" using assms(1) by (auto simp: apart_def eq eq')
  moreover have "unat y < n" using lt by (simp add: y_def)
  ultimately show False
    using assms(2) by (cases "x \<le> y") (auto simp: unat_sub word_le_nat_alt not_le unat_sub_if')
qed

lemma copy_bytes_append:
  assumes "apart d s (j + k)"
  shows "copy_bytes (copy_bytes m d s j) (d + of_nat j) (s + of_nat j) k
       = copy_bytes m d s (j + k)"
proof
  fix a
  have sh: "unat (a - (d + of_nat j)) < k \<longleftrightarrow> j \<le> unat (a - d) \<and> unat (a - d) < j + k"
    by (rule unat_diff_shift [OF apart_le [OF assms]])
  show "copy_bytes (copy_bytes m d s j) (d + of_nat j) (s + of_nat j) k a
      = copy_bytes m d s (j + k) a"
  proof (cases "unat (a - (d + of_nat j)) < k")
    case True
    then have "\<not> unat (s + (a - d) - d) < j"
      using apart_source [OF assms, of "a - d"] sh by simp
    moreover have "s + of_nat j + (a - (d + of_nat j)) = s + (a - d)" by simp
    ultimately show ?thesis
      using True sh by (simp add: copy_bytes_def)
  next
    case False
    then show ?thesis using sh by (auto simp: copy_bytes_def)
  qed
qed

lemma aligned_at_step:
  assumes "aligned_at w a" and "w dvd 2 ^ 64" and "w dvd k"
  shows "aligned_at w (a + of_nat k)"
proof -
  have "unat (a + of_nat k) = (unat a + k) mod 2 ^ 64"
    by (simp add: unat_word_ariths unsigned_of_nat take_bit_eq_mod mod_add_right_eq)
  moreover have "w dvd unat a + k"
    using assms by (auto simp: aligned_at_def mod_0_imp_dvd)
  ultimately show ?thesis
    using assms(2) by (simp add: aligned_at_def dvd_mod mod_mod_cancel mod_eq_0_iff_dvd)
qed

section \<open>A region moved\<close>

text \<open>
  From \<open>\<sigma>\<close> to \<open>\<sigma>'\<close> the \<open>n\<close> bytes at \<open>s\<close> were copied to \<open>d\<close>, each source byte read once
  and each destination byte written once, in ascending order, without a fence, and nothing else
  was touched.
\<close>

definition moved :: "u64 \<Rightarrow> u64 \<Rightarrow> nat \<Rightarrow> cpu \<Rightarrow> cpu \<Rightarrow> bool" where
  "moved d s n \<sigma> \<sigma>' = (mem \<sigma>' = copy_bytes (mem \<sigma>) d s n \<and>
     (\<exists>es. trace \<sigma>' = trace \<sigma> @ es \<and> fences_of es = [] \<and>
        tiles d n (stores_of es) \<and> tiles s n (loads_of es)))"

lemma moved_0: "moved d s 0 \<sigma> \<sigma>"
  unfolding moved_def by (auto intro: exI [of _ "[]"])

lemma moved_trans:
  assumes "moved d s j \<sigma> \<sigma>1" and "moved (d + of_nat j) (s + of_nat j) k \<sigma>1 \<sigma>2"
    and "apart d s (j + k)"
  shows "moved d s (j + k) \<sigma> \<sigma>2"
proof -
  obtain es1 where 1: "mem \<sigma>1 = copy_bytes (mem \<sigma>) d s j" "trace \<sigma>1 = trace \<sigma> @ es1" "fences_of es1 = []"
      "tiles d j (stores_of es1)" "tiles s j (loads_of es1)"
    using assms(1) by (auto simp: moved_def)
  obtain es2 where 2: "mem \<sigma>2 = copy_bytes (mem \<sigma>1) (d + of_nat j) (s + of_nat j) k"
      "trace \<sigma>2 = trace \<sigma>1 @ es2" "fences_of es2 = []" "tiles (d + of_nat j) k (stores_of es2)"
      "tiles (s + of_nat j) k (loads_of es2)"
    using assms(2) by (auto simp: moved_def)
  have "tiles d (j + k) (stores_of (es1 @ es2))" "tiles s (j + k) (loads_of (es1 @ es2))"
    using 1 2 by (auto intro: tiles_append)
  then show ?thesis
    unfolding moved_def using 1 2 copy_bytes_append [OF assms(3)] by auto
qed

lemma pending_fence [simp]: "pending (fence fk \<sigma>) = []"
  by simp

lemma moved_outside: "moved d s n \<sigma> \<sigma>' \<Longrightarrow> \<not> unat (a - d) < n \<Longrightarrow> mem \<sigma>' a = mem \<sigma> a"
  by (simp add: moved_def copy_bytes_def)

lemma moved_inside: "moved d s n \<sigma> \<sigma>' \<Longrightarrow> unat x < n \<Longrightarrow> mem \<sigma>' (d + x) = mem \<sigma> (s + x)"
  by (simp add: moved_def copy_bytes_def)

lemma memcpy_moves:
  assumes "apart d s (unat n)"
  shows "\<exists>\<sigma>'. memcpy d s n \<sigma> = Inr \<sigma>' \<and> moved d s (unat n) \<sigma> \<sigma>'"
  using assms by (simp add: memcpy_def moved_def)

text \<open>One scalar read and write, as \<open>WRITE_ONCE(*d, *s)\<close> does it.\<close>

definition move_scalar :: "nat \<Rightarrow> u64 \<Rightarrow> u64 \<Rightarrow> cpu \<Rightarrow> cpu run" where
  "move_scalar w d s \<sigma> = bindE (load Read w s \<sigma>) (\<lambda>(r, \<sigma>1). store Write w d r \<sigma>1)"

lemma move_scalar_moves: "\<exists>\<sigma>'. move_scalar w d s \<sigma> = Inr \<sigma>' \<and> moved d s w \<sigma> \<sigma>'"
  by (simp add: move_scalar_def load_def store_def ld_aligned_def st_aligned_def moved_def
      write_read_bytes)

end
