(* ===== verification/Copy_Block.thy ===== *)
theory Copy_Block
  imports Copy_Machine
begin

text \<open>
  The building blocks of the copy routines: an unrolled group of vector loads and stores, the
  \<open>while\<close> loop that repeats it, and the interfaces \<open>copy_step\<close> (a loop body that moves one
  block) and \<open>copy_routine\<close> (a whole routine). The lemmas of \<open>copy_step\<close> say what the loop
  does, once for all block sizes.
\<close>

section \<open>Unrolled groups of vector instructions\<close>

text \<open>\<open>r0 = load (s + 0 * w); r1 = load (s + 1 * w); ...\<close>: \<open>k\<close> registers of \<open>w\<close> bytes.\<close>

primrec simd_loads :: "ld_kind \<Rightarrow> nat \<Rightarrow> nat \<Rightarrow> u64 \<Rightarrow> cpu \<Rightarrow> (u8 list list \<times> cpu) run" where
  "simd_loads lk w 0 s \<sigma> = Inr ([], \<sigma>)"
| "simd_loads lk w (Suc k) s \<sigma> =
     bindE (load lk w s \<sigma>) (\<lambda>(r, \<sigma>1).
     bindE (simd_loads lk w k (s + of_nat w) \<sigma>1) (\<lambda>(rs, \<sigma>2). Inr (r # rs, \<sigma>2)))"

text \<open>\<open>store (d + 0 * w, r0); store (d + 1 * w, r1); ...\<close>.\<close>

primrec simd_stores :: "st_kind \<Rightarrow> nat \<Rightarrow> u64 \<Rightarrow> u8 list list \<Rightarrow> cpu \<Rightarrow> cpu run" where
  "simd_stores sk w d [] \<sigma> = Inr \<sigma>"
| "simd_stores sk w d (r # rs) \<sigma> =
     bindE (store sk w d r \<sigma>) (\<lambda>\<sigma>1. simd_stores sk w (d + of_nat w) rs \<sigma>1)"

definition simd_block :: "ld_kind \<Rightarrow> st_kind \<Rightarrow> nat \<Rightarrow> nat \<Rightarrow> u64 \<Rightarrow> u64 \<Rightarrow> cpu \<Rightarrow> cpu run" where
  "simd_block lk sk w k d s \<sigma> =
     bindE (simd_loads lk w k s \<sigma>) (\<lambda>(rs, \<sigma>1). simd_stores sk w d rs \<sigma>1)"

section \<open>The loop\<close>

text \<open>
  \<open>while (n >= sz) { body; s += sz; d += sz; n -= sz; }\<close>. The block sizes are positive
  constants, which the condition repeats for the termination of the recursion.
\<close>

function block_loop ::
  "u64 \<Rightarrow> (u64 \<Rightarrow> u64 \<Rightarrow> cpu \<Rightarrow> cpu run) \<Rightarrow> u64 \<Rightarrow> u64 \<Rightarrow> u64 \<Rightarrow> cpu \<Rightarrow> (u64 \<times> u64 \<times> u64 \<times> cpu) run" where
  "block_loop sz body d s n \<sigma> =
     (if 0 < sz \<and> sz \<le> n then
        bindE (body d s \<sigma>) (\<lambda>\<sigma>1. block_loop sz body (d + sz) (s + sz) (n - sz) \<sigma>1)
      else Inr (d, s, n, \<sigma>))"
  by pat_completeness auto
termination
proof (relation "measure (\<lambda>(sz, body, d, s, n, \<sigma>). unat n)")
  fix sz n :: u64
  assume "0 < sz \<and> sz \<le> n"
  then have "unat (n - sz) < unat n"
    by (simp add: unat_sub word_le_nat_alt word_less_nat_alt)
  then show "((sz, body, d + sz, s + sz, n - sz, \<sigma>1), sz, body, d, s, n, \<sigma>)
      \<in> measure (\<lambda>(sz, body, d, s, n, \<sigma>). unat n)" for body d s \<sigma> \<sigma>1
    by simp
qed simp

declare block_loop.simps [simp del]

text \<open>
  How far a routine called with \<open>(d0, s0, n0)\<close> in \<open>\<sigma>0\<close> has come when its variables are
  \<open>(d, s, n)\<close>.
\<close>

definition progress :: "u64 \<Rightarrow> u64 \<Rightarrow> u64 \<Rightarrow> cpu \<Rightarrow> u64 \<times> u64 \<times> u64 \<times> cpu \<Rightarrow> bool" where
  "progress d0 s0 n0 \<sigma>0 v = (case v of (d, s, n, \<sigma>) \<Rightarrow>
     \<exists>j. d = d0 + of_nat j \<and> s = s0 + of_nat j \<and> unat n + j = unat n0 \<and> moved d0 s0 j \<sigma>0 \<sigma>)"

lemma progress_start: "progress d s n \<sigma> (d, s, n, \<sigma>)"
  unfolding progress_def by (auto intro!: exI [of _ 0] moved_0)

lemma progress_apart:
  assumes "progress d0 s0 n0 \<sigma>0 (d, s, n, \<sigma>)" and "apart d0 s0 (unat n0)" and "k \<le> unat n"
  shows "apart d s k"
  using assms by (auto simp: progress_def intro: apart_mono)

lemma progress_step:
  assumes p: "progress d0 s0 n0 \<sigma>0 (d, s, n, \<sigma>)" and ap: "apart d0 s0 (unat n0)"
    and le: "z \<le> n" and mv: "moved d s (unat z) \<sigma> \<sigma>1"
  shows "progress d0 s0 n0 \<sigma>0 (d + z, s + z, n - z, \<sigma>1)"
proof -
  obtain j where j: "d = d0 + of_nat j" "s = s0 + of_nat j" "unat n + j = unat n0"
      "moved d0 s0 j \<sigma>0 \<sigma>"
    using p by (auto simp: progress_def)
  have z: "unat z \<le> unat n" "unat (n - z) = unat n - unat z"
    using le by (auto simp: word_le_nat_alt unat_sub)
  have "apart d0 s0 (j + unat z)"
    using ap j(3) z(1) by (simp add: apart_def)
  with moved_trans [OF j(4), of "unat z" \<sigma>1] mv j have "moved d0 s0 (j + unat z) \<sigma>0 \<sigma>1"
    by simp
  with j z show ?thesis
    unfolding progress_def by (auto intro!: exI [of _ "j + unat z"])
qed

lemma progress_done:
  "progress d0 s0 n0 \<sigma>0 (d, s, 0, \<sigma>) \<Longrightarrow> moved d0 s0 (unat n0) \<sigma>0 \<sigma>"
  by (auto simp: progress_def)

section \<open>A loop body that moves one block\<close>

locale copy_step =
  fixes sz :: u64
    and body :: "u64 \<Rightarrow> u64 \<Rightarrow> cpu \<Rightarrow> cpu run"
    and ready :: "u64 \<Rightarrow> u64 \<Rightarrow> bool"
  assumes size_pos: "0 < sz"
    and body_moves: "ready d s \<Longrightarrow> apart d s (unat sz) \<Longrightarrow>
      \<exists>\<sigma>'. body d s \<sigma> = Inr \<sigma>' \<and> moved d s (unat sz) \<sigma> \<sigma>'"
    and ready_next: "ready d s \<Longrightarrow> ready (d + sz) (s + sz)"
begin

lemma loop_progress:
  assumes "progress d0 s0 n0 \<sigma>0 (d, s, n, \<sigma>)" and "apart d0 s0 (unat n0)"
    and "n = 0 \<or> ready d s"
  shows "\<exists>d' s' n' \<sigma>'. block_loop sz body d s n \<sigma> = Inr (d', s', n', \<sigma>') \<and>
    progress d0 s0 n0 \<sigma>0 (d', s', n', \<sigma>') \<and> n' < sz \<and> (n' = 0 \<or> ready d' s')"
  using assms
proof (induction n arbitrary: d s \<sigma> rule: measure_induct_rule [where f = unat])
  case (less n)
  show ?case
  proof (cases "sz \<le> n")
    case False
    then show ?thesis
      using less.prems by (simp add: block_loop.simps [of sz body d s n \<sigma>])
  next
    case True
    then have rdy: "ready d s" using less.prems(3) size_pos by auto
    have le: "unat sz \<le> unat n" "unat (n - sz) < unat n"
      using True size_pos by (auto simp: word_le_nat_alt word_less_nat_alt unat_sub)
    obtain \<sigma>1 where b: "body d s \<sigma> = Inr \<sigma>1" "moved d s (unat sz) \<sigma> \<sigma>1"
      using body_moves [OF rdy progress_apart [OF less.prems(1,2) le(1)]] by blast
    have "progress d0 s0 n0 \<sigma>0 (d + sz, s + sz, n - sz, \<sigma>1)"
      by (rule progress_step [OF less.prems(1,2) True b(2)])
    from less.IH [OF le(2) this less.prems(2)] ready_next [OF rdy]
    show ?thesis
      using True size_pos b(1) by (simp add: block_loop.simps [of sz body d s n \<sigma>])
  qed
qed

text \<open>On its own the loop moves all whole blocks and leaves the remainder.\<close>

lemma loop_moves:
  assumes "apart d s (unat n)" and "n = 0 \<or> ready d s"
  shows "\<exists>d' s' n' \<sigma>'. block_loop sz body d s n \<sigma> = Inr (d', s', n', \<sigma>') \<and>
    n' < sz \<and> moved d s (unat n - unat n') \<sigma> \<sigma>'"
proof -
  obtain d' s' n' \<sigma>' where l: "block_loop sz body d s n \<sigma> = Inr (d', s', n', \<sigma>')"
      "progress d s n \<sigma> (d', s', n', \<sigma>')" "n' < sz"
    using loop_progress [OF progress_start assms] by blast
  from l(2) obtain j where "unat n' + j = unat n" "moved d s j \<sigma> \<sigma>'"
    by (auto simp: progress_def)
  then have "j = unat n - unat n'" "moved d s j \<sigma> \<sigma>'" by auto
  with l show ?thesis by auto
qed

end

section \<open>The vector groups are such bodies\<close>

lemma aligned_at_next: "aligned_at w a \<Longrightarrow> w dvd 2 ^ 64 \<Longrightarrow> aligned_at w (a + of_nat (w * k))"
  by (rule aligned_at_step) auto

lemma simd_loads_read:
  assumes "ld_aligned lk \<longrightarrow> aligned_at w s" and "w dvd 2 ^ 64"
  shows "\<exists>rs es. simd_loads lk w k s \<sigma> = Inr (rs, \<sigma>\<lparr>trace := trace \<sigma> @ es\<rparr>) \<and>
    concat rs = read_bytes (mem \<sigma>) s (k * w) \<and> (\<forall>r\<in>set rs. length r = w) \<and>
    stores_of es = [] \<and> fences_of es = [] \<and> tiles s (k * w) (loads_of es)"
  using assms(1)
proof (induction k arbitrary: s \<sigma>)
  case 0
  show ?case by (auto simp: read_bytes_def intro!: exI [of _ "[]"])
next
  case (Suc k)
  have "ld_aligned lk \<longrightarrow> aligned_at w (s + of_nat w)"
    using Suc.prems aligned_at_step [OF _ assms(2), of s w] by simp
  from Suc.IH [OF this, of "log_access (Ld lk s w) \<sigma>"]
  obtain rs es where "simd_loads lk w k (s + of_nat w) (log_access (Ld lk s w) \<sigma>) =
      Inr (rs, (log_access (Ld lk s w) \<sigma>)\<lparr>trace := (trace \<sigma> @ [Ld lk s w]) @ es\<rparr>)"
      "concat rs = read_bytes (mem \<sigma>) (s + of_nat w) (k * w)" "\<forall>r\<in>set rs. length r = w"
      "stores_of es = []" "fences_of es = []" "tiles (s + of_nat w) (k * w) (loads_of es)"
    by auto
  then show ?case
    using Suc.prems
    by (intro exI [of _ "read_bytes (mem \<sigma>) s w # rs"] exI [of _ "Ld lk s w # es"])
      (simp add: load_def log_access_def read_bytes_append)
qed

lemma simd_stores_write:
  assumes "st_aligned sk \<longrightarrow> aligned_at w d" and "w dvd 2 ^ 64"
    and "\<forall>r\<in>set rs. length r = w" and "length rs * w \<le> 2 ^ 64"
  shows "\<exists>es. simd_stores sk w d rs \<sigma> =
      Inr (\<sigma>\<lparr>mem := write_bytes (mem \<sigma>) d (concat rs), trace := trace \<sigma> @ es\<rparr>) \<and>
    loads_of es = [] \<and> fences_of es = [] \<and> tiles d (length rs * w) (stores_of es)"
  using assms(1,3,4)
proof (induction rs arbitrary: d \<sigma>)
  case Nil
  show ?case by (auto intro!: exI [of _ "[]"])
next
  case (Cons r rs)
  let ?\<sigma>1 = "log_access (St sk d w) (\<sigma>\<lparr>mem := write_bytes (mem \<sigma>) d r\<rparr>)"
  have al: "st_aligned sk \<longrightarrow> aligned_at w (d + of_nat w)"
    using Cons.prems aligned_at_step [OF _ assms(2), of d w] by simp
  have len: "length (concat rs) = length rs * w"
    using Cons.prems(2) by (induction rs) auto
  obtain es where "simd_stores sk w (d + of_nat w) rs ?\<sigma>1 =
      Inr (?\<sigma>1\<lparr>mem := write_bytes (mem ?\<sigma>1) (d + of_nat w) (concat rs),
               trace := trace ?\<sigma>1 @ es\<rparr>)"
      "loads_of es = []" "fences_of es = []" "tiles (d + of_nat w) (length rs * w) (stores_of es)"
    using Cons.IH [OF al, of ?\<sigma>1] Cons.prems by auto
  moreover have "write_bytes (write_bytes (mem \<sigma>) d r) (d + of_nat w) (concat rs)
      = write_bytes (mem \<sigma>) d (r @ concat rs)"
    using write_bytes_append [of r "concat rs" "mem \<sigma>" d] Cons.prems(2,3) len by simp
  ultimately show ?case
    using Cons.prems
    by (intro exI [of _ "St sk d w # es"]) (simp add: store_def log_access_def)
qed

definition simd_ready :: "ld_kind \<Rightarrow> st_kind \<Rightarrow> nat \<Rightarrow> u64 \<Rightarrow> u64 \<Rightarrow> bool" where
  "simd_ready lk sk w d s =
     ((ld_aligned lk \<longrightarrow> aligned_at w s) \<and> (st_aligned sk \<longrightarrow> aligned_at w d))"

lemma simd_block_moves:
  assumes "simd_ready lk sk w d s" and "w dvd 2 ^ 64" and "apart d s (k * w)"
  shows "\<exists>\<sigma>'. simd_block lk sk w k d s \<sigma> = Inr \<sigma>' \<and> moved d s (k * w) \<sigma> \<sigma>'"
proof -
  obtain rs es where l: "simd_loads lk w k s \<sigma> = Inr (rs, \<sigma>\<lparr>trace := trace \<sigma> @ es\<rparr>)"
      "concat rs = read_bytes (mem \<sigma>) s (k * w)" "\<forall>r\<in>set rs. length r = w"
      "stores_of es = []" "fences_of es = []" "tiles s (k * w) (loads_of es)"
    using simd_loads_read [OF _ assms(2)] assms(1) unfolding simd_ready_def by blast
  have "length (concat rs) = length rs * w"
    using l(3) by (induction rs) auto
  then have len: "length rs * w = k * w" by (metis l(2) read_bytes_length)
  have "length rs * w \<le> 2 ^ 64" unfolding len by (rule apart_le [OF assms(3)])
  from simd_stores_write [OF _ assms(2) l(3) this, of sk d "\<sigma>\<lparr>trace := trace \<sigma> @ es\<rparr>"]
  obtain es' where "simd_stores sk w d rs (\<sigma>\<lparr>trace := trace \<sigma> @ es\<rparr>) =
      Inr (\<sigma>\<lparr>mem := write_bytes (mem \<sigma>) d (concat rs), trace := (trace \<sigma> @ es) @ es'\<rparr>)"
      "loads_of es' = []" "fences_of es' = []" "tiles d (k * w) (stores_of es')"
    using assms(1) unfolding simd_ready_def len by auto
  then show ?thesis
    using l by (auto simp: simd_block_def moved_def write_read_bytes)
qed

lemma simd_step:
  assumes "w dvd 2 ^ 64" and "unat sz = k * w" and "0 < k * w"
  shows "copy_step sz (simd_block lk sk w k) (simd_ready lk sk w)"
proof
  show "0 < sz" using assms by (simp add: word_less_nat_alt)
next
  fix d s :: u64
  assume r: "simd_ready lk sk w d s"
  have sz: "sz = of_nat (w * k)"
    using assms(2) by (metis mult.commute of_nat_unat64)
  show "simd_ready lk sk w (d + sz) (s + sz)"
    using r aligned_at_next [OF _ assms(1)] unfolding simd_ready_def sz by blast
  fix \<sigma>
  assume "apart d s (unat sz)"
  with simd_block_moves [OF r assms(1)] show
    "\<exists>\<sigma>'. simd_block lk sk w k d s \<sigma> = Inr \<sigma>' \<and> moved d s (unat sz) \<sigma> \<sigma>'"
    by (simp add: assms(2))
qed

section \<open>Aligning one of the pointers\<close>

text \<open>
  \<open>if (p & (w - 1)) { nh = min(w - (p & (w - 1)), n); memcpy(d, s, nh); ... }\<close> where \<open>p\<close> is
  \<open>d\<close> or \<open>s\<close>.
\<close>

definition align_head :: "u64 \<Rightarrow> u64 \<Rightarrow> u64 \<Rightarrow> u64 \<Rightarrow> u64 \<Rightarrow> cpu \<Rightarrow> (u64 \<times> u64 \<times> u64 \<times> cpu) run" where
  "align_head w p d s n \<sigma> =
     (if p AND (w - 1) \<noteq> 0 then
        (let nh = min (w - (p AND (w - 1))) n
         in bindE (memcpy d s nh \<sigma>) (\<lambda>\<sigma>1. Inr (d + nh, s + nh, n - nh, \<sigma>1)))
      else Inr (d, s, n, \<sigma>))"

text \<open>\<open>if (n) memcpy(d, s, n);\<close>\<close>

definition copy_tail :: "u64 \<times> u64 \<times> u64 \<times> cpu \<Rightarrow> cpu run" where
  "copy_tail v = (case v of (d, s, n, \<sigma>) \<Rightarrow> if n \<noteq> 0 then memcpy d s n \<sigma> else Inr \<sigma>)"

lemma and_low_aligned: "(p AND (2 ^ k - 1) = (0 :: u64)) = aligned_at (2 ^ k) p"
  by (metis aligned_at_def unat_and_low unat_eq_zero unsigned_0)

text \<open>After the head the chosen pointer is aligned, unless nothing is left to copy.\<close>

lemma align_head_progress:
  assumes ap: "apart d s (unat n)" and k: "k < 64"
  shows "\<exists>d' s' n' \<sigma>'. align_head (2 ^ k) p d s n \<sigma> = Inr (d', s', n', \<sigma>') \<and>
    progress d s n \<sigma> (d', s', n', \<sigma>') \<and> (n' = 0 \<or> aligned_at (2 ^ k) (p + (d' - d)))"
proof (cases "p AND (2 ^ k - 1) = 0")
  case True
  then show ?thesis
    by (simp add: align_head_def progress_start and_low_aligned)
next
  case False
  define r where "r = p AND (2 ^ k - 1)"
  define nh where "nh = min (2 ^ k - r) n"
  have le: "nh \<le> n" by (simp add: nh_def)
  have "apart d s (unat nh)"
    using ap le by (simp add: apart_def word_le_nat_alt)
  from memcpy_moves [OF this] obtain \<sigma>1
    where m: "memcpy d s nh \<sigma> = Inr \<sigma>1" "moved d s (unat nh) \<sigma> \<sigma>1" by blast
  have run: "align_head (2 ^ k) p d s n \<sigma> = Inr (d + nh, s + nh, n - nh, \<sigma>1)"
    using False m(1) by (simp add: align_head_def r_def nh_def Let_def)
  have pr: "progress d s n \<sigma> (d + nh, s + nh, n - nh, \<sigma>1)"
    by (rule progress_step [OF progress_start ap le m(2)])
  have "n - nh = 0 \<or> aligned_at (2 ^ k) (p + nh)"
  proof (cases "2 ^ k - r \<le> n")
    case True
    have "p + nh = (p - r) + 2 ^ k"
      using True by (simp add: nh_def min_def)
    moreover have "p - r = p AND NOT (2 ^ k - 1)"
      by (simp add: r_def and_not_low_eq word_and_minus_one_mask)
    moreover have "aligned_at (2 ^ k) (p AND NOT (2 ^ k - 1))"
      unfolding aligned_at_def unat_and_not_low by (simp add: minus_mod_eq_mult_div)
    moreover have "(2 :: nat) ^ k dvd 2 ^ 64"
      using k by (intro le_imp_power_dvd) simp
    ultimately show ?thesis
      using aligned_at_step [of "2 ^ k" "p AND NOT (2 ^ k - 1)" "2 ^ k"] by simp
  qed (simp add: nh_def min_def)
  with run pr show ?thesis by simp
qed

lemma copy_tail_progress:
  assumes "progress d s n \<sigma> v" and "apart d s (unat n)"
  shows "\<exists>\<sigma>'. copy_tail v = Inr \<sigma>' \<and> moved d s (unat n) \<sigma> \<sigma>'"
proof -
  obtain d' s' n' \<sigma>1 where v: "v = (d', s', n', \<sigma>1)" by (cases v)
  show ?thesis
  proof (cases "n' = 0")
    case True
    then show ?thesis using assms progress_done by (auto simp: v copy_tail_def)
  next
    case False
    from memcpy_moves [OF progress_apart [OF assms [unfolded v] order_refl]] obtain \<sigma>2
      where m: "memcpy d' s' n' \<sigma>1 = Inr \<sigma>2" "moved d' s' (unat n') \<sigma>1 \<sigma>2" by blast
    have "progress d s n \<sigma> (d' + n', s' + n', n' - n', \<sigma>2)"
      by (rule progress_step [OF assms [unfolded v] order_refl m(2)])
    then show ?thesis
      using False m(1) progress_done by (auto simp: v copy_tail_def)
  qed
qed

section \<open>Two loops in a row, and whole routines\<close>

text \<open>The unrolled loop and the loop that copies the remaining single blocks.\<close>

locale copy_loops =
  big: copy_step sz body ready + small: copy_step sz1 body1 ready
  for sz body sz1 body1 ready
begin

lemma both_progress:
  assumes "progress d0 s0 n0 \<sigma>0 (d, s, n, \<sigma>)" and "apart d0 s0 (unat n0)"
    and "n = 0 \<or> ready d s"
  shows "\<exists>v. bindE (block_loop sz body d s n \<sigma>)
      (\<lambda>(d, s, n, \<sigma>). block_loop sz1 body1 d s n \<sigma>) = Inr v \<and> progress d0 s0 n0 \<sigma>0 v"
proof -
  obtain d' s' n' \<sigma>' where "block_loop sz body d s n \<sigma> = Inr (d', s', n', \<sigma>')"
      "progress d0 s0 n0 \<sigma>0 (d', s', n', \<sigma>')" "n' = 0 \<or> ready d' s'"
    using big.loop_progress [OF assms] by blast
  with small.loop_progress [OF _ assms(2), of \<sigma>0 d' s' n' \<sigma>'] show ?thesis by auto
qed

end

text \<open>
  What a routine \<open>int f(void *dest, const void *src, size_t n)\<close> promises: on disjoint regions
  it returns 0 after the bytes are moved and a store fence ends the routine.
\<close>

definition copies :: "(u64 \<Rightarrow> u64 \<Rightarrow> u64 \<Rightarrow> cpu \<Rightarrow> (int \<times> cpu) run) \<Rightarrow> u64 \<Rightarrow> u64 \<Rightarrow> u64 \<Rightarrow> cpu \<Rightarrow> bool" where
  "copies f d s n \<sigma> = (\<exists>\<sigma>1. f d s n \<sigma> = Inr (0, fence StoreFence \<sigma>1) \<and> moved d s (unat n) \<sigma> \<sigma>1)"

locale copy_routine =
  fixes f :: "u64 \<Rightarrow> u64 \<Rightarrow> u64 \<Rightarrow> cpu \<Rightarrow> (int \<times> cpu) run"
  assumes copies: "apart d s (unat n) \<Longrightarrow> copies f d s n \<sigma>"
begin

lemma copies_fenced:
  assumes "f d s n \<sigma> = Inr (ret, \<sigma>')" and "apart d s (unat n)"
  shows "ret = 0 \<and> pending \<sigma>' = [] \<and> mem \<sigma>' = copy_bytes (mem \<sigma>) d s (unat n)"
  using copies [OF assms(2), of \<sigma>] assms(1) by (auto simp: copies_def moved_def)

lemma copies_outside:
  assumes "f d s n \<sigma> = Inr (ret, \<sigma>')" and "apart d s (unat n)" and "\<not> unat (a - d) < unat n"
  shows "mem \<sigma>' a = mem \<sigma> a"
  using copies_fenced [OF assms(1,2)] assms(3) by (simp add: copy_bytes_def)

lemma copies_source:
  assumes "f d s n \<sigma> = Inr (ret, \<sigma>')" and "apart d s (unat n)" and "unat x < unat n"
  shows "mem \<sigma>' (d + x) = mem \<sigma> (s + x) \<and> mem \<sigma>' (s + x) = mem \<sigma> (s + x)"
  using copies_fenced [OF assms(1,2)] copies_outside [OF assms(1,2) apart_source [OF assms(2,3)]]
    assms(3) by (simp add: copy_bytes_def)

end

text \<open>
  A routine that writes to the mapping and one that reads it back: together they return the
  bytes that were written.
\<close>

locale copy_pair = wr: copy_routine f + rd: copy_routine g for f g
begin

lemma read_back:
  assumes "apart d s (unat n)" and "apart b d (unat n)"
  shows "\<exists>\<sigma>1 \<sigma>2. f d s n \<sigma> = Inr (0, \<sigma>1) \<and> g b d n \<sigma>1 = Inr (0, \<sigma>2) \<and>
    (\<forall>x. unat x < unat n \<longrightarrow> mem \<sigma>2 (b + x) = mem \<sigma> (s + x))"
proof -
  obtain \<sigma>1 where 1: "f d s n \<sigma> = Inr (0, \<sigma>1)"
    using wr.copies [OF assms(1), of \<sigma>] by (auto simp: copies_def)
  obtain \<sigma>2 where 2: "g b d n \<sigma>1 = Inr (0, \<sigma>2)"
    using rd.copies [OF assms(2), of \<sigma>1] by (auto simp: copies_def)
  show ?thesis
    using 1 2 wr.copies_source [OF 1 assms(1)] rd.copies_source [OF 2 assms(2)] by auto
qed

end

text \<open>The shape of every routine: head, loops, tail, fence.\<close>

lemma routine_copies:
  assumes f: "f d s n \<sigma> = bindE (align_head w p d s n \<sigma>) (\<lambda>v. bindE (mid v) (\<lambda>v.
      bindE (copy_tail v) (\<lambda>\<sigma>. Inr (0, fence StoreFence \<sigma>))))"
    and w: "w = 2 ^ k" and k: "k < 64" and ap: "apart d s (unat n)"
    and mid: "\<And>d' s' n' \<sigma>'. progress d s n \<sigma> (d', s', n', \<sigma>') \<Longrightarrow>
      n' = 0 \<or> aligned_at (2 ^ k) (p + (d' - d)) \<Longrightarrow>
      \<exists>v. mid (d', s', n', \<sigma>') = Inr v \<and> progress d s n \<sigma> v"
  shows "copies f d s n \<sigma>"
proof -
  obtain d' s' n' \<sigma>1 where 1: "align_head (2 ^ k) p d s n \<sigma> = Inr (d', s', n', \<sigma>1)"
      "progress d s n \<sigma> (d', s', n', \<sigma>1)" "n' = 0 \<or> aligned_at (2 ^ k) (p + (d' - d))"
    using align_head_progress [OF ap k] by blast
  from mid [OF 1(2,3)] obtain v where 2: "mid (d', s', n', \<sigma>1) = Inr v" "progress d s n \<sigma> v"
    by blast
  from copy_tail_progress [OF 2(2) ap] obtain \<sigma>2
    where "copy_tail v = Inr \<sigma>2" "moved d s (unat n) \<sigma> \<sigma>2" by blast
  with 1 2 show ?thesis
    unfolding copies_def f w by auto
qed

lemma progress_diff: "progress d s n \<sigma> (d', s', n', \<sigma>') \<Longrightarrow> d' - d = s' - s"
  by (auto simp: progress_def)

end
