(* ===== verification/Copy_Simd.thy ===== *)
theory Copy_Simd
  imports Copy_Block
begin

text \<open>
  The five vector copy routines of \<open>memcpy_avx.c\<close>, \<open>memcpy_sse.c\<close> and \<open>memcpy_sse41.c\<close>, each
  written out as its source, with its instruction widths, unrolling and alignment tests.
  Every one is shown to be a \<open>copy_routine\<close>: on disjoint regions of any size and alignment it
  never executes an aligned instruction on an unaligned address, moves exactly the bytes
  asked for and leaves no store unfenced.
\<close>

section \<open>memcpy_avx.c\<close>

definition memcpy_uncached_store_avx :: "u64 \<Rightarrow> u64 \<Rightarrow> u64 \<Rightarrow> cpu \<Rightarrow> (int \<times> cpu) run" where
  "memcpy_uncached_store_avx dest src n_bytes \<sigma> =
     bindE (align_head 0x20 dest dest src n_bytes \<sigma>) (\<lambda>v.
     bindE (case v of (d, s, n, \<sigma>) \<Rightarrow>
         if s AND 0x1f \<noteq> 0 then
           bindE (block_loop 128 (simd_block LoadU StreamStore 32 4) d s n \<sigma>) (\<lambda>(d, s, n, \<sigma>).
           block_loop 32 (simd_block LoadU StreamStore 32 1) d s n \<sigma>)
         else
           bindE (block_loop 256 (simd_block Load StreamStore 32 8) d s n \<sigma>) (\<lambda>(d, s, n, \<sigma>).
           block_loop 32 (simd_block Load StreamStore 32 1) d s n \<sigma>)) (\<lambda>v.
     bindE (copy_tail v) (\<lambda>\<sigma>. Inr (0, fence StoreFence \<sigma>))))"

definition memcpy_cached_store_avx :: "u64 \<Rightarrow> u64 \<Rightarrow> u64 \<Rightarrow> cpu \<Rightarrow> (int \<times> cpu) run" where
  "memcpy_cached_store_avx dest src n_bytes \<sigma> =
     bindE (align_head 0x20 dest dest src n_bytes \<sigma>) (\<lambda>v.
     bindE (case v of (d, s, n, \<sigma>) \<Rightarrow>
         if s AND 0x1f \<noteq> 0 then
           bindE (block_loop 128 (simd_block LoadU Store 32 4) d s n \<sigma>) (\<lambda>(d, s, n, \<sigma>).
           block_loop 32 (simd_block LoadU Store 32 1) d s n \<sigma>)
         else
           bindE (block_loop 128 (simd_block Load Store 32 4) d s n \<sigma>) (\<lambda>(d, s, n, \<sigma>).
           block_loop 32 (simd_block Load Store 32 1) d s n \<sigma>)) (\<lambda>v.
     bindE (copy_tail v) (\<lambda>\<sigma>. Inr (0, fence StoreFence \<sigma>))))"

section \<open>memcpy_sse.c\<close>

definition memcpy_uncached_store_sse :: "u64 \<Rightarrow> u64 \<Rightarrow> u64 \<Rightarrow> cpu \<Rightarrow> (int \<times> cpu) run" where
  "memcpy_uncached_store_sse dest src n_bytes \<sigma> =
     bindE (align_head 0x10 dest dest src n_bytes \<sigma>) (\<lambda>v.
     bindE (case v of (d, s, n, \<sigma>) \<Rightarrow>
         if s AND 0xf \<noteq> 0 then
           bindE (block_loop 64 (simd_block LoadU StreamStore 16 4) d s n \<sigma>) (\<lambda>(d, s, n, \<sigma>).
           block_loop 16 (simd_block LoadU StreamStore 16 1) d s n \<sigma>)
         else
           bindE (block_loop 64 (simd_block Load StreamStore 16 4) d s n \<sigma>) (\<lambda>(d, s, n, \<sigma>).
           block_loop 16 (simd_block Load StreamStore 16 1) d s n \<sigma>)) (\<lambda>v.
     bindE (copy_tail v) (\<lambda>\<sigma>. Inr (0, fence StoreFence \<sigma>))))"

definition memcpy_cached_store_sse :: "u64 \<Rightarrow> u64 \<Rightarrow> u64 \<Rightarrow> cpu \<Rightarrow> (int \<times> cpu) run" where
  "memcpy_cached_store_sse dest src n_bytes \<sigma> =
     bindE (align_head 0x10 dest dest src n_bytes \<sigma>) (\<lambda>v.
     bindE (case v of (d, s, n, \<sigma>) \<Rightarrow>
         if s AND 0xf \<noteq> 0 then
           bindE (block_loop 64 (simd_block LoadU Store 16 4) d s n \<sigma>) (\<lambda>(d, s, n, \<sigma>).
           block_loop 16 (simd_block LoadU Store 16 1) d s n \<sigma>)
         else
           bindE (block_loop 64 (simd_block Load Store 16 4) d s n \<sigma>) (\<lambda>(d, s, n, \<sigma>).
           block_loop 16 (simd_block Load Store 16 1) d s n \<sigma>)) (\<lambda>v.
     bindE (copy_tail v) (\<lambda>\<sigma>. Inr (0, fence StoreFence \<sigma>))))"

section \<open>memcpy_sse41.c\<close>

text \<open>Here the source is the mapping, and the source is the pointer that is aligned.\<close>

definition memcpy_uncached_load_sse41 :: "u64 \<Rightarrow> u64 \<Rightarrow> u64 \<Rightarrow> cpu \<Rightarrow> (int \<times> cpu) run" where
  "memcpy_uncached_load_sse41 dest src n_bytes \<sigma> =
     bindE (align_head 0x10 src dest src n_bytes \<sigma>) (\<lambda>v.
     bindE (case v of (d, s, n, \<sigma>) \<Rightarrow>
         if d AND 0xf \<noteq> 0 then
           bindE (block_loop 128 (simd_block StreamLoad StoreU 16 8) d s n \<sigma>) (\<lambda>(d, s, n, \<sigma>).
           block_loop 16 (simd_block StreamLoad StoreU 16 1) d s n \<sigma>)
         else
           bindE (block_loop 128 (simd_block StreamLoad StreamStore 16 8) d s n \<sigma>) (\<lambda>(d, s, n, \<sigma>).
           block_loop 16 (simd_block StreamLoad StreamStore 16 1) d s n \<sigma>)) (\<lambda>v.
     bindE (copy_tail v) (\<lambda>\<sigma>. Inr (0, fence StoreFence \<sigma>))))"

section \<open>Their loops\<close>

lemma simd_loops:
  assumes "w dvd 2 ^ 64" and "0 < w" and "unat sz = k * w" and "0 < k" and "unat sz1 = w"
  shows "copy_loops sz (simd_block lk sk w k) sz1 (simd_block lk sk w 1) (simd_ready lk sk w)"
  using assms by (intro copy_loops.intro simd_step) simp_all

interpretation avx_u_nt: copy_loops 128 "simd_block LoadU StreamStore 32 4"
    32 "simd_block LoadU StreamStore 32 1" "simd_ready LoadU StreamStore 32"
  by (rule simd_loops) simp_all

interpretation avx_a_nt: copy_loops 256 "simd_block Load StreamStore 32 8"
    32 "simd_block Load StreamStore 32 1" "simd_ready Load StreamStore 32"
  by (rule simd_loops) simp_all

interpretation avx_u: copy_loops 128 "simd_block LoadU Store 32 4"
    32 "simd_block LoadU Store 32 1" "simd_ready LoadU Store 32"
  by (rule simd_loops) simp_all

interpretation avx_a: copy_loops 128 "simd_block Load Store 32 4"
    32 "simd_block Load Store 32 1" "simd_ready Load Store 32"
  by (rule simd_loops) simp_all

interpretation sse_u_nt: copy_loops 64 "simd_block LoadU StreamStore 16 4"
    16 "simd_block LoadU StreamStore 16 1" "simd_ready LoadU StreamStore 16"
  by (rule simd_loops) simp_all

interpretation sse_a_nt: copy_loops 64 "simd_block Load StreamStore 16 4"
    16 "simd_block Load StreamStore 16 1" "simd_ready Load StreamStore 16"
  by (rule simd_loops) simp_all

interpretation sse_u: copy_loops 64 "simd_block LoadU Store 16 4"
    16 "simd_block LoadU Store 16 1" "simd_ready LoadU Store 16"
  by (rule simd_loops) simp_all

interpretation sse_a: copy_loops 64 "simd_block Load Store 16 4"
    16 "simd_block Load Store 16 1" "simd_ready Load Store 16"
  by (rule simd_loops) simp_all

interpretation sse41_u: copy_loops 128 "simd_block StreamLoad StoreU 16 8"
    16 "simd_block StreamLoad StoreU 16 1" "simd_ready StreamLoad StoreU 16"
  by (rule simd_loops) simp_all

interpretation sse41_a: copy_loops 128 "simd_block StreamLoad StreamStore 16 8"
    16 "simd_block StreamLoad StreamStore 16 1" "simd_ready StreamLoad StreamStore 16"
  by (rule simd_loops) simp_all

section \<open>The routines copy\<close>

lemma low_bits_aligned:
  "(p AND 0x1f = (0 :: u64)) = aligned_at 32 p" "(p AND 0xf = (0 :: u64)) = aligned_at 16 p"
  using and_low_aligned [of p 5] and_low_aligned [of p 4] by simp_all

lemmas simd_guards = simd_ready_def ld_aligned_def st_aligned_def low_bits_aligned

lemma memcpy_uncached_store_avx_copies: "apart d s (unat n) \<Longrightarrow> copies memcpy_uncached_store_avx d s n \<sigma>"
  apply (rule routine_copies [OF memcpy_uncached_store_avx_def, where k = 5])
  apply simp_all
  subgoal premises p for d' s' n' \<sigma>'
    using avx_u_nt.both_progress [OF p(2,1)] avx_a_nt.both_progress [OF p(2,1)] p(3)
    by (auto simp: simd_guards)
  done

lemma memcpy_cached_store_avx_copies: "apart d s (unat n) \<Longrightarrow> copies memcpy_cached_store_avx d s n \<sigma>"
  apply (rule routine_copies [OF memcpy_cached_store_avx_def, where k = 5])
  apply simp_all
  subgoal premises p for d' s' n' \<sigma>'
    using avx_u.both_progress [OF p(2,1)] avx_a.both_progress [OF p(2,1)] p(3)
    by (auto simp: simd_guards)
  done

lemma memcpy_uncached_store_sse_copies: "apart d s (unat n) \<Longrightarrow> copies memcpy_uncached_store_sse d s n \<sigma>"
  apply (rule routine_copies [OF memcpy_uncached_store_sse_def, where k = 4])
  apply simp_all
  subgoal premises p for d' s' n' \<sigma>'
    using sse_u_nt.both_progress [OF p(2,1)] sse_a_nt.both_progress [OF p(2,1)] p(3)
    by (auto simp: simd_guards)
  done

lemma memcpy_cached_store_sse_copies: "apart d s (unat n) \<Longrightarrow> copies memcpy_cached_store_sse d s n \<sigma>"
  apply (rule routine_copies [OF memcpy_cached_store_sse_def, where k = 4])
  apply simp_all
  subgoal premises p for d' s' n' \<sigma>'
    using sse_u.both_progress [OF p(2,1)] sse_a.both_progress [OF p(2,1)] p(3)
    by (auto simp: simd_guards)
  done

lemma memcpy_uncached_load_sse41_copies: "apart d s (unat n) \<Longrightarrow> copies memcpy_uncached_load_sse41 d s n \<sigma>"
  apply (rule routine_copies [OF memcpy_uncached_load_sse41_def, where k = 4])
  apply simp_all
  subgoal premises p for d' s' n' \<sigma>'
    using sse41_u.both_progress [OF p(2,1)] sse41_a.both_progress [OF p(2,1)] p(3) progress_diff [OF p(2)]
    by (auto simp: simd_guards)
  done

interpretation avx_nt: copy_routine memcpy_uncached_store_avx
  by unfold_locales (rule memcpy_uncached_store_avx_copies)

interpretation avx: copy_routine memcpy_cached_store_avx
  by unfold_locales (rule memcpy_cached_store_avx_copies)

interpretation sse_nt: copy_routine memcpy_uncached_store_sse
  by unfold_locales (rule memcpy_uncached_store_sse_copies)

interpretation sse: copy_routine memcpy_cached_store_sse
  by unfold_locales (rule memcpy_cached_store_sse_copies)

interpretation sse41: copy_routine memcpy_uncached_load_sse41
  by unfold_locales (rule memcpy_uncached_load_sse41_copies)

interpretation avx_pair: copy_pair memcpy_uncached_store_avx memcpy_uncached_load_sse41 ..

interpretation sse_pair: copy_pair memcpy_uncached_store_sse memcpy_cached_store_sse ..

end
