(* ===== verification/Copy_Portable.thy ===== *)
theory Copy_Portable
  imports Copy_Block
begin

text \<open>
  The portable copy routines of \<open>gdrapi.c\<close>: the unrolled word copies \<open>unroll8_memcpy\<close> and
  \<open>unroll4_memcpy\<close>, and the copies to and from a device mapping, which must not make an
  unaligned access to the mapping.
\<close>

section \<open>Alignment tests\<close>

definition is_aligned :: "u64 \<Rightarrow> u32 \<Rightarrow> bool" where
  "is_aligned value powof2 = (value AND ucast (powof2 - 1) = 0)"

definition ptr_is_aligned :: "u64 \<Rightarrow> u32 \<Rightarrow> bool" where
  "ptr_is_aligned p powof2 = is_aligned p powof2"

lemma is_aligned_at:
  "is_aligned a 8 = aligned_at 8 a" "is_aligned a 4 = aligned_at 4 a"
  "is_aligned a 2 = aligned_at 2 a"
  using and_low_aligned [of a 3] and_low_aligned [of a 2] and_low_aligned [of a 1]
  by (simp_all add: is_aligned_def)

section \<open>Unrolled word copies\<close>

lemma low_bits_zero:
  "(nw AND 3 = (0 :: u64)) = (unat nw mod 4 = 0)" "(nw AND 1 = (0 :: u64)) = (unat nw mod 2 = 0)"
  using and_low_aligned [of nw 2] and_low_aligned [of nw 1] by (simp_all add: aligned_at_def)

lemma unat_sub_small: "unat k \<le> unat (n :: u64) \<Longrightarrow> unat (n - k) = unat n - unat k"
  by (simp add: unat_sub word_le_nat_alt)

lemma unroll_step:
  assumes "nw \<noteq> (0 :: u64)"
  shows "unat nw mod 4 = 0 \<Longrightarrow> unat (nw - 4) + 4 = unat nw"
    and "unat nw mod 2 = 0 \<Longrightarrow> unat (nw - 2) + 2 = unat nw"
    and "unat (nw - 1) + 1 = unat nw"
proof -
  have pos: "0 < unat nw" using assms by (simp add: unat_gt_0)
  show "unat (nw - 4) + 4 = unat nw" if m: "unat nw mod 4 = 0"
  proof -
    have "4 \<le> unat nw" using m pos by presburger
    then show ?thesis using unat_sub_small [of 4 nw] by simp
  qed
  show "unat (nw - 2) + 2 = unat nw" if m: "unat nw mod 2 = 0"
  proof -
    have "2 \<le> unat nw" using m pos by presburger
    then show ?thesis using unat_sub_small [of 2 nw] by simp
  qed
  show "unat (nw - 1) + 1 = unat nw"
    using pos unat_sub_small [of 1 nw] by simp
qed

text \<open>
  The loops of \<open>unroll8_memcpy\<close> (\<open>w = 8\<close>) and \<open>unroll4_memcpy\<close> (\<open>w = 4\<close>), which differ in the
  word type only: four, two or one words per round, all reads of a round before its writes.
\<close>

function unroll_words :: "nat \<Rightarrow> u64 \<Rightarrow> u64 \<Rightarrow> u64 \<Rightarrow> cpu \<Rightarrow> cpu run" where
  "unroll_words w nw wp rp \<sigma> =
     (if nw = 0 then Inr \<sigma>
      else if nw AND 3 = 0 then
        bindE (simd_block Read Write w 4 wp rp \<sigma>)
          (unroll_words w (nw - 4) (wp + of_nat (4 * w)) (rp + of_nat (4 * w)))
      else if nw AND 1 = 0 then
        bindE (simd_block Read Write w 2 wp rp \<sigma>)
          (unroll_words w (nw - 2) (wp + of_nat (2 * w)) (rp + of_nat (2 * w)))
      else
        bindE (simd_block Read Write w 1 wp rp \<sigma>)
          (unroll_words w (nw - 1) (wp + of_nat w) (rp + of_nat w)))"
  by pat_completeness auto
termination
proof (relation "measure (\<lambda>(w, nw, wp, rp, \<sigma>). unat nw)", simp_all)
  fix nw :: u64
  assume nz: "nw \<noteq> 0"
  show "unat (nw - 4) < unat nw" if "nw AND 3 = 0"
    using unroll_step(1) [OF nz] that by (simp add: low_bits_zero)
  show "unat (nw - 2) < unat nw" if "nw AND 1 = 0"
    using unroll_step(2) [OF nz] that by (simp add: low_bits_zero)
  show "unat (nw - 1) < unat nw"
    using unroll_step(3) [OF nz] by simp
qed

declare unroll_words.simps [simp del]

definition unroll8_memcpy :: "u64 \<Rightarrow> u64 \<Rightarrow> u64 \<Rightarrow> cpu \<Rightarrow> cpu run" where
  "unroll8_memcpy dst src sz \<sigma> =
     bindE (checkE (sz mod 8 = 0) AssertFail) (\<lambda>_. unroll_words 8 (sz div 8) dst src \<sigma>)"

definition unroll4_memcpy :: "u64 \<Rightarrow> u64 \<Rightarrow> u64 \<Rightarrow> cpu \<Rightarrow> cpu run" where
  "unroll4_memcpy dst src sz \<sigma> =
     bindE (checkE (sz mod 4 = 0) AssertFail) (\<lambda>_. unroll_words 4 (sz div 4) dst src \<sigma>)"

lemma scalar_ready: "simd_ready Read Write w d s"
  by (simp add: simd_ready_def ld_aligned_def st_aligned_def)

text \<open>One round of \<open>k\<close> words followed by the rest of the copy.\<close>

lemma unroll_round:
  assumes w: "w dvd 2 ^ 64" and ap: "apart d s (w * (m + k))"
    and rest: "\<And>\<sigma>1. \<exists>\<sigma>2. cont \<sigma>1 = Inr \<sigma>2 \<and>
      moved (d + of_nat (k * w)) (s + of_nat (k * w)) (w * m) \<sigma>1 \<sigma>2"
  shows "\<exists>\<sigma>2. bindE (simd_block Read Write w k d s \<sigma>) cont = Inr \<sigma>2 \<and>
    moved d s (w * (m + k)) \<sigma> \<sigma>2"
proof -
  have sum: "w * (m + k) = k * w + w * m" by (simp add: algebra_simps)
  have "apart d s (k * w)" using ap by (simp add: apart_def sum)
  from simd_block_moves [OF scalar_ready w this] obtain \<sigma>1
    where 1: "simd_block Read Write w k d s \<sigma> = Inr \<sigma>1" "moved d s (k * w) \<sigma> \<sigma>1" by blast
  from rest [of \<sigma>1] obtain \<sigma>2 where 2: "cont \<sigma>1 = Inr \<sigma>2"
      "moved (d + of_nat (k * w)) (s + of_nat (k * w)) (w * m) \<sigma>1 \<sigma>2" by blast
  from moved_trans [OF 1(2) 2(2)] ap have "moved d s (w * (m + k)) \<sigma> \<sigma>2" by (simp add: sum)
  with 1 2 show ?thesis by auto
qed

lemma unroll_words_moves:
  assumes "w dvd 2 ^ 64" and "apart d s (w * unat nw)"
  shows "\<exists>\<sigma>'. unroll_words w nw d s \<sigma> = Inr \<sigma>' \<and> moved d s (w * unat nw) \<sigma> \<sigma>'"
  using assms(2)
proof (induction nw arbitrary: d s \<sigma> rule: measure_induct_rule [where f = unat])
  case (less nw)
  have IH: "\<exists>\<sigma>2. unroll_words w (nw - k) (d + of_nat (unat k * w)) (s + of_nat (unat k * w)) \<sigma>1 =
      Inr \<sigma>2 \<and> moved (d + of_nat (unat k * w)) (s + of_nat (unat k * w)) (w * unat (nw - k)) \<sigma>1 \<sigma>2"
    if "unat (nw - k) + unat k = unat nw" "k \<noteq> 0" for k \<sigma>1
  proof (rule less.IH)
    show "unat (nw - k) < unat nw"
      using that unat_gt_0 [of k] by linarith
    have "w * unat (nw - k) \<le> w * unat nw" using that(1) by (intro mult_le_mono2) linarith
    then show "apart (d + of_nat (unat k * w)) (s + of_nat (unat k * w)) (w * unat (nw - k))"
      by (rule apart_mono [OF less.prems])
  qed
  have round: "\<exists>\<sigma>'. bindE (simd_block Read Write w (unat k) d s \<sigma>)
      (unroll_words w (nw - k) (d + of_nat (unat k * w)) (s + of_nat (unat k * w))) = Inr \<sigma>' \<and>
      moved d s (w * unat nw) \<sigma> \<sigma>'"
    if k: "unat (nw - k) + unat k = unat nw" "k \<noteq> 0" for k
    using unroll_round [OF assms(1), of d s "unat (nw - k)" "unat k"] IH [OF k] less.prems
    unfolding k(1) by blast
  show ?case
  proof (cases "nw = 0")
    case True
    then show ?thesis by (simp add: unroll_words.simps [of w 0] moved_0)
  next
    case nz: False
    note steps = unroll_step [OF nz]
    show ?thesis
      using nz round [of 4] round [of 2] round [of 1] steps
      by (cases "unat nw mod 4 = 0"; cases "unat nw mod 2 = 0")
        (simp_all add: unroll_words.simps [of w nw d s \<sigma>] low_bits_zero)
  qed
qed

lemma unroll8_memcpy_moves:
  assumes "apart d s (unat n)" and "n mod 8 = 0"
  shows "\<exists>\<sigma>'. unroll8_memcpy d s n \<sigma> = Inr \<sigma>' \<and> moved d s (unat n) \<sigma> \<sigma>'"
proof -
  have "unat n mod 8 = 0"
    using arg_cong [OF assms(2), of unat] by (simp add: unat_mod)
  then have "8 * unat (n div 8) = unat n"
    by (simp add: unat_div mult.commute dvd_mult_div_cancel mod_0_imp_dvd)
  then show ?thesis
    using unroll_words_moves [of 8 d s "n div 8" \<sigma>] assms by (simp add: unroll8_memcpy_def)
qed

lemma unroll4_memcpy_moves:
  assumes "apart d s (unat n)" and "n mod 4 = 0"
  shows "\<exists>\<sigma>'. unroll4_memcpy d s n \<sigma> = Inr \<sigma>' \<and> moved d s (unat n) \<sigma> \<sigma>'"
proof -
  have "unat n mod 4 = 0"
    using arg_cong [OF assms(2), of unat] by (simp add: unat_mod)
  then have "4 * unat (n div 4) = unat n"
    by (simp add: unat_div mult.commute dvd_mult_div_cancel mod_0_imp_dvd)
  then show ?thesis
    using unroll_words_moves [of 4 d s "n div 4" \<sigma>] assms by (simp add: unroll4_memcpy_def)
qed

section \<open>Copies to and from a device mapping\<close>

text \<open>
  The choice of access made on every round, from the remaining size, the pointer into the
  mapping and the host pointer: \<open>None\<close> is \<open>memcpy\<close> of all that remains.
\<close>

definition device_access :: "u64 \<Rightarrow> u64 \<Rightarrow> u64 \<Rightarrow> nat option" where
  "device_access remaining_size curr_map_d_ptr curr_h_ptr =
     (if is_aligned remaining_size 8 \<and> ptr_is_aligned curr_map_d_ptr 8 \<and> ptr_is_aligned curr_h_ptr 8
      then None
      else if 8 \<le> remaining_size \<and> ptr_is_aligned curr_map_d_ptr 8 then Some 8
      else if 4 \<le> remaining_size \<and> ptr_is_aligned curr_map_d_ptr 4 then Some 4
      else if 2 \<le> remaining_size \<and> ptr_is_aligned curr_map_d_ptr 2 then Some 2
      else Some 1)"

lemma device_access_bound:
  assumes "device_access r m h = Some w" and "0 < r"
  shows "0 < w \<and> of_nat w \<le> r \<and> w \<le> 8 \<and> aligned_at w m"
proof -
  have "(1 :: u64) \<le> r" using assms(2) by (simp add: word_le_nat_alt word_less_nat_alt)
  then show ?thesis
    using assms(1)
    by (auto simp: device_access_def ptr_is_aligned_def is_aligned_at aligned_at_def
        split: if_splits)
qed

function memcpy_to_device_mapping :: "u64 \<Rightarrow> u64 \<Rightarrow> u64 \<Rightarrow> cpu \<Rightarrow> cpu run" where
  "memcpy_to_device_mapping dst src remaining_size \<sigma> =
     (if 0 < remaining_size then
        (case device_access remaining_size dst src of
           None \<Rightarrow> bindE (memcpy dst src remaining_size \<sigma>)
             (memcpy_to_device_mapping (dst + remaining_size) (src + remaining_size) 0)
         | Some copy_size \<Rightarrow> bindE (move_scalar copy_size dst src \<sigma>)
             (memcpy_to_device_mapping (dst + of_nat copy_size) (src + of_nat copy_size)
               (remaining_size - of_nat copy_size)))
      else Inr \<sigma>)"
  by pat_completeness auto

function memcpy_from_device_mapping :: "u64 \<Rightarrow> u64 \<Rightarrow> u64 \<Rightarrow> cpu \<Rightarrow> cpu run" where
  "memcpy_from_device_mapping dst src remaining_size \<sigma> =
     (if 0 < remaining_size then
        (case device_access remaining_size src dst of
           None \<Rightarrow> bindE (memcpy dst src remaining_size \<sigma>)
             (memcpy_from_device_mapping (dst + remaining_size) (src + remaining_size) 0)
         | Some copy_size \<Rightarrow> bindE (move_scalar copy_size dst src \<sigma>)
             (memcpy_from_device_mapping (dst + of_nat copy_size) (src + of_nat copy_size)
               (remaining_size - of_nat copy_size)))
      else Inr \<sigma>)"
  by pat_completeness auto

lemma device_access_less:
  assumes "0 < r" and "device_access r m h = Some w"
  shows "unat (r - of_nat w) < unat r" and "unat (r - of_nat w) + w = unat r"
proof -
  have w: "0 < w" "(of_nat w :: u64) \<le> r" "w \<le> 8"
    using device_access_bound [OF assms(2,1)] by auto
  have "unat (of_nat w :: u64) = w" using w(3) by (simp add: unat_of_nat64)
  moreover from this have "w \<le> unat r" using w(2) by (simp add: word_le_nat_alt)
  ultimately show "unat (r - of_nat w) + w = unat r" using w(2) by (simp add: unat_sub)
  with w(1) show "unat (r - of_nat w) < unat r" by simp
qed

termination memcpy_to_device_mapping
  by (relation "measure (\<lambda>(dst, src, r, \<sigma>). unat r)")
    (simp_all add: device_access_less unat_gt_0 word_neq_0_conv)

termination memcpy_from_device_mapping
  by (relation "measure (\<lambda>(dst, src, r, \<sigma>). unat r)")
    (simp_all add: device_access_less unat_gt_0 word_neq_0_conv)

declare memcpy_to_device_mapping.simps [simp del] memcpy_from_device_mapping.simps [simp del]

text \<open>
  What a device mapping demands of the accesses to it: a scalar write (read) of \<open>w\<close> bytes at a
  multiple of \<open>w\<close>, and \<open>memcpy\<close> between 8-aligned pointers of a multiple of 8 bytes only.
\<close>

fun device_store :: "access \<Rightarrow> bool" where
  "device_store (St sk a w) = (sk = Write \<and> aligned_at w a)"
| "device_store (Memcpy d s n) = (aligned_at 8 d \<and> aligned_at 8 s \<and> n mod 8 = 0)"
| "device_store _ = True"

fun device_load :: "access \<Rightarrow> bool" where
  "device_load (Ld lk a w) = (lk = Read \<and> aligned_at w a)"
| "device_load (Memcpy d s n) = (aligned_at 8 d \<and> aligned_at 8 s \<and> n mod 8 = 0)"
| "device_load _ = True"

definition moved_by :: "(access \<Rightarrow> bool) \<Rightarrow> u64 \<Rightarrow> u64 \<Rightarrow> nat \<Rightarrow> cpu \<Rightarrow> cpu \<Rightarrow> bool" where
  "moved_by ok d s n \<sigma> \<sigma>' = (moved d s n \<sigma> \<sigma>' \<and>
     (\<exists>es. trace \<sigma>' = trace \<sigma> @ es \<and> list_all ok es))"

lemma moved_by_trans:
  assumes "moved_by ok d s j \<sigma> \<sigma>1" and "moved_by ok (d + of_nat j) (s + of_nat j) k \<sigma>1 \<sigma>2"
    and "apart d s (j + k)"
  shows "moved_by ok d s (j + k) \<sigma> \<sigma>2"
  using assms moved_trans unfolding moved_by_def by fastforce

lemma moved_by_0: "moved_by ok d s 0 \<sigma> \<sigma>"
  by (simp add: moved_by_def moved_0)

lemma memcpy_moved_by:
  assumes "apart d s (unat n)" and "ok (Memcpy d s (unat n))"
  shows "\<exists>\<sigma>'. memcpy d s n \<sigma> = Inr \<sigma>' \<and> moved_by ok d s (unat n) \<sigma> \<sigma>'"
  using assms by (simp add: memcpy_def moved_def moved_by_def)

lemma move_scalar_moved_by:
  assumes "ok (Ld Read s w)" and "ok (St Write d w)"
  shows "\<exists>\<sigma>'. move_scalar w d s \<sigma> = Inr \<sigma>' \<and> moved_by ok d s w \<sigma> \<sigma>'"
  using assms by (simp add: move_scalar_def load_def store_def ld_aligned_def st_aligned_def
      moved_def moved_by_def write_read_bytes)

text \<open>One round of a device copy, in either direction.\<close>

lemma device_round:
  assumes ap: "apart d s (unat r)" and r: "0 < r"
    and acc: "device_access r m h = Some w" and ok: "ok (Ld Read s w)" "ok (St Write d w)"
    and IH: "\<And>\<sigma>1. apart (d + of_nat w) (s + of_nat w) (unat (r - of_nat w)) \<Longrightarrow>
      \<exists>\<sigma>2. cont \<sigma>1 = Inr \<sigma>2 \<and>
        moved_by ok (d + of_nat w) (s + of_nat w) (unat (r - of_nat w)) \<sigma>1 \<sigma>2"
  shows "\<exists>\<sigma>2. bindE (move_scalar w d s \<sigma>) cont = Inr \<sigma>2 \<and> moved_by ok d s (unat r) \<sigma> \<sigma>2"
proof -
  note len = device_access_less [OF r acc]
  obtain \<sigma>1 where 1: "move_scalar w d s \<sigma> = Inr \<sigma>1" "moved_by ok d s w \<sigma> \<sigma>1"
    using move_scalar_moved_by [of ok, OF ok] by blast
  have "apart (d + of_nat w) (s + of_nat w) (unat (r - of_nat w))"
    by (rule apart_mono [OF ap]) (simp add: len less_imp_le)
  from IH [OF this] obtain \<sigma>2 where 2: "cont \<sigma>1 = Inr \<sigma>2"
      "moved_by ok (d + of_nat w) (s + of_nat w) (unat (r - of_nat w)) \<sigma>1 \<sigma>2" by blast
  have "w + unat (r - of_nat w) = unat r" using len(2) by simp
  with moved_by_trans [OF 1(2) 2(2)] ap have "moved_by ok d s (unat r) \<sigma> \<sigma>2" by simp
  with 1 2 show ?thesis by simp
qed

lemma device_memcpy:
  assumes "device_access r m h = None"
  shows "aligned_at 8 m \<and> aligned_at 8 h \<and> unat r mod 8 = 0"
  using assms
  by (auto simp: device_access_def ptr_is_aligned_def is_aligned_at aligned_at_def split: if_splits)

lemma memcpy_to_device_mapping_moves:
  "apart d s (unat n) \<Longrightarrow> \<exists>\<sigma>'. memcpy_to_device_mapping d s n \<sigma> = Inr \<sigma>' \<and>
     moved_by device_store d s (unat n) \<sigma> \<sigma>'"
proof (induction n arbitrary: d s \<sigma> rule: measure_induct_rule [where f = unat])
  case (less n)
  show ?case
  proof (cases "0 < n")
    case False
    then have "n = 0" by (simp add: word_less_nat_alt unat_eq_zero)
    then show ?thesis by (simp add: memcpy_to_device_mapping.simps [of d s 0] moved_by_0)
  next
    case True
    show ?thesis
    proof (cases "device_access n d s")
      case None
      with memcpy_moved_by [OF less.prems, of device_store \<sigma>] device_memcpy [OF None] True
      show ?thesis
        by (auto simp: memcpy_to_device_mapping.simps [of d s n]
            memcpy_to_device_mapping.simps [of _ _ 0])
    next
      case (Some w)
      have "aligned_at w d" using device_access_bound [OF Some True] by simp
      then have "\<exists>\<sigma>2. bindE (move_scalar w d s \<sigma>) (memcpy_to_device_mapping (d + of_nat w)
          (s + of_nat w) (n - of_nat w)) = Inr \<sigma>2 \<and> moved_by device_store d s (unat n) \<sigma> \<sigma>2"
        by (intro device_round [OF less.prems True Some] less.IH device_access_less(1) [OF True Some])
          auto
      then show ?thesis using True Some by (simp add: memcpy_to_device_mapping.simps [of d s n])
    qed
  qed
qed

lemma memcpy_from_device_mapping_moves:
  "apart d s (unat n) \<Longrightarrow> \<exists>\<sigma>'. memcpy_from_device_mapping d s n \<sigma> = Inr \<sigma>' \<and>
     moved_by device_load d s (unat n) \<sigma> \<sigma>'"
proof (induction n arbitrary: d s \<sigma> rule: measure_induct_rule [where f = unat])
  case (less n)
  show ?case
  proof (cases "0 < n")
    case False
    then have "n = 0" by (simp add: word_less_nat_alt unat_eq_zero)
    then show ?thesis by (simp add: memcpy_from_device_mapping.simps [of d s 0] moved_by_0)
  next
    case True
    show ?thesis
    proof (cases "device_access n s d")
      case None
      with memcpy_moved_by [OF less.prems, of device_load \<sigma>] device_memcpy [OF None] True
      show ?thesis
        by (auto simp: memcpy_from_device_mapping.simps [of d s n]
            memcpy_from_device_mapping.simps [of _ _ 0])
    next
      case (Some w)
      have "aligned_at w s" using device_access_bound [OF Some True] by simp
      then have "\<exists>\<sigma>2. bindE (move_scalar w d s \<sigma>) (memcpy_from_device_mapping (d + of_nat w)
          (s + of_nat w) (n - of_nat w)) = Inr \<sigma>2 \<and> moved_by device_load d s (unat n) \<sigma> \<sigma>2"
        by (intro device_round [OF less.prems True Some] less.IH device_access_less(1) [OF True Some])
          auto
      then show ?thesis using True Some by (simp add: memcpy_from_device_mapping.simps [of d s n])
    qed
  qed
qed

end
