(* ===== verification/Copy_Dispatch.thy ===== *)
theory Copy_Dispatch
  imports Api_Types Copy_Simd Copy_Portable
begin

text \<open>
  The copy entry points of gdrapi.c: which routine copies, which fence follows, and the
  assertions on the way.
\<close>

section \<open>What the platform provides\<close>

text \<open>On POWER and ARM64 the vector routines are stubs that return 1.\<close>

definition uncached_store_avx :: "cpu_arch \<Rightarrow> u64 \<Rightarrow> u64 \<Rightarrow> u64 \<Rightarrow> cpu \<Rightarrow> (int \<times> cpu) run" where
  "uncached_store_avx ar d s n \<sigma> =
     (if ar = X86 then memcpy_uncached_store_avx d s n \<sigma> else Inr (1, \<sigma>))"
definition cached_store_avx :: "cpu_arch \<Rightarrow> u64 \<Rightarrow> u64 \<Rightarrow> u64 \<Rightarrow> cpu \<Rightarrow> (int \<times> cpu) run" where
  "cached_store_avx ar d s n \<sigma> =
     (if ar = X86 then memcpy_cached_store_avx d s n \<sigma> else Inr (1, \<sigma>))"
definition uncached_store_sse :: "cpu_arch \<Rightarrow> u64 \<Rightarrow> u64 \<Rightarrow> u64 \<Rightarrow> cpu \<Rightarrow> (int \<times> cpu) run" where
  "uncached_store_sse ar d s n \<sigma> =
     (if ar = X86 then memcpy_uncached_store_sse d s n \<sigma> else Inr (1, \<sigma>))"
definition cached_store_sse :: "cpu_arch \<Rightarrow> u64 \<Rightarrow> u64 \<Rightarrow> u64 \<Rightarrow> cpu \<Rightarrow> (int \<times> cpu) run" where
  "cached_store_sse ar d s n \<sigma> =
     (if ar = X86 then memcpy_cached_store_sse d s n \<sigma> else Inr (1, \<sigma>))"
definition uncached_load_sse41 :: "cpu_arch \<Rightarrow> u64 \<Rightarrow> u64 \<Rightarrow> u64 \<Rightarrow> cpu \<Rightarrow> (int \<times> cpu) run" where
  "uncached_load_sse41 ar d s n \<sigma> =
     (if ar = X86 then memcpy_uncached_load_sse41 d s n \<sigma> else Inr (1, \<sigma>))"

definition wc_store_fence :: "cpu_arch \<Rightarrow> cpu \<Rightarrow> cpu" where
  "wc_store_fence ar \<sigma> = fence (if ar = PPC64 then FullFence else StoreFence) \<sigma>"

definition memory_fence :: "cpu \<Rightarrow> cpu" where
  "memory_fence \<sigma> = fence FullFence \<sigma>"

definition PREFERS_STORE_UNROLL4 :: "cpu_arch \<Rightarrow> bool" where "PREFERS_STORE_UNROLL4 ar = (ar = PPC64)"
definition PREFERS_STORE_UNROLL8 :: "cpu_arch \<Rightarrow> bool" where "PREFERS_STORE_UNROLL8 ar = False"
definition PREFERS_LOAD_UNROLL4 :: "cpu_arch \<Rightarrow> bool" where "PREFERS_LOAD_UNROLL4 ar = False"
definition PREFERS_LOAD_UNROLL8 :: "cpu_arch \<Rightarrow> bool" where "PREFERS_LOAD_UNROLL8 ar = (ar = PPC64)"

lemmas unroll_prefs = PREFERS_STORE_UNROLL4_def PREFERS_STORE_UNROLL8_def
  PREFERS_LOAD_UNROLL4_def PREFERS_LOAD_UNROLL8_def

section \<open>Copying to the mapping\<close>

text \<open>
  The body of the \<open>do ... while (0)\<close>; the first component of the result is \<open>goto do_fence\<close>
  (or falling out of the loop), as opposed to \<open>goto out\<close>.
\<close>

definition copy_to_body :: "cpu_arch \<Rightarrow> lib \<Rightarrow> u64 \<Rightarrow> u64 \<Rightarrow> u64 \<Rightarrow> u32 \<Rightarrow> cpu \<Rightarrow> (bool \<times> cpu) run" where
  "copy_to_body ar L map_d_ptr h_ptr sz mapping_type \<sigma> =
     (let wc_mapping = (mapping_type = GDR_MAPPING_TYPE_WC);
          device_mapping = (mapping_type = GDR_MAPPING_TYPE_DEVICE);
          do_fence = (\<lambda>r. bindE r (\<lambda>\<sigma>. Inr (True, \<sigma>)));
          out = (\<lambda>r. bindE r (\<lambda>(_, \<sigma>). Inr (False, \<sigma>)))
      in if sz = 1 then do_fence (move_scalar 1 map_d_ptr h_ptr \<sigma>)
         else if sz = 2 \<and> ptr_is_aligned map_d_ptr 2 then do_fence (move_scalar 2 map_d_ptr h_ptr \<sigma>)
         else if sz = 4 \<and> ptr_is_aligned map_d_ptr 4 then do_fence (move_scalar 4 map_d_ptr h_ptr \<sigma>)
         else if sz = 8 \<and> ptr_is_aligned map_d_ptr 8 then do_fence (move_scalar 8 map_d_ptr h_ptr \<sigma>)
         else if has_avx L then
           bindE (checkE wc_mapping AssertFail) (\<lambda>_.
           out (uncached_store_avx ar map_d_ptr h_ptr sz \<sigma>))
         else if has_sse L then
           bindE (checkE wc_mapping AssertFail) (\<lambda>_.
           out (uncached_store_sse ar map_d_ptr h_ptr sz \<sigma>))
         else if wc_mapping \<and> PREFERS_STORE_UNROLL8 ar \<and> is_aligned sz 8 \<and>
           ptr_is_aligned map_d_ptr 8 \<and> ptr_is_aligned h_ptr 8
         then do_fence (unroll8_memcpy map_d_ptr h_ptr sz \<sigma>)
         else if wc_mapping \<and> PREFERS_STORE_UNROLL4 ar \<and> is_aligned sz 4 \<and>
           ptr_is_aligned map_d_ptr 4 \<and> ptr_is_aligned h_ptr 4
         then do_fence (unroll4_memcpy map_d_ptr h_ptr sz \<sigma>)
         else if device_mapping then do_fence (memcpy_to_device_mapping map_d_ptr h_ptr sz \<sigma>)
         else do_fence (memcpy map_d_ptr h_ptr sz \<sigma>))"

definition gdr_copy_to_mapping_internal ::
  "cpu_arch \<Rightarrow> lib \<Rightarrow> u64 \<Rightarrow> u64 \<Rightarrow> u64 \<Rightarrow> u32 \<Rightarrow> cpu \<Rightarrow> (int \<times> cpu) run" where
  "gdr_copy_to_mapping_internal ar L map_d_ptr h_ptr sz mapping_type \<sigma> =
     bindE (copy_to_body ar L map_d_ptr h_ptr sz mapping_type \<sigma>) (\<lambda>(do_fence, \<sigma>1).
     Inr (0,
       if \<not> do_fence then \<sigma>1
       else if gdr_has_mix_mapping L then memory_fence \<sigma>1
       else if mapping_type = GDR_MAPPING_TYPE_WC then wc_store_fence ar \<sigma>1
       else \<sigma>1))"

section \<open>Copying from the mapping\<close>

definition copy_from_body :: "cpu_arch \<Rightarrow> lib \<Rightarrow> u64 \<Rightarrow> u64 \<Rightarrow> u64 \<Rightarrow> u32 \<Rightarrow> cpu \<Rightarrow> cpu run" where
  "copy_from_body ar L h_ptr map_d_ptr sz mapping_type \<sigma> =
     (let wc_mapping = (mapping_type = GDR_MAPPING_TYPE_WC);
          device_mapping = (mapping_type = GDR_MAPPING_TYPE_DEVICE);
          ignore = (\<lambda>r. bindE r (\<lambda>(_, \<sigma>). Inr \<sigma>))
      in if has_sse4_1 L then
           bindE (checkE wc_mapping AssertFail) (\<lambda>_.
           ignore (uncached_load_sse41 ar h_ptr map_d_ptr sz \<sigma>))
         else if has_avx L then
           bindE (checkE wc_mapping AssertFail) (\<lambda>_.
           ignore (cached_store_avx ar h_ptr map_d_ptr sz \<sigma>))
         else if has_sse L then
           bindE (checkE wc_mapping AssertFail) (\<lambda>_.
           ignore (cached_store_sse ar h_ptr map_d_ptr sz \<sigma>))
         else if wc_mapping \<and> PREFERS_LOAD_UNROLL8 ar \<and> is_aligned sz 8 \<and>
           ptr_is_aligned map_d_ptr 8 \<and> ptr_is_aligned h_ptr 8
         then unroll8_memcpy h_ptr map_d_ptr sz \<sigma>
         else if wc_mapping \<and> PREFERS_LOAD_UNROLL4 ar \<and> is_aligned sz 4 \<and>
           ptr_is_aligned map_d_ptr 4 \<and> ptr_is_aligned h_ptr 4
         then unroll4_memcpy h_ptr map_d_ptr sz \<sigma>
         else if device_mapping then memcpy_from_device_mapping h_ptr map_d_ptr sz \<sigma>
         else memcpy h_ptr map_d_ptr sz \<sigma>)"

definition gdr_copy_from_mapping_internal ::
  "cpu_arch \<Rightarrow> lib \<Rightarrow> u64 \<Rightarrow> u64 \<Rightarrow> u64 \<Rightarrow> u32 \<Rightarrow> cpu \<Rightarrow> (int \<times> cpu) run" where
  "gdr_copy_from_mapping_internal ar L h_ptr map_d_ptr sz mapping_type \<sigma> =
     bindE (copy_from_body ar L h_ptr map_d_ptr sz mapping_type \<sigma>) (\<lambda>\<sigma>1.
     Inr (0, if gdr_has_mix_mapping L then memory_fence \<sigma>1 else \<sigma>1))"

section \<open>The entry points\<close>

text \<open>\<open>h\<close> is the handle: the address of the \<open>gdr_memh_t\<close>.\<close>

definition gdr_copy_to_mapping ::
  "cpu_arch \<Rightarrow> lib \<Rightarrow> nat \<Rightarrow> u64 \<Rightarrow> u64 \<Rightarrow> u64 \<Rightarrow> cpu \<Rightarrow> (int \<times> cpu) run" where
  "gdr_copy_to_mapping ar L h map_d_ptr h_ptr sz \<sigma> =
     bindE (memh_at h L) (\<lambda>mh.
       if \<not> gdr_is_mapped (mh_mapping_type mh) then Inr (EINVAL, \<sigma>)
       else if sz = 0 then Inr (0, \<sigma>)
       else gdr_copy_to_mapping_internal ar L map_d_ptr h_ptr sz (mh_mapping_type mh) \<sigma>)"

definition gdr_copy_from_mapping ::
  "cpu_arch \<Rightarrow> lib \<Rightarrow> nat \<Rightarrow> u64 \<Rightarrow> u64 \<Rightarrow> u64 \<Rightarrow> cpu \<Rightarrow> (int \<times> cpu) run" where
  "gdr_copy_from_mapping ar L h h_ptr map_d_ptr sz \<sigma> =
     bindE (memh_at h L) (\<lambda>mh.
       if \<not> gdr_is_mapped (mh_mapping_type mh) then Inr (EINVAL, \<sigma>)
       else if sz = 0 then Inr (0, \<sigma>)
       else gdr_copy_from_mapping_internal ar L h_ptr map_d_ptr sz (mh_mapping_type mh) \<sigma>)"

end
