(* ===== verification/Copy_Correct.thy ===== *)
theory Copy_Correct
  imports Copy_Dispatch
begin

text \<open>
  What the copy entry points guarantee, on every platform, mapping type, size and alignment:
  the bytes moved, the fence that follows, the alignment of accesses to a device mapping, and
  when the assertions on the mapping type stop the process.
\<close>

section \<open>Vocabulary\<close>

text \<open>The vector routines are chosen on x86 only, since only there the flags are ever set.\<close>

definition simd_store :: "lib \<Rightarrow> bool" where
  "simd_store L = (has_avx L \<or> has_sse L)"

definition simd_load :: "lib \<Rightarrow> bool" where
  "simd_load L = (has_sse4_1 L \<or> has_avx L \<or> has_sse L)"

definition flags_ok :: "cpu_arch \<Rightarrow> lib \<Rightarrow> bool" where
  "flags_ok ar L = (simd_load L \<longrightarrow> ar = X86)"

text \<open>The sizes written by one scalar store.\<close>

definition small_store :: "u64 \<Rightarrow> u64 \<Rightarrow> bool" where
  "small_store d n = (n = 1 \<or> n = 2 \<and> aligned_at 2 d \<or> n = 4 \<and> aligned_at 4 d \<or>
     n = 8 \<and> aligned_at 8 d)"

text \<open>The fence after a copy to the mapping and after a copy from it.\<close>

definition fence_to :: "cpu_arch \<Rightarrow> lib \<Rightarrow> u64 \<Rightarrow> u64 \<Rightarrow> u32 \<Rightarrow> cpu \<Rightarrow> cpu" where
  "fence_to ar L d n ty \<sigma> =
     (if simd_store L \<and> \<not> small_store d n then fence StoreFence \<sigma>
      else if gdr_has_mix_mapping L then memory_fence \<sigma>
      else if ty = GDR_MAPPING_TYPE_WC then wc_store_fence ar \<sigma>
      else \<sigma>)"

definition fence_from :: "lib \<Rightarrow> cpu \<Rightarrow> cpu" where
  "fence_from L \<sigma> =
     (let \<sigma>1 = (if simd_load L then fence StoreFence \<sigma> else \<sigma>)
      in if gdr_has_mix_mapping L then memory_fence \<sigma>1 else \<sigma>1)"

lemmas simd_defs = simd_store_def simd_load_def flags_ok_def

section \<open>The bodies\<close>

lemmas simd_stubs = uncached_store_avx_def cached_store_avx_def uncached_store_sse_def
  cached_store_sse_def uncached_load_sse41_def

lemma is_aligned_mod:
  "is_aligned n 8 \<Longrightarrow> n mod 8 = 0" "is_aligned n 4 \<Longrightarrow> n mod 4 = 0"
proof -
  have "n mod 2 ^ k = 0" if "n AND (2 ^ k - 1) = 0" for k
    using that by (simp add: word_and_minus_one_mask take_bit_eq_mod)
  from this [of 3] this [of 2] show "is_aligned n 8 \<Longrightarrow> n mod 8 = 0" "is_aligned n 4 \<Longrightarrow> n mod 4 = 0"
    by (simp_all add: is_aligned_def)
qed

lemma move_word: "unat n = w \<Longrightarrow> \<exists>\<sigma>1. move_scalar w d s \<sigma> = Inr \<sigma>1 \<and> moved d s (unat n) \<sigma> \<sigma>1"
  using move_scalar_moves by auto

lemma small_store_cases:
  "small_store d n \<longleftrightarrow> (n = 1 \<or> n = 2 \<and> ptr_is_aligned d 2 \<or> n = 4 \<and> ptr_is_aligned d 4 \<or>
     n = 8 \<and> ptr_is_aligned d 8)"
  by (simp add: small_store_def ptr_is_aligned_def is_aligned_at)

lemma not_small:
  assumes "\<not> small_store d n"
  shows "(n = 1) = False" "(n = 2 \<and> ptr_is_aligned d 2) = False"
    "(n = 4 \<and> ptr_is_aligned d 4) = False" "(n = 8 \<and> ptr_is_aligned d 8) = False"
  using assms unfolding small_store_cases by blast+

lemma copy_to_small:
  assumes "small_store d n"
  shows "copy_to_body ar L d s n ty \<sigma> = bindE (move_scalar (unat n) d s \<sigma>) (\<lambda>\<sigma>. Inr (True, \<sigma>))"
  using assms unfolding small_store_cases copy_to_body_def Let_def by (elim disjE conjE) simp_all

lemma copy_to_simd:
  assumes "\<not> small_store d n" and "simd_store L"
  shows "copy_to_body ar L d s n ty \<sigma> =
     bindE (checkE (ty = GDR_MAPPING_TYPE_WC) AssertFail) (\<lambda>_.
     bindE (if has_avx L then uncached_store_avx ar d s n \<sigma> else uncached_store_sse ar d s n \<sigma>)
       (\<lambda>(_, \<sigma>). Inr (False, \<sigma>)))"
proof -
  note c = not_small [OF assms(1)]
  show ?thesis
    using assms(2) unfolding copy_to_body_def Let_def simd_store_def c if_False
    by (cases "has_avx L") simp_all
qed

lemma copy_to_plain:
  assumes "\<not> small_store d n" and "\<not> simd_store L"
  shows "copy_to_body ar L d s n ty \<sigma> =
     bindE (if ty = GDR_MAPPING_TYPE_WC \<and> ar = PPC64 \<and> is_aligned n 4 \<and> ptr_is_aligned d 4 \<and>
              ptr_is_aligned s 4 then unroll4_memcpy d s n \<sigma>
            else if ty = GDR_MAPPING_TYPE_DEVICE then memcpy_to_device_mapping d s n \<sigma>
            else memcpy d s n \<sigma>) (\<lambda>\<sigma>. Inr (True, \<sigma>))"
proof -
  note c = not_small [OF assms(1)]
  have f: "has_avx L = False" "has_sse L = False" using assms(2) by (simp_all add: simd_store_def)
  show ?thesis
    unfolding copy_to_body_def Let_def c f if_False unroll_prefs by simp
qed

lemma simd_store_moves:
  assumes "apart d s (unat n)" and "flags_ok ar L" and "simd_store L"
  shows "\<exists>\<sigma>1. (if has_avx L then uncached_store_avx ar d s n \<sigma> else uncached_store_sse ar d s n \<sigma>)
      = Inr (0, fence StoreFence \<sigma>1) \<and> moved d s (unat n) \<sigma> \<sigma>1"
  using avx_nt.copies [OF assms(1), of \<sigma>] sse_nt.copies [OF assms(1), of \<sigma>] assms(2,3)
  by (auto simp: simd_stubs copies_def simd_defs)

lemma moved_by_moved: "moved_by ok d s n \<sigma> \<sigma>' \<Longrightarrow> moved d s n \<sigma> \<sigma>'"
  by (simp add: moved_by_def)

lemma copy_to_body_moves:
  assumes ap: "apart d s (unat n)" and fl: "flags_ok ar L"
    and wc: "small_store d n \<or> \<not> simd_store L \<or> ty = GDR_MAPPING_TYPE_WC"
  shows "\<exists>\<sigma>1. moved d s (unat n) \<sigma> \<sigma>1 \<and> copy_to_body ar L d s n ty \<sigma> =
    Inr (if simd_store L \<and> \<not> small_store d n then (False, fence StoreFence \<sigma>1) else (True, \<sigma>1))"
proof (cases "small_store d n")
  case True
  then show ?thesis
    using move_word [OF refl, of n d s \<sigma>] by (auto simp: copy_to_small)
next
  case False
  show ?thesis
  proof (cases "simd_store L")
    case True
    with False wc have "ty = GDR_MAPPING_TYPE_WC" by simp
    then show ?thesis
      using simd_store_moves [OF ap fl True, of \<sigma>] False True by (auto simp: copy_to_simd)
  next
    case plain: False
    show ?thesis
      using False plain memcpy_moves [OF ap, of \<sigma>] unroll4_memcpy_moves [OF ap, of \<sigma>]
        memcpy_to_device_mapping_moves [OF ap, of \<sigma>] is_aligned_mod(2) [of n]
      by (auto simp: copy_to_plain dest: moved_by_moved)
  qed
qed

definition simd_load_run :: "cpu_arch \<Rightarrow> lib \<Rightarrow> u64 \<Rightarrow> u64 \<Rightarrow> u64 \<Rightarrow> cpu \<Rightarrow> (int \<times> cpu) run" where
  "simd_load_run ar L d s n \<sigma> =
     (if has_sse4_1 L then uncached_load_sse41 ar d s n \<sigma>
      else if has_avx L then cached_store_avx ar d s n \<sigma> else cached_store_sse ar d s n \<sigma>)"

lemma copy_from_simd:
  assumes "simd_load L"
  shows "copy_from_body ar L d s n ty \<sigma> =
     bindE (checkE (ty = GDR_MAPPING_TYPE_WC) AssertFail) (\<lambda>_.
     bindE (simd_load_run ar L d s n \<sigma>) (\<lambda>(_, \<sigma>). Inr \<sigma>))"
  using assms unfolding simd_load_def copy_from_body_def Let_def simd_load_run_def
  by (cases "has_sse4_1 L"; cases "has_avx L") simp_all

lemma copy_from_plain:
  assumes "\<not> simd_load L"
  shows "copy_from_body ar L d s n ty \<sigma> =
     (if ty = GDR_MAPPING_TYPE_WC \<and> ar = PPC64 \<and> is_aligned n 8 \<and> ptr_is_aligned s 8 \<and>
         ptr_is_aligned d 8 then unroll8_memcpy d s n \<sigma>
      else if ty = GDR_MAPPING_TYPE_DEVICE then memcpy_from_device_mapping d s n \<sigma>
      else memcpy d s n \<sigma>)"
proof -
  have f: "has_sse4_1 L = False" "has_avx L = False" "has_sse L = False"
    using assms by (simp_all add: simd_load_def)
  show ?thesis unfolding copy_from_body_def Let_def f if_False unroll_prefs by simp
qed

lemma simd_load_moves:
  assumes "apart d s (unat n)" and "flags_ok ar L" and "simd_load L"
  shows "\<exists>\<sigma>1. simd_load_run ar L d s n \<sigma> = Inr (0, fence StoreFence \<sigma>1) \<and> moved d s (unat n) \<sigma> \<sigma>1"
proof -
  have "ar = X86" using assms(2,3) by (simp add: flags_ok_def)
  then show ?thesis
    using sse41.copies [OF assms(1), of \<sigma>] avx.copies [OF assms(1), of \<sigma>]
      sse.copies [OF assms(1), of \<sigma>]
    by (simp add: simd_load_run_def simd_stubs copies_def)
qed

lemma copy_from_body_moves:
  assumes ap: "apart d s (unat n)" and fl: "flags_ok ar L"
    and wc: "\<not> simd_load L \<or> ty = GDR_MAPPING_TYPE_WC"
  shows "\<exists>\<sigma>1. moved d s (unat n) \<sigma> \<sigma>1 \<and> copy_from_body ar L d s n ty \<sigma> =
    Inr (if simd_load L then fence StoreFence \<sigma>1 else \<sigma>1)"
proof (cases "simd_load L")
  case True
  then have "ty = GDR_MAPPING_TYPE_WC" using wc by simp
  then show ?thesis
    using simd_load_moves [OF ap fl True, of \<sigma>] True by (auto simp: copy_from_simd)
next
  case False
  then show ?thesis
    using memcpy_moves [OF ap, of \<sigma>] unroll8_memcpy_moves [OF ap, of \<sigma>]
      memcpy_from_device_mapping_moves [OF ap, of \<sigma>] is_aligned_mod(1) [of n]
    by (auto simp: copy_from_plain dest: moved_by_moved)
qed

section \<open>A concrete machine\<close>

definition ex_cpu :: cpu where
  "ex_cpu = \<lparr>mem = (\<lambda>a. ucast a), trace = []\<rparr>"

text \<open>One handle per mapping type, on a machine with AVX, one with SSE4.1 only, one without.\<close>

definition ex_lib :: "bool \<Rightarrow> bool \<Rightarrow> lib" where
  "ex_lib avx sse41 = lib_static\<lparr>
     memhs := [1 \<mapsto> \<lparr>mh_handle = 0, mh_mapping_type = GDR_MAPPING_TYPE_WC\<rparr>,
               2 \<mapsto> \<lparr>mh_handle = 16, mh_mapping_type = GDR_MAPPING_TYPE_CACHING\<rparr>,
               3 \<mapsto> \<lparr>mh_handle = 32, mh_mapping_type = GDR_MAPPING_TYPE_DEVICE\<rparr>,
               4 \<mapsto> \<lparr>mh_handle = 48, mh_mapping_type = GDR_MAPPING_TYPE_NONE\<rparr>],
     gdr_mapping_type_counters := [0, 1, 1, 1], has_avx := avx, has_sse := avx, has_sse4_1 := sse41\<rparr>"

lemmas ex_lib_defs = ex_lib_def lib_static_def mapping_types gdr_has_mix_mapping_def simd_defs
  apart_def gdr_is_mapped_def

section \<open>The vector routines\<close>

text \<open>
  C17. Each of the five vector copy routines, for any size and any alignment of disjoint regions,
  returns 0 and has moved exactly the bytes asked for: no aligned instruction meets an unaligned
  address, every destination byte is written once, in ascending order, nothing outside the
  destination changes, and the routine ends with a store fence.
\<close>

theorem simd_routines_copy:
  assumes "apart d s (unat n)"
  shows "copies memcpy_uncached_store_avx d s n \<sigma> \<and> copies memcpy_cached_store_avx d s n \<sigma> \<and>
    copies memcpy_uncached_store_sse d s n \<sigma> \<and> copies memcpy_cached_store_sse d s n \<sigma> \<and>
    copies memcpy_uncached_load_sse41 d s n \<sigma>"
  using assms avx_nt.copies avx.copies sse_nt.copies sse.copies sse41.copies by blast

theorem simd_routines_copy_witness:
  "apart 0x1003 0x2005 1000 \<and> copies memcpy_uncached_store_avx 0x1003 0x2005 1000 ex_cpu"
proof -
  have "apart 0x1003 0x2005 (unat (1000 :: u64))" by (simp add: apart_def)
  from simd_routines_copy [OF this] show ?thesis by (simp add: apart_def)
qed

text \<open>
  C22. The unrolled word copies compute the same memory as \<open>memcpy\<close> when the size is a multiple of
  the word, and fail their assertion otherwise.
\<close>

theorem unroll_memcpy_equivalent:
  assumes "apart d s (unat n)"
  shows "(if n mod 8 = 0
      then map_sum id mem (unroll8_memcpy d s n \<sigma>) = map_sum id mem (memcpy d s n \<sigma>)
      else unroll8_memcpy d s n \<sigma> = Inl AssertFail) \<and>
    (if n mod 4 = 0
      then map_sum id mem (unroll4_memcpy d s n \<sigma>) = map_sum id mem (memcpy d s n \<sigma>)
      else unroll4_memcpy d s n \<sigma> = Inl AssertFail)"
proof (rule conjI)
  obtain m where m: "memcpy d s n \<sigma> = Inr m" "moved d s (unat n) \<sigma> m"
    using memcpy_moves [OF assms, of \<sigma>] by metis
  show "if n mod 8 = 0
      then map_sum id mem (unroll8_memcpy d s n \<sigma>) = map_sum id mem (memcpy d s n \<sigma>)
      else unroll8_memcpy d s n \<sigma> = Inl AssertFail"
  proof (cases "n mod 8 = 0")
    case True
    then show ?thesis
      using unroll8_memcpy_moves [OF assms True, of \<sigma>] m by (elim exE conjE) (simp add: moved_def)
  qed (simp only: unroll8_memcpy_def if_False simp_thms checkE_False bindE_Inl)
  show "if n mod 4 = 0
      then map_sum id mem (unroll4_memcpy d s n \<sigma>) = map_sum id mem (memcpy d s n \<sigma>)
      else unroll4_memcpy d s n \<sigma> = Inl AssertFail"
  proof (cases "n mod 4 = 0")
    case True
    then show ?thesis
      using unroll4_memcpy_moves [OF assms True, of \<sigma>] m by (elim exE conjE) (simp add: moved_def)
  qed (simp only: unroll4_memcpy_def if_False simp_thms checkE_False bindE_Inl)
qed

theorem unroll_memcpy_equivalent_witness:
  "map_sum id mem (unroll8_memcpy 0x1000 0x2000 48 ex_cpu)
     = map_sum id mem (memcpy 0x1000 0x2000 48 ex_cpu) \<and>
   map_sum id mem (unroll4_memcpy 0x1000 0x2000 44 ex_cpu)
     = map_sum id mem (memcpy 0x1000 0x2000 44 ex_cpu) \<and>
   unroll8_memcpy 0x1000 0x2000 44 ex_cpu = Inl AssertFail \<and>
   unroll4_memcpy 0x1000 0x2000 42 ex_cpu = Inl AssertFail"
proof -
  have ap: "apart 0x1000 0x2000 (unat (n :: u64))" if "unat n < 0x1000" for n
    using that by (simp add: apart_def)
  have small: "unat (48 :: u64) < 0x1000" "unat (44 :: u64) < 0x1000" "unat (42 :: u64) < 0x1000"
    by simp_all
  show ?thesis
    using unroll_memcpy_equivalent [OF ap [OF small(1)]] unroll_memcpy_equivalent [OF ap [OF small(2)]]
      unroll_memcpy_equivalent [OF ap [OF small(3)]] by simp
qed

section \<open>The entry points\<close>



text \<open>
  C19. \<open>gdr_copy_from_mapping\<close>, likewise: EINVAL on an unmapped handle, nothing for size 0, and
  otherwise 0 with exactly the bytes asked for moved to the host buffer and a full fence at the
  end when mappings of several types are in use.
\<close>

theorem copy_from_mapping_moves:
  assumes "memhs L h = Some mh" and "apart d s (unat n)" and "flags_ok ar L"
    and "simd_load L \<longrightarrow> mh_mapping_type mh = GDR_MAPPING_TYPE_WC"
  shows "if mh_mapping_type mh = GDR_MAPPING_TYPE_NONE
      then gdr_copy_from_mapping ar L h d s n \<sigma> = Inr (EINVAL, \<sigma>)
    else if n = 0 then gdr_copy_from_mapping ar L h d s n \<sigma> = Inr (0, \<sigma>)
    else \<exists>\<sigma>1. moved d s (unat n) \<sigma> \<sigma>1 \<and>
      gdr_copy_from_mapping ar L h d s n \<sigma> = Inr (0, fence_from L \<sigma>1)"
proof -
  obtain \<sigma>1 where "moved d s (unat n) \<sigma> \<sigma>1" "copy_from_body ar L d s n (mh_mapping_type mh) \<sigma> =
      Inr (if simd_load L then fence StoreFence \<sigma>1 else \<sigma>1)"
    using copy_from_body_moves [OF assms(2,3), of "mh_mapping_type mh" \<sigma>] assms(4) by auto
  then show ?thesis
    using assms(1)
    by (auto simp: gdr_copy_from_mapping_def memh_at_def gdr_is_mapped_def
        gdr_copy_from_mapping_internal_def fence_from_def Let_def)
qed

theorem copy_from_mapping_moves_witness:
  "\<exists>\<sigma>1. moved 0x2005 0x1003 1000 ex_cpu \<sigma>1 \<and>
     gdr_copy_from_mapping ARM64 (ex_lib False False) 3 0x2005 0x1003 1000 ex_cpu =
       Inr (0, fence FullFence \<sigma>1)"
  using copy_from_mapping_moves [of "ex_lib False False" 3 "\<lparr>mh_handle = 32, mh_mapping_type = 3\<rparr>"
      "0x2005" "0x1003" 1000 ARM64 ex_cpu]
  by (simp add: ex_lib_defs fence_from_def memory_fence_def)

lemma fence_mem [simp]: "mem (fence_to ar L d n ty \<sigma>) = mem \<sigma>" "mem (fence_from L \<sigma>) = mem \<sigma>"
  by (simp_all add: fence_to_def fence_from_def memory_fence_def wc_store_fence_def Let_def)

text \<open>
  C21. What is written to the mapping of a handle is what is read back from it: for any two host
  buffers and any offset in the mapping, the copy there and back returns the bytes of the first
  buffer, through whichever routines the platform chooses.
\<close>

theorem copy_round_trip:
  assumes "memhs L h = Some mh" and "mh_mapping_type mh \<noteq> GDR_MAPPING_TYPE_NONE" and "n \<noteq> 0"
    and "apart d s (unat n)" and "apart b d (unat n)" and "flags_ok ar L"
    and "simd_load L \<longrightarrow> mh_mapping_type mh = GDR_MAPPING_TYPE_WC"
  shows "\<exists>\<sigma>1 \<sigma>2. gdr_copy_to_mapping ar L h d s n \<sigma> = Inr (0, \<sigma>1) \<and>
    gdr_copy_from_mapping ar L h b d n \<sigma>1 = Inr (0, \<sigma>2) \<and>
    (\<forall>x. unat x < unat n \<longrightarrow> mem \<sigma>2 (b + x) = mem \<sigma> (s + x))"
proof -
  have wc: "simd_store L \<longrightarrow> small_store d n \<or> mh_mapping_type mh = GDR_MAPPING_TYPE_WC"
    using assms(7) by (auto simp: simd_defs)
  obtain \<tau>1 where 1: "moved d s (unat n) \<sigma> \<tau>1"
      "gdr_copy_to_mapping ar L h d s n \<sigma> = Inr (0, fence_to ar L d n (mh_mapping_type mh) \<tau>1)"
    using copy_to_body_moves [OF assms(4,6), of "mh_mapping_type mh" \<sigma>] wc assms(1-3)
    by (auto simp: gdr_copy_to_mapping_def memh_at_def gdr_is_mapped_def
        gdr_copy_to_mapping_internal_def fence_to_def)
  let ?\<sigma>1 = "fence_to ar L d n (mh_mapping_type mh) \<tau>1"
  obtain \<tau>2 where 2: "moved b d (unat n) ?\<sigma>1 \<tau>2"
      "gdr_copy_from_mapping ar L h b d n ?\<sigma>1 = Inr (0, fence_from L \<tau>2)"
    using copy_from_body_moves [OF assms(5,6), of "mh_mapping_type mh" ?\<sigma>1] assms(1-3,7)
    by (auto simp: gdr_copy_from_mapping_def memh_at_def gdr_is_mapped_def
        gdr_copy_from_mapping_internal_def fence_from_def Let_def)
  have "mem (fence_from L \<tau>2) (b + x) = mem \<sigma> (s + x)" if "unat x < unat n" for x
    using moved_inside [OF 2(1) that] moved_inside [OF 1(1) that] by simp
  with 1 2 show ?thesis by blast
qed

theorem copy_round_trip_witness:
  "\<exists>\<sigma>1 \<sigma>2. gdr_copy_to_mapping X86 (ex_lib True True) 1 0x1003 0x2005 1000 ex_cpu = Inr (0, \<sigma>1) \<and>
    gdr_copy_from_mapping X86 (ex_lib True True) 1 0x9001 0x1003 1000 \<sigma>1 = Inr (0, \<sigma>2) \<and>
    (\<forall>x. unat x < 1000 \<longrightarrow> mem \<sigma>2 (0x9001 + x) = ucast (0x2005 + x))"
  using copy_round_trip [of "ex_lib True True" 1 "\<lparr>mh_handle = 0, mh_mapping_type = 1\<rparr>" 1000
      "0x1003" "0x2005" "0x9001" X86 ex_cpu]
  by (simp add: ex_lib_defs ex_cpu_def)

section \<open>Device mappings\<close>

lemma small_device_store:
  assumes "small_store d n"
  shows "\<exists>\<sigma>1. move_scalar (unat n) d s \<sigma> = Inr \<sigma>1 \<and> moved_by device_store d s (unat n) \<sigma> \<sigma>1"
  by (rule move_scalar_moved_by) (use assms in \<open>auto simp: small_store_def aligned_at_def\<close>)

text \<open>
  C20. A device mapping is only ever accessed at naturally aligned addresses: every scalar access
  to it is aligned to its width, and \<open>memcpy\<close> is used between 8-aligned addresses for multiples
  of 8 bytes, for every size and alignment of the host buffer.
\<close>

theorem device_mapping_accesses_aligned:
  assumes "apart m h (unat n)" and "\<not> simd_load L"
  shows "(\<exists>\<sigma>1. copy_to_body ar L m h n GDR_MAPPING_TYPE_DEVICE \<sigma> = Inr (True, \<sigma>1) \<and>
      moved_by device_store m h (unat n) \<sigma> \<sigma>1) \<and>
    (\<exists>\<sigma>1. copy_from_body ar L h m n GDR_MAPPING_TYPE_DEVICE \<sigma> = Inr \<sigma>1 \<and>
      moved_by device_load h m (unat n) \<sigma> \<sigma>1)"
proof
  have "\<not> simd_store L" using assms(2) by (simp add: simd_defs)
  then show "\<exists>\<sigma>1. copy_to_body ar L m h n GDR_MAPPING_TYPE_DEVICE \<sigma> = Inr (True, \<sigma>1) \<and>
      moved_by device_store m h (unat n) \<sigma> \<sigma>1"
    using memcpy_to_device_mapping_moves [OF assms(1), of \<sigma>] small_device_store [of m n h \<sigma>]
    by (cases "small_store m n") (auto simp: copy_to_small copy_to_plain mapping_types)
  have "apart h m (unat n)" using assms(1) by (simp add: apart_commute)
  from memcpy_from_device_mapping_moves [OF this, of \<sigma>] assms(2)
  show "\<exists>\<sigma>1. copy_from_body ar L h m n GDR_MAPPING_TYPE_DEVICE \<sigma> = Inr \<sigma>1 \<and>
      moved_by device_load h m (unat n) \<sigma> \<sigma>1"
    by (simp add: copy_from_plain mapping_types)
qed

theorem device_mapping_accesses_aligned_witness:
  "(\<exists>\<sigma>1. copy_to_body ARM64 (ex_lib False False) 0x1003 0x2005 1001 GDR_MAPPING_TYPE_DEVICE ex_cpu =
     Inr (True, \<sigma>1) \<and> moved_by device_store 0x1003 0x2005 1001 ex_cpu \<sigma>1) \<and>
   (\<exists>\<sigma>1. copy_from_body ARM64 (ex_lib False False) 0x2005 0x1003 1001 GDR_MAPPING_TYPE_DEVICE ex_cpu =
     Inr \<sigma>1 \<and> moved_by device_load 0x2005 0x1003 1001 ex_cpu \<sigma>1)"
  using device_mapping_accesses_aligned [of "0x1003" "0x2005" 1001 "ex_lib False False" ARM64 ex_cpu]
  by (simp add: ex_lib_defs)

section \<open>Assertions and fences\<close>

text \<open>
  C37. On a CPU whose vector routines are in use, a copy to or from a mapping that is not
  write-combined aborts the process, except for the sizes written by one scalar store.
\<close>

theorem copy_asserts_write_combining:
  assumes "memhs L h = Some mh" and "n \<noteq> 0"
    and "mh_mapping_type mh = GDR_MAPPING_TYPE_CACHING \<or> mh_mapping_type mh = GDR_MAPPING_TYPE_DEVICE"
  shows "(simd_store L \<and> \<not> small_store d n \<longrightarrow>
      gdr_copy_to_mapping ar L h d s n \<sigma> = Inl AssertFail) \<and>
    (simd_load L \<longrightarrow> gdr_copy_from_mapping ar L h d s n \<sigma> = Inl AssertFail)"
  using assms
  by (auto simp: gdr_copy_to_mapping_def gdr_copy_from_mapping_def memh_at_def gdr_is_mapped_def
      mapping_types gdr_copy_to_mapping_internal_def gdr_copy_from_mapping_internal_def
      copy_to_simd copy_from_simd)

theorem copy_asserts_write_combining_witness:
  "gdr_copy_to_mapping X86 (ex_lib True False) 2 0x1000 0x2000 64 ex_cpu = Inl AssertFail \<and>
   gdr_copy_from_mapping X86 (ex_lib True False) 2 0x2000 0x1000 64 ex_cpu = Inl AssertFail"
  using copy_asserts_write_combining [of "ex_lib True False" 2
      "\<lparr>mh_handle = 16, mh_mapping_type = 2\<rparr>" 64 "0x1000" X86 "0x2000" ex_cpu]
    copy_asserts_write_combining [of "ex_lib True False" 2
      "\<lparr>mh_handle = 16, mh_mapping_type = 2\<rparr>" 64 "0x2000" X86 "0x1000" ex_cpu]
  by (simp add: ex_lib_defs small_store_def)

definition mixed_fences :: "cpu \<Rightarrow> (int \<times> cpu) run \<Rightarrow> fence list \<Rightarrow> bool" where
  "mixed_fences \<sigma> r fs = (\<exists>\<sigma>' es. r = Inr (0, \<sigma>') \<and> trace \<sigma>' = trace \<sigma> @ es \<and> fences_of es = fs)"

text \<open>
  With mappings of several types in use, a copy to a write-combined mapping through the vector
  routines issues a store fence only, although the library means every copy then to end with a
  full memory fence; without the vector routines it does.
\<close>

lemma mixed_mapping_fence:
  assumes "memhs L h = Some mh" and "mh_mapping_type mh = GDR_MAPPING_TYPE_WC"
    and "gdr_has_mix_mapping L" and "apart d s (unat n)" and "flags_ok ar L"
    and "n \<noteq> 0" and "\<not> small_store d n"
  shows "mixed_fences \<sigma> (gdr_copy_to_mapping ar L h d s n \<sigma>)
     (if simd_store L then [StoreFence] else [FullFence])"
proof -
  obtain \<sigma>1 where m: "moved d s (unat n) \<sigma> \<sigma>1"
      "copy_to_body ar L d s n GDR_MAPPING_TYPE_WC \<sigma> =
       Inr (if simd_store L then (False, fence StoreFence \<sigma>1) else (True, \<sigma>1))"
    using copy_to_body_moves [OF assms(4,5), of GDR_MAPPING_TYPE_WC \<sigma>] assms(7) by auto
  from m(1) obtain es where "trace \<sigma>1 = trace \<sigma> @ es" "fences_of es = []"
    by (auto simp: moved_def)
  then show ?thesis
    using m(2) assms(1-3,6)
    by (auto simp: mixed_fences_def gdr_copy_to_mapping_def memh_at_def gdr_is_mapped_def
        mapping_types gdr_copy_to_mapping_internal_def memory_fence_def)
qed

lemma mixed_mapping_fence_example:
  "mixed_fences ex_cpu (gdr_copy_to_mapping X86 (ex_lib True False) 1 0x1000 0x2000 64 ex_cpu)
     [StoreFence] \<and>
   mixed_fences ex_cpu (gdr_copy_to_mapping PPC64 (ex_lib False False) 1 0x1000 0x2000 64 ex_cpu)
     [FullFence]"
  using mixed_mapping_fence [of "ex_lib True False" 1 "\<lparr>mh_handle = 0, mh_mapping_type = 1\<rparr>"
      "0x1000" "0x2000" 64 X86 ex_cpu]
    mixed_mapping_fence [of "ex_lib False False" 1 "\<lparr>mh_handle = 0, mh_mapping_type = 1\<rparr>"
      "0x1000" "0x2000" 64 PPC64 ex_cpu]
  by (simp add: ex_lib_defs small_store_def)

end
