(* ===== verification/Api_Ops.thy ===== *)
theory Api_Ops
  imports Api_Types
begin

text \<open>
  The operations of the library, each as one function of the system calls \<open>K\<close>, the library's
  state \<open>L\<close> and the state \<open>e\<close> of the kernel. Error numbers are returned as the code returns them;
  what is written through an out parameter is a component of the result.
\<close>

section \<open>Opening and closing\<close>

text \<open>The loop that finds the lowest set bit of the page size; \<open>page_shift\<close> is a \<open>uint8_t\<close>.\<close>

function page_shift_loop :: "u64 \<Rightarrow> u8 \<Rightarrow> u8" where
  "page_shift_loop ps_tmp page_shift =
     (if 0 < ps_tmp then
        (if ps_tmp AND 1 = 1 then page_shift + 1
         else page_shift_loop (drop_bit 1 ps_tmp) (page_shift + 1))
      else page_shift)"
  by pat_completeness auto
termination
proof (relation "measure (\<lambda>(ps_tmp, page_shift). unat ps_tmp)")
  fix ps_tmp :: u64
  assume "0 < ps_tmp"
  then have "0 < unat ps_tmp" by (simp add: unat_gt_0 word_neq_0_conv)
  then show "((drop_bit 1 ps_tmp, page_shift + 1), ps_tmp, page_shift)
      \<in> measure (\<lambda>(ps_tmp, page_shift). unat ps_tmp)" for page_shift :: u8
    using unat_drop_bit_div [of 1 ps_tmp] by simp
qed simp

declare page_shift_loop.simps [simp del]

text \<open>\<open>close(fd); free(g); return NULL;\<close>\<close>

definition open_fail :: "'d os \<Rightarrow> int \<Rightarrow> lib \<Rightarrow> 'd \<Rightarrow> (nat option \<times> lib \<times> 'd) run" where
  "open_fail K fd L e = bindE (sys_close K fd e) (\<lambda>(_, _, e1). Inr (None, L, e1))"

definition gdr_open :: "cpu_arch \<Rightarrow> 'd os \<Rightarrow> lib \<Rightarrow> 'd \<Rightarrow> (nat option \<times> lib \<times> 'd) run" where
  "gdr_open ar K L e =
     (case sys_calloc K L of
        None \<Rightarrow> Inr (None, L, e)
      | Some g \<Rightarrow>
          bindE (sys_open K e) (\<lambda>(fd, err, e1).
            if fd = -1 then Inr (None, L, e1)
            else
              bindE (sys_ioctl K fd GDRDRV_IOC_GET_VERSION stack_arg e1)
                (\<lambda>(retcode, err, out, e2).
                  if retcode \<noteq> 0 then open_fail K fd L e2
                  else if ve_gdrdrv_version (version_result out) < MINIMUM_GDRDRV_VERSION
                  then open_fail K fd L e2
                  else if GDR_API_VERSION < ve_minimum_gdr_api_version (version_result out)
                  then open_fail K fd L e2
                  else
                    (let L1 = gdr_init_cpu_flags ar K L;
                         ps = sys_pagesize K;
                         r = \<lparr>g_fd = fd, g_memhs = [], g_page_size = ps, g_page_mask = NOT (ps - 1),
                              g_page_shift = page_shift_loop ps (-1),
                              g_gdrdrv_version = ve_gdrdrv_version (version_result out)\<rparr>
                     in Inr (Some g, L1\<lparr>gdrs := (gdrs L1)(g \<mapsto> r)\<rparr>, e2)))))"

text \<open>
  \<open>LIST_REMOVE(mh, entries)\<close>: through the links of \<open>mh\<close>, so from the list it is on. \<open>free(mh)\<close>
  follows.
\<close>

definition list_remove :: "nat \<Rightarrow> lib \<Rightarrow> lib" where
  "list_remove p L =
     L\<lparr>gdrs := (\<lambda>g. map_option (\<lambda>r. r\<lparr>g_memhs := remove1 p (g_memhs r)\<rparr>) (gdrs L g))\<rparr>"

definition gdr_unpin_buffer :: "'d os \<Rightarrow> nat \<Rightarrow> nat \<Rightarrow> lib \<Rightarrow> 'd \<Rightarrow> (int \<times> lib \<times> 'd) run" where
  "gdr_unpin_buffer K g h L e =
     bindE (memh_at h L) (\<lambda>mh.
     bindE (gdr_at g L) (\<lambda>r.
     bindE (sys_ioctl K (g_fd r) GDRDRV_IOC_UNPIN_BUFFER
              (stack_arg\<lparr>ua_unpin := ucast (mh_handle mh)\<rparr>) e)
       (\<lambda>(retcode, err, _, e1).
         (let ret = (if retcode \<noteq> 0 then err else 0);
              L1 = list_remove h L
          in Inr (ret, L1\<lparr>memhs := (memhs L1)(h := None)\<rparr>, e1)))))"

text \<open>The loop of \<open>gdr_close\<close>, over the list as it was; an error stops it.\<close>

primrec gdr_close_loop :: "'d os \<Rightarrow> nat \<Rightarrow> nat list \<Rightarrow> lib \<Rightarrow> 'd \<Rightarrow> (int \<times> lib \<times> 'd) run" where
  "gdr_close_loop K g [] L e = Inr (0, L, e)"
| "gdr_close_loop K g (h # hs) L e =
     bindE (gdr_unpin_buffer K g h L e) (\<lambda>(ret, L1, e1).
       if ret \<noteq> 0 then Inr (ret, L1, e1) else gdr_close_loop K g hs L1 e1)"

definition gdr_close :: "'d os \<Rightarrow> nat \<Rightarrow> lib \<Rightarrow> 'd \<Rightarrow> (int \<times> lib \<times> 'd) run" where
  "gdr_close K g L e =
     bindE (gdr_at g L) (\<lambda>r.
     bindE (gdr_close_loop K g (g_memhs r) L e) (\<lambda>(ret, L1, e1).
       if ret \<noteq> 0 then Inr (ret, L1, e1)
       else
         bindE (sys_close K (g_fd r) e1) (\<lambda>(retcode, err, e2).
         Inr (if retcode = -1 then err else 0, L1\<lparr>gdrs := (gdrs L1)(g := None)\<rparr>, e2))))"

section \<open>Pinning\<close>

text \<open>A new \<open>gdr_memh_t\<close> with the driver's handle, at the head of the list of \<open>g\<close>.\<close>

definition add_memh :: "nat \<Rightarrow> gdr \<Rightarrow> nat \<Rightarrow> u64 \<Rightarrow> lib \<Rightarrow> lib" where
  "add_memh g r p hnd L =
     L\<lparr>memhs := (memhs L)(p \<mapsto> \<lparr>mh_handle = ucast hnd, mh_mapping_type = GDR_MAPPING_TYPE_NONE\<rparr>),
       gdrs := (gdrs L)(g \<mapsto> r\<lparr>g_memhs := p # g_memhs r\<rparr>)\<rparr>"

text \<open>\<open>hp\<close>: the caller's pointer \<open>handle\<close> is not NULL.\<close>

definition gdr_pin_buffer ::
  "'d os \<Rightarrow> nat \<Rightarrow> u64 \<Rightarrow> u64 \<Rightarrow> u64 \<Rightarrow> u32 \<Rightarrow> bool \<Rightarrow> lib \<Rightarrow> 'd \<Rightarrow> (int \<times> nat option \<times> lib \<times> 'd) run" where
  "gdr_pin_buffer K g addr sz p2p_token va_space hp L e =
     (if \<not> hp then Inr (EINVAL, None, L, e)
      else case sys_calloc K L of
        None \<Rightarrow> Inr (ENOMEM, None, L, e)
      | Some p \<Rightarrow>
          bindE (gdr_at g L) (\<lambda>r.
          (let u = stack_arg\<lparr>ua_pin := \<lparr>pb_addr = addr, pb_size = sz, pb_p2p_token = p2p_token,
                                          pb_va_space = va_space, pb_handle = 0\<rparr>\<rparr>
           in bindE (sys_ioctl K (g_fd r) GDRDRV_IOC_PIN_BUFFER u e) (\<lambda>(retcode, err, out, e1).
                if retcode \<noteq> 0 then Inr (err, None, L, e1)
                else Inr (0, Some p, add_memh g r p (pb_handle (pin_result u out)) L, e1)))))"

definition gdr_pin_buffer_v2_internal ::
  "'d os \<Rightarrow> nat \<Rightarrow> u64 \<Rightarrow> u64 \<Rightarrow> u32 \<Rightarrow> bool \<Rightarrow> lib \<Rightarrow> 'd \<Rightarrow> (int \<times> nat option \<times> lib \<times> 'd) run" where
  "gdr_pin_buffer_v2_internal K g addr sz flags hp L e =
     (if \<not> hp then Inr (EINVAL, None, L, e)
      else case sys_calloc K L of
        None \<Rightarrow> Inr (ENOMEM, None, L, e)
      | Some p \<Rightarrow>
          bindE (gdr_at g L) (\<lambda>r.
          (let fl = (if flags AND GDR_PIN_FLAG_FORCE_PCIE \<noteq> 0
                     then 0 OR GDRDRV_PIN_BUFFER_FLAG_FORCE_PCIE else 0);
               u = stack_arg\<lparr>ua_pin_v2 := \<lparr>pv_addr = addr, pv_size = sz, pv_flags = fl,
                                             pv_pad = 0, pv_handle = 0\<rparr>\<rparr>
           in bindE (sys_ioctl K (g_fd r) GDRDRV_IOC_PIN_BUFFER_V2 u e) (\<lambda>(retcode, err, out, e1).
                if retcode \<noteq> 0 then Inr (err, None, L, e1)
                else Inr (0, Some p, add_memh g r p (pv_handle (pin_v2_result u out)) L, e1)))))"

definition gdr_pin_buffer_v2 ::
  "'d os \<Rightarrow> nat \<Rightarrow> u64 \<Rightarrow> u64 \<Rightarrow> u32 \<Rightarrow> bool \<Rightarrow> lib \<Rightarrow> 'd \<Rightarrow> (int \<times> nat option \<times> lib \<times> 'd) run" where
  "gdr_pin_buffer_v2 K g addr sz flags hp L e =
     bindE (gdr_at g L) (\<lambda>r.
       if GDRDRV_MINIMUM_VERSION_WITH_PIN_BUFFER_V2 \<le> g_gdrdrv_version r
       then gdr_pin_buffer_v2_internal K g addr sz flags hp L e
       else if flags = GDR_PIN_FLAG_DEFAULT then gdr_pin_buffer K g addr sz 0 0 hp L e
       else Inr (EINVAL, None, L, e))"

section \<open>Queries\<close>

definition gdr_get_callback_flag :: "'d os \<Rightarrow> nat \<Rightarrow> nat \<Rightarrow> lib \<Rightarrow> 'd \<Rightarrow> (int \<times> u32 option \<times> 'd) run" where
  "gdr_get_callback_flag K g h L e =
     bindE (memh_at h L) (\<lambda>mh.
     bindE (gdr_at g L) (\<lambda>r.
     (let u = stack_arg\<lparr>ua_cb := \<lparr>cb_handle = ucast (mh_handle mh), cb_flag = 0\<rparr>\<rparr>
      in bindE (sys_ioctl K (g_fd r) GDRDRV_IOC_GET_CB_FLAG u e) (\<lambda>(retcode, err, out, e1).
           if retcode \<noteq> 0 then Inr (err, None, e1)
           else Inr (0, Some (cb_flag (cb_result u out)), e1)))))"

text \<open>\<open>gdr_info_v2_t\<close>; \<open>mapped\<close> and \<open>wc_mapping\<close> are bit fields of width 1.\<close>

record gdr_info_v2 =
  va :: u64
  mapped_size :: u64
  page_size :: u32
  tm_cycles :: u64
  cycles_per_ms :: u32
  mapped :: bool
  wc_mapping :: bool
  mapping_type :: u32

definition zero_info :: gdr_info_v2 where
  "zero_info = \<lparr>va = 0, mapped_size = 0, page_size = 0, tm_cycles = 0, cycles_per_ms = 0,
     mapped = False, wc_mapping = False, mapping_type = 0\<rparr>"

definition info_of_v2 :: "get_info_v2_params \<Rightarrow> gdr_info_v2" where
  "info_of_v2 params =
     \<lparr>va = gv_va params, mapped_size = gv_mapped_size params, page_size = gv_page_size params,
      tm_cycles = gv_tm_cycles params, cycles_per_ms = gv_tsc_khz params,
      mapped = gdr_is_mapped (gv_mapping_type params),
      wc_mapping = (gv_mapping_type params = GDR_MAPPING_TYPE_WC),
      mapping_type = gv_mapping_type params\<rparr>"

definition info_of_v1 :: "get_info_params \<Rightarrow> gdr_info_v2" where
  "info_of_v1 params =
     \<lparr>va = gi_va params, mapped_size = gi_mapped_size params, page_size = gi_page_size params,
      tm_cycles = gi_tm_cycles params, cycles_per_ms = gi_tsc_khz params,
      mapped = (gi_mapped params AND 1 \<noteq> 0), wc_mapping = (gi_wc_mapping params AND 1 \<noteq> 0),
      mapping_type = (if gi_mapped params \<noteq> 0
        then (if gi_wc_mapping params \<noteq> 0 then GDR_MAPPING_TYPE_WC else GDR_MAPPING_TYPE_CACHING)
        else GDR_MAPPING_TYPE_NONE)\<rparr>"

definition gdr_get_info_v2 ::
  "'d os \<Rightarrow> nat \<Rightarrow> nat \<Rightarrow> gdr_info_v2 \<Rightarrow> lib \<Rightarrow> 'd \<Rightarrow> (int \<times> gdr_info_v2 \<times> 'd) run" where
  "gdr_get_info_v2 K g h info L e =
     bindE (memh_at h L) (\<lambda>mh.
     bindE (gdr_at g L) (\<lambda>r.
       if GDRDRV_MINIMUM_VERSION_WITH_GET_INFO_V2 \<le> g_gdrdrv_version r then
         (let u = stack_arg\<lparr>ua_info_v2 := (ua_info_v2 stack_arg)\<lparr>gv_handle := ucast (mh_handle mh)\<rparr>\<rparr>
          in bindE (sys_ioctl K (g_fd r) GDRDRV_IOC_GET_INFO_V2 u e) (\<lambda>(retcode, err, out, e1).
               if retcode \<noteq> 0 then Inr (err, info, e1)
               else Inr (0, info_of_v2 (info_v2_result u out), e1)))
       else
         (let u = stack_arg\<lparr>ua_info := (ua_info stack_arg)\<lparr>gi_handle := ucast (mh_handle mh)\<rparr>\<rparr>
          in bindE (sys_ioctl K (g_fd r) GDRDRV_IOC_GET_INFO u e) (\<lambda>(retcode, err, out, e1).
               if retcode \<noteq> 0 then Inr (err, info, e1)
               else Inr (0, info_of_v1 (info_result u out), e1)))))"

text \<open>The obsolete \<open>gdr_get_info\<close>, whose structure \<open>gdr_info_v1_t\<close> has no mapping type.\<close>

record gdr_info_v1 =
  v1_va :: u64
  v1_mapped_size :: u64
  v1_page_size :: u32
  v1_tm_cycles :: u64
  v1_cycles_per_ms :: u32
  v1_mapped :: bool
  v1_wc_mapping :: bool

definition gdr_get_info ::
  "'d os \<Rightarrow> nat \<Rightarrow> nat \<Rightarrow> gdr_info_v1 \<Rightarrow> lib \<Rightarrow> 'd \<Rightarrow> (int \<times> gdr_info_v1 \<times> 'd) run" where
  "gdr_get_info K g h info L e =
     bindE (memh_at h L) (\<lambda>mh.
     bindE (gdr_at g L) (\<lambda>r.
       (let u = stack_arg\<lparr>ua_info := (ua_info stack_arg)\<lparr>gi_handle := ucast (mh_handle mh)\<rparr>\<rparr>
        in bindE (sys_ioctl K (g_fd r) GDRDRV_IOC_GET_INFO u e) (\<lambda>(retcode, err, out, e1).
             (let params = info_result u out
              in if retcode \<noteq> 0 then Inr (err, info, e1)
                 else Inr (0, \<lparr>v1_va = gi_va params, v1_mapped_size = gi_mapped_size params,
                   v1_page_size = gi_page_size params, v1_tm_cycles = gi_tm_cycles params,
                   v1_cycles_per_ms = gi_tsc_khz params, v1_mapped = (gi_mapped params AND 1 \<noteq> 0),
                   v1_wc_mapping = (gi_wc_mapping params AND 1 \<noteq> 0)\<rparr>, e1))))))"

text \<open>\<open>attr\<close> by value; the second component of the result is what is written to \<open>*v\<close>.\<close>

definition gdr_get_attribute :: "'d os \<Rightarrow> nat \<Rightarrow> u32 \<Rightarrow> lib \<Rightarrow> 'd \<Rightarrow> (int \<times> u32 option \<times> 'd) run" where
  "gdr_get_attribute K g attr L e =
     (case (if attr = GDR_ATTR_USE_PERSISTENT_MAPPING then Some GDRDRV_ATTR_USE_PERSISTENT_MAPPING
            else if attr = GDR_ATTR_SUPPORT_PIN_FLAG_FORCE_PCIE
            then Some GDRDRV_ATTR_SUPPORT_PIN_FLAG_FORCE_PCIE else None) of
        None \<Rightarrow> Inr (EINVAL, None, e)
      | Some a \<Rightarrow>
          bindE (gdr_at g L) (\<lambda>r.
            if g_gdrdrv_version r < GDRDRV_MINIMUM_VERSION_WITH_GET_ATTR then Inr (0, Some 0, e)
            else
              (let u = stack_arg\<lparr>ua_attr := \<lparr>ga_attr = a, ga_val = 0\<rparr>\<rparr>
               in bindE (sys_ioctl K (g_fd r) GDRDRV_IOC_GET_ATTR u e) (\<lambda>(retcode, err, out, e1).
                    if retcode = - EINVAL then Inr (0, Some 0, e1)
                    else if retcode \<noteq> 0 then Inr (err, None, e1)
                    else Inr (0, Some (ga_val (attr_result u out)), e1)))))"

definition gdr_runtime_get_version :: "u32 \<times> u32" where
  "gdr_runtime_get_version = (GDR_API_MAJOR_VERSION, GDR_API_MINOR_VERSION)"

definition gdr_driver_get_version :: "'d os \<Rightarrow> nat option \<Rightarrow> lib \<Rightarrow> 'd \<Rightarrow> (int \<times> (u32 \<times> u32) option \<times> 'd) run" where
  "gdr_driver_get_version K gp L e =
     (case gp of
        None \<Rightarrow> Inl AssertFail
      | Some g \<Rightarrow>
          bindE (gdr_at g L) (\<lambda>r.
          bindE (checkE (0 < g_fd r) AssertFail) (\<lambda>_.
          bindE (sys_ioctl K (g_fd r) GDRDRV_IOC_GET_VERSION stack_arg e)
            (\<lambda>(retcode, err, out, e1).
              (let v = ve_gdrdrv_version (version_result out)
               in if retcode \<noteq> 0 then Inr (err, None, e1)
                  else Inr (0, Some (drop_bit MAJOR_VERSION_SHIFT v, v AND MINOR_VERSION_MASK), e1))))))"

definition gdr_get_mapping_type_string :: "u32 \<Rightarrow> int \<times> string option" where
  "gdr_get_mapping_type_string ty =
     (if ty = GDR_MAPPING_TYPE_NONE then (0, Some ''None'')
      else if ty = GDR_MAPPING_TYPE_WC then (0, Some ''Write Combining'')
      else if ty = GDR_MAPPING_TYPE_CACHING then (0, Some ''Caching'')
      else if ty = GDR_MAPPING_TYPE_DEVICE then (0, Some ''Device'')
      else (EINVAL, None))"

section \<open>Mapping\<close>

definition rounded_size :: "gdr \<Rightarrow> u64 \<Rightarrow> u64" where
  "rounded_size r sz = (sz + g_page_size r - 1) AND g_page_mask r"

definition magic_off :: "gdr \<Rightarrow> memh \<Rightarrow> u64" where
  "magic_off r mh = push_bit (unat (g_page_shift r)) (ucast (mh_handle mh))"

definition mapping_type_of_flags :: "int \<Rightarrow> mr_type option" where
  "mapping_type_of_flags flags =
     (if flags = GDR_MAP_FLAG_DEFAULT then Some GDR_MR_NONE
      else if flags = GDR_MAP_FLAG_REQ_WC_MAPPING then Some GDR_MR_WC
      else if flags = GDR_MAP_FLAG_REQ_CACHE_MAPPING then Some GDR_MR_CACHING
      else if flags = GDR_MAP_FLAG_REQ_DEVICE_MAPPING then Some GDR_MR_DEVICE
      else None)"

text \<open>The request for the mapping type, made only of drivers that know it: \<open>status\<close>.\<close>

definition map_request :: "'d os \<Rightarrow> gdr \<Rightarrow> memh \<Rightarrow> mr_type \<Rightarrow> 'd \<Rightarrow> (bool \<times> int \<times> 'd) run" where
  "map_request K r mh ty e =
     (if GDRDRV_MINIMUM_VERSION_WITH_REQ_MAPPING_TYPE \<le> g_gdrdrv_version r then
        bindE (sys_ioctl K (g_fd r) GDRDRV_IOC_REQ_MAPPING_TYPE
                 (stack_arg\<lparr>ua_req := \<lparr>rq_handle = ucast (mh_handle mh), rq_mapping_type = mr_type_val ty\<rparr>\<rparr>) e)
          (\<lambda>(retcode, err, _, e1). Inr (retcode = 0, if retcode \<noteq> 0 then err else 0, e1))
      else Inr (True, 0, e))"

text \<open>The label \<open>out\<close> with a mapping: on an error the mapping is undone.\<close>

definition map_undo :: "'d os \<Rightarrow> int \<Rightarrow> u64 \<Rightarrow> u64 \<Rightarrow> lib \<Rightarrow> 'd \<Rightarrow> (int \<times> u64 option \<times> lib \<times> 'd) run" where
  "map_undo K status mmio sz L e =
     (if status \<noteq> 0 \<and> mmio \<noteq> 0 then
        bindE (sys_munmap K mmio sz e) (\<lambda>(_, _, e1). Inr (status, Some mmio, L, e1))
      else Inr (status, Some mmio, L, e))"

text \<open>From \<open>gdr_get_info_v2\<close> on: the mapping the driver made is checked and recorded.\<close>

definition map_check :: "'d os \<Rightarrow> nat \<Rightarrow> nat \<Rightarrow> int \<Rightarrow> mr_type \<Rightarrow> u64 \<Rightarrow> u64 \<Rightarrow> lib \<Rightarrow> 'd \<Rightarrow>
    (int \<times> u64 option \<times> lib \<times> 'd) run" where
  "map_check K g h flags ty mmio sz L e =
     bindE (gdr_get_info_v2 K g h zero_info L e) (\<lambda>(status, info, e1).
       if status \<noteq> 0 then map_undo K status mmio sz L e1
       else if \<not> gdr_is_mapped (mapping_type info) then map_undo K EAGAIN mmio sz L e1
       else if flags \<noteq> GDR_MAP_FLAG_DEFAULT \<and> mapping_type info \<noteq> mr_type_val ty
       then map_undo K EINVAL mmio sz L e1
       else
         bindE (memh_at h L) (\<lambda>mh.
         bindE (add_counter (mapping_type info) 1
             (L\<lparr>memhs := (memhs L)(h \<mapsto> mh\<lparr>mh_mapping_type := mapping_type info\<rparr>)\<rparr>)) (\<lambda>L1.
         Inr (0, Some mmio, L1, e1))))"

definition gdr_map_v2 ::
  "'d os \<Rightarrow> nat \<Rightarrow> nat \<Rightarrow> u64 \<Rightarrow> int \<Rightarrow> lib \<Rightarrow> 'd \<Rightarrow> (int \<times> u64 option \<times> lib \<times> 'd) run" where
  "gdr_map_v2 K g h sz flags L e =
     bindE (memh_at h L) (\<lambda>mh.
       if gdr_is_mapped (mh_mapping_type mh) then Inr (EAGAIN, None, L, e)
       else case mapping_type_of_flags flags of
         None \<Rightarrow> Inr (EINVAL, None, L, e)
       | Some ty \<Rightarrow>
           bindE (gdr_at g L) (\<lambda>r.
           bindE (map_request K r mh ty e) (\<lambda>(ok, status, e1).
             if \<not> ok then Inr (status, None, L, e1)
             else
               bindE (sys_mmap K (rounded_size r sz) (g_fd r) (magic_off r mh) e1)
                 (\<lambda>(mmio, err, e2).
                   case mmio of
                     None \<Rightarrow> Inr (err, None, L, e2)
                   | Some a \<Rightarrow> map_check K g h flags ty a (rounded_size r sz) L e2))))"

definition gdr_map :: "'d os \<Rightarrow> nat \<Rightarrow> nat \<Rightarrow> u64 \<Rightarrow> lib \<Rightarrow> 'd \<Rightarrow> (int \<times> u64 option \<times> lib \<times> 'd) run" where
  "gdr_map K g h sz L e = gdr_map_v2 K g h sz GDR_MAP_FLAG_DEFAULT L e"

definition gdr_unmap :: "'d os \<Rightarrow> nat \<Rightarrow> nat \<Rightarrow> u64 \<Rightarrow> u64 \<Rightarrow> lib \<Rightarrow> 'd \<Rightarrow> (int \<times> lib \<times> 'd) run" where
  "gdr_unmap K g h a sz L e =
     bindE (memh_at h L) (\<lambda>mh.
     bindE (gdr_at g L) (\<lambda>r.
       if \<not> gdr_is_mapped (mh_mapping_type mh) then Inr (EINVAL, L, e)
       else
         bindE (sys_munmap K a (rounded_size r sz) e) (\<lambda>(retcode, err, e1).
           if retcode = -1 then Inr (err, L, e1)
           else
             bindE (add_counter (mh_mapping_type mh) (-1) L) (\<lambda>L1.
             Inr (0, L1\<lparr>memhs := (memhs L1)(h \<mapsto> mh\<lparr>mh_mapping_type := GDR_MAPPING_TYPE_NONE\<rparr>)\<rparr>, e1)))))"

end
