(* ===== verification/Api_Lib.thy ===== *)
theory Api_Lib
  imports Api_Ops Copy_Correct
begin

text \<open>
  What the library guarantees over any kernel: its invariant along every sequence of calls, the
  outcome of mapping and unmapping on every branch, and the arithmetic of sizes and offsets.
\<close>

section \<open>Page size, rounding and offsets\<close>

lemma page_shift_exp:
  assumes "k < 64"
  shows "page_shift_loop (2 ^ k) sh = sh + of_nat (Suc k)"
  using assms
proof (induction k arbitrary: sh)
  case 0
  show ?case by (subst page_shift_loop.simps) simp
next
  case (Suc k)
  have pos: "0 < (2 :: u64) ^ Suc k"
    using Suc.prems unat_exp64 [of "Suc k"] by (simp add: word_less_nat_alt)
  have even: "(2 :: u64) ^ Suc k AND 1 \<noteq> 1"
  proof -
    have "even ((2 :: u64) ^ Suc k)" by (rule dvd_power) simp
    then have "(2 :: u64) ^ Suc k mod 2 = 0" by (simp only: even_iff_mod_2_eq_zero)
    then show ?thesis by (simp only: and_one_eq) simp
  qed
  have half: "drop_bit 1 ((2 :: u64) ^ Suc k) = 2 ^ k"
    using Suc.prems by (intro bit_eqI) (auto simp: bit_simps)
  show ?case
    using Suc.IH [of "sh + 1"] Suc.prems pos even half
    by (subst page_shift_loop.simps) (simp add: add.assoc)
qed

text \<open>A library object opened on a machine with pages of \<open>2 ^ k\<close> bytes.\<close>

definition page_gdr :: "nat \<Rightarrow> gdr \<Rightarrow> bool" where
  "page_gdr k r = (k < 32 \<and> g_page_size r = 2 ^ k \<and> g_page_mask r = NOT (2 ^ k - 1) \<and>
     unat (g_page_shift r) = k)"

lemma rounded_size_unat:
  assumes "page_gdr k r" and "unat sz + 2 ^ k \<le> 2 ^ 64"
  shows "unat (rounded_size r sz) = (unat sz + 2 ^ k - 1) div 2 ^ k * 2 ^ k"
proof -
  let ?P = "2 ^ k :: nat"
  have k: "k < 64" and r: "g_page_size r = 2 ^ k" "g_page_mask r = NOT (2 ^ k - 1)"
    using assms(1) by (auto simp: page_gdr_def)
  have P: "0 < ?P" by simp
  have one: "(1 :: u64) \<le> 2 ^ k" using unat_exp64 [OF k] by (simp add: word_le_nat_alt)
  have "unat (sz + (2 ^ k - 1)) = unat sz + (?P - 1)"
  proof -
    have "unat ((2 :: u64) ^ k - 1) = ?P - 1" using one unat_exp64 [OF k] by (simp add: unat_sub)
    moreover have "unat sz + (?P - 1) < 2 ^ 64" using assms(2) P by linarith
    ultimately show ?thesis by (simp add: unat_word_ariths)
  qed
  then have sum: "unat (sz + 2 ^ k - 1) = unat sz + ?P - 1"
    using P by (simp add: add_diff_eq)
  show ?thesis
    unfolding rounded_size_def r unat_and_not_low sum by (simp add: minus_mod_eq_div_mult)
qed

lemma magic_off_handle:
  assumes "page_gdr k r"
  shows "drop_bit k (magic_off r mh) = ucast (mh_handle mh)"
proof -
  have k: "k < 32" "unat (g_page_shift r) = k" using assms by (auto simp: page_gdr_def)
  have "drop_bit k (push_bit k (ucast (mh_handle mh) :: u64)) = ucast (mh_handle mh)"
    using k(1) by (intro bit_eqI) (auto simp: bit_simps dest: bit_imp_le_length)
  then show ?thesis by (simp add: magic_off_def k(2))
qed

section \<open>The invariant of the library's state\<close>

text \<open>
  Every handle on a list is allocated and on one list only; a type's counter is at least the
  number of allocated handles mapped with that type.
\<close>

definition mapped_as :: "lib \<Rightarrow> u32 \<Rightarrow> nat set" where
  "mapped_as L ty = {h. \<exists>m. memhs L h = Some m \<and> mh_mapping_type m = ty}"

definition lists_ok :: "lib \<Rightarrow> bool" where
  "lists_ok L \<longleftrightarrow>
     (\<forall>g r. gdrs L g = Some r \<longrightarrow> distinct (g_memhs r) \<and> set (g_memhs r) \<subseteq> dom (memhs L)) \<and>
     (\<forall>g g' r r'. gdrs L g = Some r \<longrightarrow> gdrs L g' = Some r' \<longrightarrow> g \<noteq> g' \<longrightarrow>
        set (g_memhs r) \<inter> set (g_memhs r') = {})"

definition counters_ok :: "lib \<Rightarrow> bool" where
  "counters_ok L \<longleftrightarrow> finite (dom (memhs L)) \<and>
     length (gdr_mapping_type_counters L) = GDR_MAPPING_TYPE_MAX \<and>
     (\<forall>h m. memhs L h = Some m \<longrightarrow> unat (mh_mapping_type m) < GDR_MAPPING_TYPE_MAX) \<and>
     (\<forall>ty. ty \<noteq> GDR_MAPPING_TYPE_NONE \<longrightarrow> unat ty < GDR_MAPPING_TYPE_MAX \<longrightarrow>
        int (card (mapped_as L ty)) \<le> gdr_mapping_type_counters L ! unat ty)"

definition lib_inv :: "lib \<Rightarrow> bool" where
  "lib_inv L \<longleftrightarrow> lists_ok L \<and> counters_ok L"

lemma lib_inv_static: "lib_inv lib_static"
  by (auto simp: lib_inv_def lists_ok_def counters_ok_def lib_static_def mapped_as_def mapping_types
      nth_Cons less_Suc_eq split: nat.splits)

lemma finite_mapped: "counters_ok L \<Longrightarrow> finite (mapped_as L ty)"
  by (rule finite_subset [of _ "dom (memhs L)"]) (auto simp: mapped_as_def counters_ok_def)

text \<open>Setting the type of one handle and moving one counter along with it.\<close>

lemma add_counter_Inr:
  "add_counter ty k L = Inr L' \<longleftrightarrow> unat ty < length (gdr_mapping_type_counters L) \<and>
     L' = L\<lparr>gdr_mapping_type_counters := (gdr_mapping_type_counters L)
       [unat ty := gdr_mapping_type_counters L ! unat ty + k]\<rparr>"
  by (auto simp: add_counter_def Let_def)

lemma mapped_as_set:
  "mapped_as (L\<lparr>memhs := (memhs L)(h \<mapsto> m)\<rparr>) ty =
     (if mh_mapping_type m = ty then insert h (mapped_as L ty) else mapped_as L ty - {h})"
  by (auto simp: mapped_as_def split: if_splits)

lemma mapped_as_del: "mapped_as (L\<lparr>memhs := (memhs L)(h := None)\<rparr>) ty = mapped_as L ty - {h}"
  by (auto simp: mapped_as_def split: if_splits)

lemma mapped_as_cong: "memhs L' = memhs L \<Longrightarrow> mapped_as L' ty = mapped_as L ty"
  by (simp add: mapped_as_def)

lemma card_diff_le: "finite A \<Longrightarrow> int (card A) \<le> n \<Longrightarrow> int (card (A - {h})) \<le> n"
  using card_Diff1_le [of A h] by linarith

text \<open>A handle that gets a type it did not have, with the counter of that type incremented.\<close>

lemma counters_ok_map:
  assumes inv: "counters_ok L" and h: "memhs L h = Some m"
    and run: "add_counter ty 1 (L\<lparr>memhs := (memhs L)(h \<mapsto> m\<lparr>mh_mapping_type := ty\<rparr>)\<rparr>) = Inr L'"
  shows "counters_ok L'"
proof -
  let ?ns = "gdr_mapping_type_counters L"
  have L': "unat ty < length ?ns" "memhs L' = (memhs L)(h \<mapsto> m\<lparr>mh_mapping_type := ty\<rparr>)"
      "gdr_mapping_type_counters L' = ?ns[unat ty := ?ns ! unat ty + 1]"
    using run by (auto simp: add_counter_Inr)
  have m: "mapped_as L' t = (if t = ty then insert h (mapped_as L t) else mapped_as L t - {h})" for t
    using mapped_as_set [of L h "m\<lparr>mh_mapping_type := ty\<rparr>" t]
      mapped_as_cong [of L' "L\<lparr>memhs := (memhs L)(h \<mapsto> m\<lparr>mh_mapping_type := ty\<rparr>)\<rparr>"] L'(2) by auto
  have "int (card (mapped_as L' t)) \<le> gdr_mapping_type_counters L' ! unat t"
    if t: "t \<noteq> GDR_MAPPING_TYPE_NONE" "unat t < GDR_MAPPING_TYPE_MAX" for t
  proof -
    have le: "int (card (mapped_as L t)) \<le> ?ns ! unat t" using inv t by (simp add: counters_ok_def)
    show ?thesis
    proof (cases "t = ty")
      case True
      then show ?thesis
        using le L'(1) finite_mapped [OF inv, of t] by (simp add: m L'(3) card_insert_if)
    next
      case False
      then have "unat t \<noteq> unat ty" by (simp add: word_unat_eq_iff)
      then show ?thesis
        using False le card_diff_le [OF finite_mapped [OF inv]] by (simp add: m L'(3))
    qed
  qed
  then show ?thesis using inv L' by (auto simp: counters_ok_def)
qed

text \<open>The handle's type dropped, with the counter of its type decremented.\<close>

lemma counters_ok_unmap:
  assumes inv: "counters_ok L" and h: "memhs L h = Some m"
    and ty: "mh_mapping_type m \<noteq> GDR_MAPPING_TYPE_NONE"
    and run: "add_counter (mh_mapping_type m) (-1) L = Inr L1"
  shows "counters_ok (L1\<lparr>memhs := (memhs L1)(h \<mapsto> m\<lparr>mh_mapping_type := GDR_MAPPING_TYPE_NONE\<rparr>)\<rparr>)"
    (is "counters_ok ?L'")
proof -
  let ?ns = "gdr_mapping_type_counters L" and ?ty = "mh_mapping_type m"
  have L1: "unat ?ty < length ?ns" "memhs L1 = memhs L"
      "gdr_mapping_type_counters L1 = ?ns[unat ?ty := ?ns ! unat ?ty + (-1)]"
    using run by (auto simp: add_counter_Inr)
  have m': "mapped_as ?L' t = mapped_as L t - {h}" if "t \<noteq> GDR_MAPPING_TYPE_NONE" for t
    using mapped_as_set [of L1 h "m\<lparr>mh_mapping_type := GDR_MAPPING_TYPE_NONE\<rparr>" t] that
      mapped_as_cong [OF L1(2), of t] by auto
  have "int (card (mapped_as ?L' t)) \<le> gdr_mapping_type_counters ?L' ! unat t"
    if t: "t \<noteq> GDR_MAPPING_TYPE_NONE" "unat t < GDR_MAPPING_TYPE_MAX" for t
  proof -
    have le: "int (card (mapped_as L t)) \<le> ?ns ! unat t" using inv t by (simp add: counters_ok_def)
    show ?thesis
    proof (cases "t = ?ty")
      case True
      then have "h \<in> mapped_as L t" using h by (simp add: mapped_as_def)
      then have "int (card (mapped_as L t - {h})) = int (card (mapped_as L t)) - 1"
        using finite_mapped [OF inv, of t] card_gt_0_iff [of "mapped_as L t"]
        by (auto simp: of_nat_diff Suc_leI)
      then show ?thesis using le L1(1) unfolding m' [OF t(1)] by (simp add: L1(3) True)
    next
      case False
      then have "unat t \<noteq> unat ?ty" by (simp add: word_unat_eq_iff)
      then show ?thesis
        using le card_diff_le [OF finite_mapped [OF inv]] by (simp add: m' [OF t(1)] L1(3))
    qed
  qed
  then show ?thesis using inv L1 by (auto simp: counters_ok_def mapping_types split: if_splits)
qed

text \<open>The operations that allocate, list and free handles.\<close>

lemma counters_ok_shrink:
  assumes "counters_ok L" and "finite (dom (memhs L'))"
    and "gdr_mapping_type_counters L' = gdr_mapping_type_counters L"
    and "\<And>h m. memhs L' h = Some m \<Longrightarrow> unat (mh_mapping_type m) < GDR_MAPPING_TYPE_MAX"
    and "\<And>ty. ty \<noteq> GDR_MAPPING_TYPE_NONE \<Longrightarrow> mapped_as L' ty \<subseteq> mapped_as L ty"
  shows "counters_ok L'"
proof -
  have "int (card (mapped_as L' ty)) \<le> gdr_mapping_type_counters L ! unat ty"
    if "ty \<noteq> GDR_MAPPING_TYPE_NONE" "unat ty < GDR_MAPPING_TYPE_MAX" for ty
  proof -
    have "int (card (mapped_as L' ty)) \<le> int (card (mapped_as L ty))"
      using card_mono [OF finite_mapped [OF assms(1)] assms(5) [OF that(1)]] by simp
    also have "\<dots> \<le> gdr_mapping_type_counters L ! unat ty"
      using assms(1) that by (simp add: counters_ok_def)
    finally show ?thesis .
  qed
  with assms show ?thesis by (simp add: counters_ok_def)
qed

lemma counters_ok_cong:
  "counters_ok L \<Longrightarrow> memhs L' = memhs L \<Longrightarrow>
     gdr_mapping_type_counters L' = gdr_mapping_type_counters L \<Longrightarrow> counters_ok L'"
  by (simp add: counters_ok_def mapped_as_def)

lemma lists_ok_cong: "lists_ok L \<Longrightarrow> dom (memhs L') = dom (memhs L) \<Longrightarrow> gdrs L' = gdrs L \<Longrightarrow> lists_ok L'"
  by (simp add: lists_ok_def)

lemma add_memh_inv:
  assumes inv: "lib_inv L" and fresh: "memhs L p = None" and g: "gdrs L g = Some r"
  shows "lib_inv (add_memh g r p hnd L)"
proof -
  let ?mh = "\<lparr>mh_handle = ucast hnd, mh_mapping_type = GDR_MAPPING_TYPE_NONE\<rparr>"
  have np: "p \<notin> set (g_memhs r')" if "gdrs L g' = Some r'" for g' r'
    using inv fresh that by (auto simp: lib_inv_def lists_ok_def dest!: subsetD)
  have "lists_ok (add_memh g r p hnd L)"
    using inv g np unfolding lib_inv_def lists_ok_def add_memh_def
    by (auto split: if_splits dest!: subsetD)
  moreover have "counters_ok (add_memh g r p hnd L)"
    by (rule counters_ok_shrink [of L]) (use inv in
      \<open>auto simp: lib_inv_def counters_ok_def add_memh_def mapped_as_def mapping_types split: if_splits\<close>)
  ultimately show ?thesis by (simp add: lib_inv_def)
qed

lemma free_memh_inv:
  assumes inv: "lib_inv L"
  shows "lib_inv (list_remove h L\<lparr>memhs := (memhs L)(h := None)\<rparr>)" (is "lib_inv ?L'")
proof -
  have "lists_ok ?L'"
    unfolding lists_ok_def
  proof (intro conjI allI impI)
    fix g r assume "gdrs ?L' g = Some r"
    then obtain r0 where r0: "gdrs L g = Some r0" "g_memhs r = remove1 h (g_memhs r0)"
      by (auto simp: list_remove_def)
    then have d: "distinct (g_memhs r0)" "set (g_memhs r0) \<subseteq> dom (memhs L)"
      using inv by (auto simp: lib_inv_def lists_ok_def)
    show "distinct (g_memhs r)" using d r0 by simp
    show "set (g_memhs r) \<subseteq> dom (memhs ?L')" using d r0 by auto
  next
    fix g g' r r' assume "gdrs ?L' g = Some r" "gdrs ?L' g' = Some r'" "g \<noteq> g'"
    then obtain r0 r1 where "gdrs L g = Some r0" "g_memhs r = remove1 h (g_memhs r0)"
        "gdrs L g' = Some r1" "g_memhs r' = remove1 h (g_memhs r1)"
      by (auto simp: list_remove_def)
    moreover from this have "set (g_memhs r0) \<inter> set (g_memhs r1) = {}"
      using inv \<open>g \<noteq> g'\<close> by (auto simp: lib_inv_def lists_ok_def)
    ultimately show "set (g_memhs r) \<inter> set (g_memhs r') = {}"
      using set_remove1_subset [of h "g_memhs r0"] set_remove1_subset [of h "g_memhs r1"] by auto
  qed
  moreover have "counters_ok ?L'"
    by (rule counters_ok_shrink [of L]) (use inv in
      \<open>auto simp: lib_inv_def counters_ok_def list_remove_def mapped_as_def split: if_splits\<close>)
  ultimately show ?thesis by (simp add: lib_inv_def)
qed

section \<open>Every operation keeps the invariant\<close>

text \<open>What \<open>calloc\<close> promises: the address of no live object.\<close>

definition calloc_doc :: "'d os \<Rightarrow> bool" where
  "calloc_doc K \<longleftrightarrow> (\<forall>L p. sys_calloc K L = Some p \<longrightarrow> memhs L p = None \<and> gdrs L p = None)"

definition api_inv :: "cpu_arch \<Rightarrow> lib \<Rightarrow> bool" where
  "api_inv ar L \<longleftrightarrow> lib_inv L \<and> flags_ok ar L"

lemma init_cpu_flags_simps [simp]:
  "memhs (gdr_init_cpu_flags ar K L) = memhs L" "gdrs (gdr_init_cpu_flags ar K L) = gdrs L"
  "gdr_mapping_type_counters (gdr_init_cpu_flags ar K L) = gdr_mapping_type_counters L"
  by (auto simp: gdr_init_cpu_flags_def Let_def split: option.splits)

lemma init_cpu_flags_ok: "flags_ok ar L \<Longrightarrow> flags_ok ar (gdr_init_cpu_flags ar K L)"
  by (auto simp: gdr_init_cpu_flags_def Let_def simd_defs split: option.splits)

lemma flags_ok_cong:
  "has_sse L' = has_sse L \<Longrightarrow> has_sse4_1 L' = has_sse4_1 L \<Longrightarrow> has_avx L' = has_avx L \<Longrightarrow>
     flags_ok ar L \<Longrightarrow> flags_ok ar L'"
  by (simp add: simd_defs)

lemma open_inv:
  assumes run: "gdr_open ar K L e = Inr (gp, L', e')" and inv: "api_inv ar L"
  shows "api_inv ar L'"
proof (cases "L' = L")
  case False
  then obtain g r where L': "L' = (gdr_init_cpu_flags ar K L)\<lparr>gdrs := (gdrs L)(g \<mapsto> r)\<rparr>"
    and r: "g_memhs r = []"
    using run by (auto simp: gdr_open_def open_fail_def Let_def split: option.splits if_splits)
  have "lists_ok L'" using inv r unfolding api_inv_def lib_inv_def lists_ok_def L' by auto
  moreover have "counters_ok L'"
    by (rule counters_ok_cong [of L]) (use inv in \<open>auto simp: api_inv_def lib_inv_def L'\<close>)
  moreover have "flags_ok ar L'"
    by (rule flags_ok_cong [OF _ _ _ init_cpu_flags_ok]) (use inv in \<open>auto simp: api_inv_def L'\<close>)
  ultimately show ?thesis by (simp add: api_inv_def lib_inv_def)
qed (use inv in simp)

definition pin_adds :: "'d os \<Rightarrow> nat \<Rightarrow> lib \<Rightarrow> lib \<Rightarrow> bool" where
  "pin_adds K g L L' \<longleftrightarrow>
     (\<exists>p r hnd. sys_calloc K L = Some p \<and> gdrs L g = Some r \<and> L' = add_memh g r p hnd L)"

lemma pin_state:
  "gdr_pin_buffer K g addr sz t v hp L e = Inr (ret, h, L', e') \<Longrightarrow> L' = L \<or> pin_adds K g L L'"
  by (auto simp: gdr_pin_buffer_def pin_adds_def Let_def split: if_splits option.splits)

lemma pin_v2_internal_state:
  "gdr_pin_buffer_v2_internal K g addr sz fl hp L e = Inr (ret, h, L', e') \<Longrightarrow>
     L' = L \<or> pin_adds K g L L'"
  by (auto simp: gdr_pin_buffer_v2_internal_def pin_adds_def Let_def split: if_splits option.splits)

lemma pin_v2_state:
  "gdr_pin_buffer_v2 K g addr sz fl hp L e = Inr (ret, h, L', e') \<Longrightarrow> L' = L \<or> pin_adds K g L L'"
  by (auto simp: gdr_pin_buffer_v2_def split: if_splits dest: pin_state pin_v2_internal_state)

lemma pin_inv:
  assumes "L' = L \<or> pin_adds K g L L'" and "calloc_doc K" and inv: "api_inv ar L"
  shows "api_inv ar L'"
  using assms(1)
proof
  assume "pin_adds K g L L'"
  then obtain p r hnd where L': "sys_calloc K L = Some p" "gdrs L g = Some r"
      "L' = add_memh g r p hnd L" by (auto simp: pin_adds_def)
  have "memhs L p = None" using assms(2) L'(1) by (simp add: calloc_doc_def)
  then have "lib_inv L'" using add_memh_inv inv L' by (auto simp: api_inv_def)
  moreover have "flags_ok ar L'"
    by (rule flags_ok_cong [of _ L]) (use inv in \<open>auto simp: api_inv_def L' add_memh_def\<close>)
  ultimately show ?thesis by (simp add: api_inv_def)
qed (use inv in simp)

lemma unpin_inv:
  assumes run: "gdr_unpin_buffer K g h L e = Inr (ret, L', e')" and inv: "api_inv ar L"
  shows "api_inv ar L'"
proof -
  have L': "L' = list_remove h L\<lparr>memhs := (memhs L)(h := None)\<rparr>"
    using run by (auto simp: gdr_unpin_buffer_def Let_def list_remove_def)
  have "flags_ok ar L'"
    by (rule flags_ok_cong [of _ L]) (use inv in \<open>auto simp: api_inv_def L' list_remove_def\<close>)
  then show ?thesis using inv free_memh_inv by (simp add: api_inv_def L')
qed

lemma close_loop_inv:
  "gdr_close_loop K g hs L e = Inr (ret, L', e') \<Longrightarrow> api_inv ar L \<Longrightarrow> api_inv ar L'"
  by (induction hs arbitrary: L e) (auto split: if_splits dest: unpin_inv)

lemma close_inv:
  assumes run: "gdr_close K g L e = Inr (ret, L', e')" and inv: "api_inv ar L"
  shows "api_inv ar L'"
proof -
  obtain r ret1 L1 e1 where g: "gdrs L g = Some r"
    and loop: "gdr_close_loop K g (g_memhs r) L e = Inr (ret1, L1, e1)"
    using run by (auto simp: gdr_close_def)
  have L': "L' = L1 \<or> L' = L1\<lparr>gdrs := (gdrs L1)(g := None)\<rparr>"
    using run g loop by (auto simp: gdr_close_def gdr_at_def split: if_splits)
  have inv1: "api_inv ar L1" by (rule close_loop_inv [OF loop inv])
  have "lists_ok L'"
    using L' inv1 unfolding api_inv_def lib_inv_def lists_ok_def by (elim disjE) auto
  moreover have "counters_ok L'"
    by (rule counters_ok_cong [of L1]) (use L' inv1 in \<open>auto simp: api_inv_def lib_inv_def\<close>)
  moreover have "flags_ok ar L'"
    by (rule flags_ok_cong [of _ L1]) (use L' inv1 in \<open>auto simp: api_inv_def\<close>)
  ultimately show ?thesis by (simp add: api_inv_def lib_inv_def)
qed

text \<open>What a call of \<open>gdr_map_v2\<close> does to the library's state.\<close>

lemma map_undo_state: "map_undo K st a sz L e = Inr (ret, va', L', e') \<Longrightarrow> L' = L \<and> ret = st"
  by (auto simp: map_undo_def split: if_splits)

definition map_adds :: "int \<Rightarrow> nat \<Rightarrow> lib \<Rightarrow> lib \<Rightarrow> bool" where
  "map_adds flags h L L' \<longleftrightarrow>
     (\<exists>m ty. memhs L h = Some m \<and> gdr_is_mapped ty \<and>
       (flags \<noteq> GDR_MAP_FLAG_DEFAULT \<longrightarrow> (\<exists>t. mapping_type_of_flags flags = Some t \<and> ty = mr_type_val t)) \<and>
       add_counter ty 1 (L\<lparr>memhs := (memhs L)(h \<mapsto> m\<lparr>mh_mapping_type := ty\<rparr>)\<rparr>) = Inr L')"

lemma map_check_state:
  assumes "map_check K g h flags t a sz L e = Inr (ret, va', L', e')" and "mapping_type_of_flags flags = Some t"
  shows "L' = L \<and> ret \<noteq> 0 \<or> ret = 0 \<and> map_adds flags h L L'"
proof -
  obtain st info e1 where i: "gdr_get_info_v2 K g h zero_info L e = Inr (st, info, e1)"
    using assms(1) by (auto simp: map_check_def)
  consider "st \<noteq> 0" | "st = 0" "\<not> gdr_is_mapped (mapping_type info)"
    | "st = 0" "gdr_is_mapped (mapping_type info)"
      "flags \<noteq> GDR_MAP_FLAG_DEFAULT \<and> mapping_type info \<noteq> mr_type_val t"
    | "st = 0" "gdr_is_mapped (mapping_type info)"
      "flags \<noteq> GDR_MAP_FLAG_DEFAULT \<longrightarrow> mapping_type info = mr_type_val t"
    by blast
  then show ?thesis
  proof cases
    case 4
    then obtain m where m: "memhs L h = Some m" "ret = 0" "add_counter (mapping_type info) 1
        (L\<lparr>memhs := (memhs L)(h \<mapsto> m\<lparr>mh_mapping_type := mapping_type info\<rparr>)\<rparr>) = Inr L'"
      using assms(1) i by (auto simp: map_check_def)
    have "map_adds flags h L L'"
      unfolding map_adds_def
      by (rule exI [of _ m], rule exI [of _ "mapping_type info"]) (use 4 m assms(2) in simp)
    with m(2) show ?thesis by simp
  qed (use assms(1) i in \<open>auto simp: map_check_def errno_defs dest!: map_undo_state\<close>)
qed

lemma map_state:
  assumes "gdr_map_v2 K g h sz flags L e = Inr (ret, va', L', e')"
  shows "L' = L \<or> ret = 0 \<and> map_adds flags h L L'"
  using assms
  by (auto simp: gdr_map_v2_def split: if_splits option.splits dest!: map_check_state)

lemma map_adds_inv:
  assumes "map_adds flags h L L'" and inv: "lib_inv L"
  shows "lib_inv L'"
proof -
  obtain m ty where h: "memhs L h = Some m"
    and L': "add_counter ty 1 (L\<lparr>memhs := (memhs L)(h \<mapsto> m\<lparr>mh_mapping_type := ty\<rparr>)\<rparr>) = Inr L'"
    using assms(1) by (auto simp: map_adds_def)
  have "counters_ok L'" using counters_ok_map [OF _ h L'] inv by (simp add: lib_inv_def)
  moreover have "lists_ok L'"
    by (rule lists_ok_cong [of L]) (use inv L' h in \<open>auto simp: lib_inv_def add_counter_Inr\<close>)
  ultimately show ?thesis by (simp add: lib_inv_def)
qed

lemma map_inv:
  assumes run: "gdr_map_v2 K g h sz flags L e = Inr (ret, va', L', e')" and inv: "api_inv ar L"
  shows "api_inv ar L'"
  using map_state [OF run]
proof
  assume ok: "ret = 0 \<and> map_adds flags h L L'"
  then obtain m ty where
    "add_counter ty 1 (L\<lparr>memhs := (memhs L)(h \<mapsto> m\<lparr>mh_mapping_type := ty\<rparr>)\<rparr>) = Inr L'"
    by (auto simp: map_adds_def)
  then have "flags_ok ar L'"
    using inv by (simp add: simd_defs api_inv_def add_counter_Inr)
  then show ?thesis using map_adds_inv ok inv by (auto simp: api_inv_def)
qed (use inv in simp)

text \<open>The record of an unmapping: the counter and the handle object.\<close>

definition unmap_drops :: "nat \<Rightarrow> lib \<Rightarrow> lib \<Rightarrow> bool" where
  "unmap_drops h L L' \<longleftrightarrow>
     (\<exists>m L1. memhs L h = Some m \<and> gdr_is_mapped (mh_mapping_type m) \<and>
       add_counter (mh_mapping_type m) (-1) L = Inr L1 \<and>
       L' = L1\<lparr>memhs := (memhs L1)(h \<mapsto> m\<lparr>mh_mapping_type := GDR_MAPPING_TYPE_NONE\<rparr>)\<rparr>)"

lemma unmap_drops_inv:
  assumes "unmap_drops h L L'" and inv: "lib_inv L"
  shows "lib_inv L'"
proof -
  obtain m L1 where h: "memhs L h = Some m" "mh_mapping_type m \<noteq> GDR_MAPPING_TYPE_NONE"
    and L1: "add_counter (mh_mapping_type m) (-1) L = Inr L1"
    and L': "L' = L1\<lparr>memhs := (memhs L1)(h \<mapsto> m\<lparr>mh_mapping_type := GDR_MAPPING_TYPE_NONE\<rparr>)\<rparr>"
    using assms(1) by (auto simp: unmap_drops_def gdr_is_mapped_def)
  have "counters_ok L'"
    unfolding L' using counters_ok_unmap [OF _ h L1] inv by (simp add: lib_inv_def)
  moreover have "lists_ok L'"
    by (rule lists_ok_cong [of L]) (use inv L1 L' h in \<open>auto simp: lib_inv_def add_counter_Inr\<close>)
  ultimately show ?thesis by (simp add: lib_inv_def)
qed

lemma unmap_inv:
  assumes run: "gdr_unmap K g h a sz L e = Inr (ret, L', e')" and inv: "api_inv ar L"
  shows "api_inv ar L'"
proof (cases "L' = L")
  case False
  then have d: "unmap_drops h L L'"
    using run by (auto simp: gdr_unmap_def unmap_drops_def split: if_splits)
  then obtain m L1 where "add_counter (mh_mapping_type m) (-1) L = Inr L1"
    and "L' = L1\<lparr>memhs := (memhs L1)(h \<mapsto> m\<lparr>mh_mapping_type := GDR_MAPPING_TYPE_NONE\<rparr>)\<rparr>"
    by (auto simp: unmap_drops_def)
  then have "flags_ok ar L'"
    using inv by (simp add: simd_defs api_inv_def add_counter_Inr)
  then show ?thesis using unmap_drops_inv d inv by (auto simp: api_inv_def)
qed (use inv in simp)

section \<open>Sequences of calls\<close>

text \<open>
  One call of the library, by any client, or a step of the kernel alone (the NVIDIA driver's
  callback, another process). The queries and the copies leave the library's state as it is.
\<close>

inductive api_step :: "cpu_arch \<Rightarrow> 'd os \<Rightarrow> lib \<times> 'd \<Rightarrow> lib \<times> 'd \<Rightarrow> bool" for ar K where
  call_open: "gdr_open ar K L e = Inr (gp, L', e') \<Longrightarrow> api_step ar K (L, e) (L', e')"
| call_close: "gdr_close K g L e = Inr (ret, L', e') \<Longrightarrow> api_step ar K (L, e) (L', e')"
| call_pin: "gdr_pin_buffer K g addr sz t v hp L e = Inr (ret, h, L', e') \<Longrightarrow>
    api_step ar K (L, e) (L', e')"
| call_pin_v2: "gdr_pin_buffer_v2 K g addr sz fl hp L e = Inr (ret, h, L', e') \<Longrightarrow>
    api_step ar K (L, e) (L', e')"
| call_unpin: "gdr_unpin_buffer K g h L e = Inr (ret, L', e') \<Longrightarrow> api_step ar K (L, e) (L', e')"
| call_map: "gdr_map_v2 K g h sz flags L e = Inr (ret, a, L', e') \<Longrightarrow> api_step ar K (L, e) (L', e')"
| call_unmap: "gdr_unmap K g h a sz L e = Inr (ret, L', e') \<Longrightarrow> api_step ar K (L, e) (L', e')"
| kernel: "api_step ar K (L, e) (L, e')"

inductive_cases api_stepE [elim]: "api_step ar K (L, e) (L', e')"

definition api_reach :: "cpu_arch \<Rightarrow> 'd os \<Rightarrow> lib \<Rightarrow> bool" where
  "api_reach ar K L \<longleftrightarrow> (\<exists>e0 e. (api_step ar K)\<^sup>*\<^sup>* (lib_static, e0) (L, e))"

lemma api_step_inv:
  assumes "api_step ar K a b" and "calloc_doc K" and "api_inv ar (fst a)"
  shows "api_inv ar (fst b)"
  using assms
  by (cases rule: api_step.cases)
    (auto intro: open_inv close_inv unpin_inv map_inv unmap_inv
      pin_inv [OF pin_state] pin_inv [OF pin_v2_state])

lemma api_reach_inv:
  assumes "api_reach ar K L" and "calloc_doc K"
  shows "api_inv ar L"
proof -
  obtain e0 e where steps: "(api_step ar K)\<^sup>*\<^sup>* (lib_static, e0) (L, e)"
    using assms(1) by (auto simp: api_reach_def)
  have "api_inv ar (fst b)" if "(api_step ar K)\<^sup>*\<^sup>* (lib_static, e0) b" for b
    using that
  proof (induction rule: rtranclp_induct)
    case base
    show ?case by (simp add: api_inv_def lib_inv_static) (simp add: simd_defs lib_static_def)
  next
    case (step b c)
    then show ?case using api_step_inv assms(2) by blast
  qed
  from this [OF steps] show ?thesis by simp
qed

end
