(* ===== verification/Api_Correct.thy ===== *)
theory Api_Correct
  imports Api_Lib
begin

text \<open>
  The properties of the library over any kernel: detection of mixed mapping types, the outcome of
  mapping and unmapping, the arithmetic of opening and mapping, and error behaviour. The kernel
  is a parameter; \<open>ex_os\<close> is a small one on which the theorems are instantiated.
\<close>

section \<open>A small kernel\<close>

text \<open>
  Its state is the next handle to give out. Every call succeeds; a region with an odd handle is
  mapped cached, one with an even handle write-combined.
\<close>

definition ex_ioctl :: "int \<Rightarrow> u32 \<Rightarrow> uarg \<Rightarrow> u64 \<Rightarrow> (int \<times> int \<times> uout \<times> u64) run" where
  "ex_ioctl fd cmd u n =
     (if cmd = GDRDRV_IOC_GET_VERSION
      then Inr (0, 0, OutVersion \<lparr>ve_gdrdrv_version = GDRDRV_VERSION,
                        ve_minimum_gdr_api_version = MINIMUM_GDR_API_VERSION\<rparr>, n)
      else if cmd = GDRDRV_IOC_PIN_BUFFER then Inr (0, 0, OutPin (ua_pin u\<lparr>pb_handle := n\<rparr>), n + 1)
      else if cmd = GDRDRV_IOC_GET_INFO_V2
      then Inr (0, 0, OutInfoV2 (ua_info_v2 u\<lparr>gv_mapping_type :=
             (if gv_handle (ua_info_v2 u) AND 1 = 1 then 2 else 1)\<rparr>), n)
      else if cmd = GDRDRV_IOC_GET_ATTR then Inr (-1, EINVAL, NoOut, n)
      else Inr (0, 0, NoOut, n))"

definition ex_os :: "u64 os" where
  "ex_os = \<lparr>sys_open = (\<lambda>n. Inr (5, 0, n)), sys_close = (\<lambda>_ n. Inr (0, 0, n)), sys_ioctl = ex_ioctl,
     sys_mmap = (\<lambda>sz _ off n. Inr (Some (0x7f0000000000 + off), 0, n)),
     sys_munmap = (\<lambda>_ _ n. Inr (0, 0, n)), sys_pagesize = 0x1000,
     sys_calloc = (\<lambda>L. List.find (\<lambda>p. memhs L p = None \<and> gdrs L p = None) [1, 2, 3]),
     sys_cpuid = (\<lambda>_. Some (0, 0, bit_AVX, bit_SSE))\<rparr>"

lemma ex_calloc_doc: "calloc_doc ex_os"
  by (auto simp: calloc_doc_def ex_os_def split: if_splits)

definition lib_of :: "('a \<times> 'b \<times> lib \<times> u64) run \<Rightarrow> lib" where
  "lib_of r = (case r of Inr (_, _, L, _) \<Rightarrow> L | Inl _ \<Rightarrow> lib_static)"

text \<open>Opened; one buffer pinned; a second one; the first mapped; the second mapped.\<close>

definition api_opened :: lib where
  "api_opened = (case gdr_open X86 ex_os lib_static 0 of Inr (_, L, _) \<Rightarrow> L | Inl _ \<Rightarrow> lib_static)"
definition api_pinned :: lib where
  "api_pinned = lib_of (gdr_pin_buffer ex_os 1 0x10000 0x10000 0 0 True api_opened 0)"
definition api_pinned2 :: lib where
  "api_pinned2 = lib_of (gdr_pin_buffer ex_os 1 0x20000 0x10000 0 0 True api_pinned 1)"
definition api_mapped :: lib where
  "api_mapped = lib_of (gdr_map_v2 ex_os 1 2 0x10000 0 api_pinned2 2)"
definition api_mapped2 :: lib where
  "api_mapped2 = lib_of (gdr_map_v2 ex_os 1 3 0x10000 2 api_mapped 2)"

definition ex_gdr :: "nat list \<Rightarrow> gdr" where
  "ex_gdr hs = \<lparr>g_fd = 5, g_memhs = hs, g_page_size = 0x1000, g_page_mask = NOT 0xfff,
     g_page_shift = 12, g_gdrdrv_version = GDRDRV_VERSION\<rparr>"

definition ex_memh :: "u32 \<Rightarrow> u32 \<Rightarrow> memh" where
  "ex_memh h ty = \<lparr>mh_handle = h, mh_mapping_type = ty\<rparr>"

lemma ex_page_shift: "page_shift_loop 0x1000 (-1) = 12"
  using page_shift_exp [of 12 "-1"] by simp

lemma lib_of_ok: "(case r of Inr _ \<Rightarrow> True | Inl _ \<Rightarrow> False) \<Longrightarrow> \<exists>a b e. r = Inr (a, b, lib_of r, e)"
  by (cases r) (auto simp: lib_of_def)

lemma api_reach_step:
  assumes "api_reach ar K L" and "\<exists>e e'. api_step ar K (L, e) (L', e')"
  shows "api_reach ar K L'"
proof -
  obtain e0 e1 where steps: "(api_step ar K)\<^sup>*\<^sup>* (lib_static, e0) (L, e1)"
    using assms(1) by (auto simp: api_reach_def)
  obtain e e' where "api_step ar K (L, e) (L', e')" using assms(2) by blast
  moreover have "api_step ar K (L, e1) (L, e)" by (rule kernel)
  ultimately have "(api_step ar K)\<^sup>*\<^sup>* (lib_static, e0) (L', e')"
    using steps by (meson rtranclp.rtrancl_into_rtrancl)
  then show ?thesis by (auto simp: api_reach_def)
qed

lemma reach_static: "api_reach ar K lib_static"
  by (auto simp: api_reach_def)

lemma api_reach_opened: "api_reach X86 ex_os api_opened"
proof (rule api_reach_step [OF reach_static])
  have "case gdr_open X86 ex_os lib_static 0 of Inr _ \<Rightarrow> True | Inl _ \<Rightarrow> False" by code_simp
  then have "\<exists>gp e. gdr_open X86 ex_os lib_static 0 = Inr (gp, api_opened, e)"
    by (auto simp: api_opened_def split: sum.splits)
  then show "\<exists>e e'. api_step X86 ex_os (lib_static, e) (api_opened, e')"
    by (auto intro: call_open)
qed

lemma api_reach_pinned2: "api_reach X86 ex_os api_pinned2"
proof (rule api_reach_step [OF api_reach_step [OF api_reach_opened]])
  have "case gdr_pin_buffer ex_os 1 0x10000 0x10000 0 0 True api_opened 0 of Inr _ \<Rightarrow> True | Inl _ \<Rightarrow> False"
    by code_simp
  from lib_of_ok [OF this] show "\<exists>e e'. api_step X86 ex_os (api_opened, e) (api_pinned, e')"
    unfolding api_pinned_def by (auto intro: call_pin)
  have "case gdr_pin_buffer ex_os 1 0x20000 0x10000 0 0 True api_pinned 1 of Inr _ \<Rightarrow> True | Inl _ \<Rightarrow> False"
    by code_simp
  from lib_of_ok [OF this] show "\<exists>e e'. api_step X86 ex_os (api_pinned, e) (api_pinned2, e')"
    unfolding api_pinned2_def by (auto intro: call_pin)
qed

lemma api_reach_mapped2: "api_reach X86 ex_os api_mapped2"
proof (rule api_reach_step [OF api_reach_step [OF api_reach_pinned2]])
  have "case gdr_map_v2 ex_os 1 2 0x10000 0 api_pinned2 2 of Inr _ \<Rightarrow> True | Inl _ \<Rightarrow> False"
    by code_simp
  from lib_of_ok [OF this] show "\<exists>e e'. api_step X86 ex_os (api_pinned2, e) (api_mapped, e')"
    unfolding api_mapped_def by (auto intro: call_map)
  have "case gdr_map_v2 ex_os 1 3 0x10000 2 api_mapped 2 of Inr _ \<Rightarrow> True | Inl _ \<Rightarrow> False"
    by code_simp
  from lib_of_ok [OF this] show "\<exists>e e'. api_step X86 ex_os (api_mapped, e) (api_mapped2, e')"
    unfolding api_mapped2_def by (auto intro: call_map)
qed

lemma api_mapped2_memhs: "memhs api_mapped2 2 = Some (ex_memh 0 1)" "memhs api_mapped2 3 = Some (ex_memh 1 2)"
  by code_simp+

section \<open>Mixed mappings are detected\<close>

text \<open>
  C29. After any sequence of library calls, whenever two live handles are mapped with different
  types, \<open>gdr_has_mix_mapping\<close> says so, however many handles were unpinned while mapped; and
  vector routines are selected on x86 only.
\<close>

theorem mix_mapping_detected:
  assumes "calloc_doc K" and "api_reach ar K L"
    and "memhs L h = Some m" and "memhs L h' = Some m'"
    and "gdr_is_mapped (mh_mapping_type m)" and "gdr_is_mapped (mh_mapping_type m')"
    and "mh_mapping_type m \<noteq> mh_mapping_type m'"
  shows "gdr_has_mix_mapping L \<and> flags_ok ar L"
proof -
  have inv: "counters_ok L" "flags_ok ar L"
    using api_reach_inv [OF assms(2,1)] by (auto simp: api_inv_def lib_inv_def)
  have pos: "unat (mh_mapping_type k) < GDR_MAPPING_TYPE_MAX \<and>
      gdr_mapping_type_counters L ! unat (mh_mapping_type k) \<noteq> 0"
    if "memhs L j = Some k" "gdr_is_mapped (mh_mapping_type k)" for j k
  proof -
    have "j \<in> mapped_as L (mh_mapping_type k)" using that(1) by (simp add: mapped_as_def)
    then have "0 < card (mapped_as L (mh_mapping_type k))"
      using finite_mapped [OF inv(1)] by (auto simp: card_gt_0_iff)
    then show ?thesis using inv(1) that by (fastforce simp: counters_ok_def gdr_is_mapped_def)
  qed
  have "unat (mh_mapping_type m) \<noteq> unat (mh_mapping_type m')"
    using assms(7) by (simp add: word_unat_eq_iff)
  then have "gdr_has_mix_mapping L"
    unfolding gdr_has_mix_mapping_def
    by (intro two_nonzero) (use pos [OF assms(3,5)] pos [OF assms(4,6)] inv(1) in
      \<open>auto simp: counters_ok_def\<close>)
  with inv(2) show ?thesis by simp
qed

theorem mix_mapping_detected_witness: "gdr_has_mix_mapping api_mapped2 \<and> flags_ok X86 api_mapped2"
  by (rule mix_mapping_detected [OF ex_calloc_doc api_reach_mapped2 api_mapped2_memhs])
    (simp_all add: ex_memh_def gdr_is_mapped_def mapping_types)

section \<open>Mapping and unmapping\<close>

lemma map_undo_kernel:
  "map_undo K st a sz L e = Inr (ret, va', L', e') \<Longrightarrow> ret \<noteq> 0 \<Longrightarrow> a \<noteq> 0 \<Longrightarrow>
     \<exists>rc err. sys_munmap K a sz e = Inr (rc, err, e')"
  by (auto simp: map_undo_def split: if_splits)

text \<open>An error after the mmap has unmapped the mapping it returns.\<close>

lemma map_v2_undone:
  assumes "memhs L h = Some m" and "gdrs L g = Some r"
    and run: "gdr_map_v2 K g h sz flags L e = Inr (ret, va', L', e')"
    and ret: "ret \<noteq> 0" "va' = Some a" "a \<noteq> 0"
  shows "\<exists>e2 rc err. sys_munmap K a (rounded_size r sz) e2 = Inr (rc, err, e')"
proof -
  obtain ty b e2 where c: "map_check K g h flags ty b (rounded_size r sz) L e2 = Inr (ret, va', L', e')"
    using run ret assms(1,2)
    by (auto simp: gdr_map_v2_def memh_at_def gdr_at_def split: if_splits option.splits)
  then have "\<exists>st e3. map_undo K st b (rounded_size r sz) L e3 = Inr (ret, va', L', e')"
    using ret unfolding map_check_def by (auto split: if_splits) metis+
  then obtain st e3 where u: "map_undo K st b (rounded_size r sz) L e3 = Inr (ret, va', L', e')"
    by blast
  then have "b = a" using ret by (auto simp: map_undo_def split: if_splits)
  with map_undo_kernel [OF u] ret show ?thesis by blast
qed

text \<open>
  C30. Every outcome of \<open>gdr_map_v2\<close>: a mapped handle gives EAGAIN and an unknown flag EINVAL without
  asking the kernel anything; a call that does not return 0 leaves the library's state as it was,
  and if it had obtained a mapping it has unmapped exactly that; a call that changes the state
  returned 0, recorded the type the driver reports for the handle, which is the type asked for
  if one was, and counted it.
\<close>

theorem map_v2_outcome:
  assumes "memhs L h = Some m" and "gdrs L g = Some r"
    and run: "gdr_map_v2 K g h sz flags L e = Inr (ret, va', L', e')"
  shows "(gdr_is_mapped (mh_mapping_type m) \<longrightarrow> ret = EAGAIN \<and> va' = None \<and> L' = L \<and> e' = e) \<and>
    (\<not> gdr_is_mapped (mh_mapping_type m) \<and> mapping_type_of_flags flags = None \<longrightarrow>
      ret = EINVAL \<and> va' = None \<and> L' = L \<and> e' = e) \<and>
    (L' \<noteq> L \<longrightarrow> ret = 0 \<and> map_adds flags h L L') \<and>
    (ret \<noteq> 0 \<and> va' = Some a \<and> a \<noteq> 0 \<longrightarrow>
      (\<exists>e2 rc err. sys_munmap K a (rounded_size r sz) e2 = Inr (rc, err, e')))"
proof (intro conjI)
  show "gdr_is_mapped (mh_mapping_type m) \<longrightarrow> ret = EAGAIN \<and> va' = None \<and> L' = L \<and> e' = e"
    "\<not> gdr_is_mapped (mh_mapping_type m) \<and> mapping_type_of_flags flags = None \<longrightarrow>
      ret = EINVAL \<and> va' = None \<and> L' = L \<and> e' = e"
    using run assms(1) by (auto simp: gdr_map_v2_def memh_at_def)
  show "L' \<noteq> L \<longrightarrow> ret = 0 \<and> map_adds flags h L L'"
    using map_state [OF run] by blast
  show "ret \<noteq> 0 \<and> va' = Some a \<and> a \<noteq> 0 \<longrightarrow>
      (\<exists>e2 rc err. sys_munmap K a (rounded_size r sz) e2 = Inr (rc, err, e'))"
    using map_v2_undone [OF assms] by blast
qed

theorem map_v2_outcome_witness:
  "gdr_map_v2 ex_os 1 2 0x10000 0 api_mapped2 2 = Inr (EAGAIN, None, api_mapped2, 2)"
proof -
  have g: "gdrs api_mapped2 1 = Some (ex_gdr [3, 2])" by code_simp
  obtain ret va' L' e' where r: "gdr_map_v2 ex_os 1 2 0x10000 0 api_mapped2 2 = Inr (ret, va', L', e')"
    using api_mapped2_memhs(1)
    by (simp add: gdr_map_v2_def memh_at_def ex_memh_def gdr_is_mapped_def mapping_types)
  show ?thesis
    using map_v2_outcome [OF api_mapped2_memhs(1) g r] r
    by (simp add: ex_memh_def gdr_is_mapped_def mapping_types)
qed

text \<open>\<open>munmap\<close> sets \<open>errno\<close> when it fails.\<close>

definition munmap_doc :: "'d os \<Rightarrow> bool" where
  "munmap_doc K \<longleftrightarrow> (\<forall>a n e e'. sys_munmap K a n e \<noteq> Inr (-1, 0, e'))"

text \<open>
  C31. Unmapping undoes mapping: after a successful \<open>gdr_map_v2\<close> that recorded a mapping, a
  successful \<open>gdr_unmap\<close> of the same handle restores the library's state, counters included.
\<close>

theorem unmap_undoes_map:
  assumes "gdr_map_v2 K g h sz flags L e = Inr (0, Some a, L1, e1)" and "L1 \<noteq> L"
    and "memhs L h = Some m" and "mh_mapping_type m = GDR_MAPPING_TYPE_NONE"
    and "gdr_unmap K g h a' sz' L1 e2 = Inr (0, L2, e3)" and "munmap_doc K"
  shows "L2 = L"
proof -
  have "map_adds flags h L L1" using map_state [OF assms(1)] assms(2) by blast
  then obtain ty where ty: "gdr_is_mapped ty"
    and L1: "add_counter ty 1 (L\<lparr>memhs := (memhs L)(h \<mapsto> m\<lparr>mh_mapping_type := ty\<rparr>)\<rparr>) = Inr L1"
    using assms(3) by (auto simp: map_adds_def)
  let ?ns = "gdr_mapping_type_counters L"
  have f: "unat ty < length ?ns" "memhs L1 = (memhs L)(h \<mapsto> m\<lparr>mh_mapping_type := ty\<rparr>)"
      "gdr_mapping_type_counters L1 = ?ns[unat ty := ?ns ! unat ty + 1]"
      "L1 = L\<lparr>memhs := memhs L1, gdr_mapping_type_counters := gdr_mapping_type_counters L1\<rparr>"
    using L1 by (auto simp: add_counter_Inr)
  have "\<exists>L1'. add_counter ty (-1) L1 = Inr L1' \<and>
      L2 = L1'\<lparr>memhs := (memhs L1')(h \<mapsto> m\<lparr>mh_mapping_type := GDR_MAPPING_TYPE_NONE\<rparr>)\<rparr>"
    using assms(5,6) ty f(2)
    by (auto simp: gdr_unmap_def memh_at_def munmap_doc_def split: if_splits)
  then have "L2 = L1\<lparr>gdr_mapping_type_counters := (gdr_mapping_type_counters L1)
        [unat ty := gdr_mapping_type_counters L1 ! unat ty - 1],
      memhs := (memhs L1)(h \<mapsto> m\<lparr>mh_mapping_type := GDR_MAPPING_TYPE_NONE\<rparr>)\<rparr>"
    by (auto simp: add_counter_Inr)
  moreover have "m\<lparr>mh_mapping_type := GDR_MAPPING_TYPE_NONE\<rparr> = m" using assms(4) by simp
  moreover have "(memhs L1)(h \<mapsto> m) = memhs L" using f(2) assms(3) by (auto simp: fun_upd_idem)
  moreover have "(gdr_mapping_type_counters L1)[unat ty := gdr_mapping_type_counters L1 ! unat ty - 1] = ?ns"
    using f(1,3) by simp
  ultimately show ?thesis by (subst (asm) f(4)) simp
qed

theorem unmap_undoes_map_witness:
  "\<exists>L2 e3. gdr_unmap ex_os 1 2 0x7f0000000000 0x10000 api_mapped 2 = Inr (0, L2, e3) \<and> L2 = api_pinned2"
proof -
  have L1: "gdr_map_v2 ex_os 1 2 0x10000 0 api_pinned2 2 = Inr (0, Some 0x7f0000000000, api_mapped, 2)"
  proof -
    have "case gdr_map_v2 ex_os 1 2 0x10000 0 api_pinned2 2 of
        Inr (r, a, _, e) \<Rightarrow> r = 0 \<and> a = Some 0x7f0000000000 \<and> e = 2 | Inl _ \<Rightarrow> False" by code_simp
    then show ?thesis by (auto simp: api_mapped_def lib_of_def split: sum.splits)
  qed
  have m: "memhs api_pinned2 2 = Some (ex_memh 0 0)" "memhs api_mapped 2 = Some (ex_memh 0 1)"
    by code_simp+
  have "case gdr_unmap ex_os 1 2 0x7f0000000000 0x10000 api_mapped 2 of
      Inr (r, _, _) \<Rightarrow> r = 0 | Inl _ \<Rightarrow> False" by code_simp
  then obtain L2 e3 where L2: "gdr_unmap ex_os 1 2 0x7f0000000000 0x10000 api_mapped 2 = Inr (0, L2, e3)"
    by (auto split: sum.splits)
  have "munmap_doc ex_os" by (simp add: munmap_doc_def ex_os_def)
  moreover have "api_mapped \<noteq> api_pinned2" using m by (auto simp: ex_memh_def)
  ultimately have "L2 = api_pinned2"
    using unmap_undoes_map [OF L1 _ m(1) _ L2] by (simp add: ex_memh_def mapping_types)
  with L2 show ?thesis by blast
qed

text \<open>
  The size the library maps is the size asked for rounded up to whole pages, as long as that
  fits the address space; a size within a page of \<open>2 ^ 64\<close> wraps around to zero.
\<close>

lemma rounded_size_bounds:
  assumes "page_gdr k r"
  shows "(unat sz + 2 ^ k \<le> 2 ^ 64 \<longrightarrow> unat sz \<le> unat (rounded_size r sz) \<and>
      unat (rounded_size r sz) < unat sz + 2 ^ k \<and> 2 ^ k dvd unat (rounded_size r sz)) \<and>
    (2 ^ 64 < unat sz + 2 ^ k \<longrightarrow> rounded_size r sz = 0)"
proof
  let ?P = "2 ^ k :: nat"
  have P: "0 < ?P" by simp
  show "unat sz + 2 ^ k \<le> 2 ^ 64 \<longrightarrow> unat sz \<le> unat (rounded_size r sz) \<and>
      unat (rounded_size r sz) < unat sz + 2 ^ k \<and> 2 ^ k dvd unat (rounded_size r sz)"
  proof
    assume le: "unat sz + 2 ^ k \<le> 2 ^ 64"
    have "unat (rounded_size r sz) = (unat sz + ?P - 1) - (unat sz + ?P - 1) mod ?P"
      unfolding rounded_size_unat [OF assms le] by (simp add: minus_mod_eq_div_mult)
    moreover have "(unat sz + ?P - 1) mod ?P < ?P" using P by (rule mod_less_divisor)
    moreover have "?P dvd unat (rounded_size r sz)"
      unfolding rounded_size_unat [OF assms le] by simp
    ultimately show "unat sz \<le> unat (rounded_size r sz) \<and> unat (rounded_size r sz) < unat sz + 2 ^ k \<and>
        2 ^ k dvd unat (rounded_size r sz)"
      using P by linarith
  qed
  show "2 ^ 64 < unat sz + 2 ^ k \<longrightarrow> rounded_size r sz = 0"
  proof
    assume big: "2 ^ 64 < unat sz + 2 ^ k"
    have k: "k < 64" and r: "g_page_size r = 2 ^ k" "g_page_mask r = NOT (2 ^ k - 1)"
      using assms by (auto simp: page_gdr_def)
    have "(1 :: u64) \<le> 2 ^ k" using unat_exp64 [OF k] by (simp add: word_le_nat_alt)
    then have u: "unat ((2 :: u64) ^ k - 1) = ?P - 1" using unat_exp64 [OF k] by (simp add: unat_sub)
    have "unat (sz + (2 ^ k - 1)) = unat sz + (?P - 1) - 2 ^ 64"
      using big P u unat_less64 [of sz] power_strict_increasing [OF k, of "2 :: nat"]
      by (simp add: unat_plus_if')
    moreover have "unat sz + (?P - 1) - 2 ^ 64 < ?P" using unat_less64 [of sz] P by linarith
    ultimately have "unat (sz + 2 ^ k - 1) < ?P" by (simp only: add_diff_eq)
    then have "unat (rounded_size r sz) = 0"
      unfolding rounded_size_def r unat_and_not_low by simp
    then show "rounded_size r sz = 0" by (simp add: unat_eq_zero)
  qed
qed

lemma ex_gdr_page: "page_gdr 12 (ex_gdr hs)"
  by (simp add: page_gdr_def ex_gdr_def)

lemma rounded_size_example:
  "rounded_size (ex_gdr []) 0xfffffffffffffff0 = 0 \<and> 0x2345 \<le> unat (rounded_size (ex_gdr []) 0x2345) \<and>
   0x1000 dvd unat (rounded_size (ex_gdr []) 0x2345)"
  using rounded_size_bounds [OF ex_gdr_page, of "0xfffffffffffffff0" "[]"]
    rounded_size_bounds [OF ex_gdr_page, of "0x2345" "[]"] by simp

section \<open>Opening\<close>

lemma open_page:
  assumes "sys_pagesize K = 2 ^ k" and "k < 32" and run: "gdr_open ar K L e = Inr (Some g, L', e')"
  shows "\<exists>r. gdrs L' g = Some r \<and> page_gdr k r \<and> g_memhs r = [] \<and> memhs L' = memhs L \<and>
    MINIMUM_GDRDRV_VERSION \<le> g_gdrdrv_version r \<and>
    (\<forall>mh. drop_bit k (magic_off r mh) = ucast (mh_handle mh))"
proof -
  obtain r where r: "gdrs L' g = Some r" "g_memhs r = []" "memhs L' = memhs L"
      "g_page_size r = 2 ^ k" "g_page_mask r = NOT (2 ^ k - 1)"
      "g_page_shift r = page_shift_loop (2 ^ k) (-1)" "MINIMUM_GDRDRV_VERSION \<le> g_gdrdrv_version r"
    using run assms(1)
    by (auto simp: gdr_open_def open_fail_def Let_def split: option.splits if_splits)
  have "g_page_shift r = of_nat k"
    using page_shift_exp [of k "-1"] assms(2) r(6) by simp
  moreover have "unat (of_nat k :: u8) = k"
    using assms(2) by (simp add: unsigned_of_nat take_bit_nat_eq_self)
  ultimately have "page_gdr k r" using r assms(2) by (simp add: page_gdr_def)
  with r magic_off_handle show ?thesis by blast
qed

text \<open>
  C32. A library object that \<open>gdr_open\<close> returns is initialised for the machine's page size: shift,
  size and mask agree, the driver's version is one the library accepts, no handle is on its list,
  and the offset the library passes to mmap for a handle is, in pages, that handle.
\<close>

theorem open_initialises:
  assumes "sys_pagesize K = 2 ^ k" and "k < 32" and run: "gdr_open ar K L e = Inr (Some g, L', e')"
  shows "\<exists>r. gdrs L' g = Some r \<and> page_gdr k r \<and> g_memhs r = [] \<and> memhs L' = memhs L \<and>
    MINIMUM_GDRDRV_VERSION \<le> g_gdrdrv_version r \<and>
    (\<forall>mh. drop_bit k (magic_off r mh) = ucast (mh_handle mh))"
  by (rule open_page [OF assms])

theorem open_initialises_witness:
  "\<exists>r. gdrs api_opened 1 = Some r \<and> page_gdr 12 r"
proof -
  have "case gdr_open X86 ex_os lib_static 0 of Inr (gp, _, _) \<Rightarrow> gp = Some 1 | Inl _ \<Rightarrow> False" by code_simp
  then obtain e' where "gdr_open X86 ex_os lib_static 0 = Inr (Some 1, api_opened, e')"
    by (auto simp: api_opened_def split: sum.splits)
  from open_initialises [OF _ _ this, of 12] show ?thesis by (auto simp: ex_os_def)
qed

section \<open>Errors\<close>

text \<open>
  When the driver does not know an attribute, \<open>ioctl\<close> returns -1 and sets \<open>errno\<close> to EINVAL;
  \<open>gdr_get_attribute\<close> then fails with EINVAL and writes nothing, instead of reporting the value
  0: the test for this case compares the result of \<open>ioctl\<close> with \<open>-EINVAL\<close>.
\<close>

lemma unknown_attribute_fails:
  assumes "gdrs L g = Some r" and "GDRDRV_MINIMUM_VERSION_WITH_GET_ATTR \<le> g_gdrdrv_version r"
    and "attr = GDR_ATTR_USE_PERSISTENT_MAPPING \<or> attr = GDR_ATTR_SUPPORT_PIN_FLAG_FORCE_PCIE"
    and "\<forall>u. sys_ioctl K (g_fd r) GDRDRV_IOC_GET_ATTR u e = Inr (-1, EINVAL, NoOut, e1)"
  shows "gdr_get_attribute K g attr L e = Inr (EINVAL, None, e1)"
  using assms
  by (auto simp: gdr_get_attribute_def gdr_at_def Let_def EINVAL_def GDR_ATTR_USE_PERSISTENT_MAPPING_def
      GDR_ATTR_SUPPORT_PIN_FLAG_FORCE_PCIE_def)

lemma unknown_attribute_example:
  "gdr_get_attribute ex_os 1 2 (lib_static\<lparr>gdrs := [1 \<mapsto> ex_gdr []]\<rparr>) 7 = Inr (EINVAL, None, 7)"
  by (rule unknown_attribute_fails [where r = "ex_gdr []"])
    (simp_all add: ex_gdr_def ex_os_def ex_ioctl_def ioc_defs api_versions GDRDRV_VERSION_def
      GDR_ATTR_SUPPORT_PIN_FLAG_FORCE_PCIE_def)

text \<open>
  \<open>gdr_close\<close> stops at the first unpin that fails: it returns that error, the object and its
  descriptor stay open, and the handles behind the failing one stay allocated and on the list.
\<close>

lemma close_stops_at_error:
  assumes "lib_inv L" and "gdrs L g = Some r" and "g_memhs r = h # hs"
    and "gdr_unpin_buffer K g h L e = Inr (ret, L1, e1)" and "ret \<noteq> 0"
  shows "gdr_close K g L e = Inr (ret, L1, e1) \<and> gdrs L1 g = Some (r\<lparr>g_memhs := hs\<rparr>) \<and>
    memhs L1 = (memhs L)(h := None) \<and> set hs \<subseteq> dom (memhs L1)"
proof -
  have L1: "gdrs L1 = gdrs (list_remove h L)" "memhs L1 = (memhs L)(h := None)"
    using assms(4) by (auto simp: gdr_unpin_buffer_def Let_def list_remove_def)
  have "distinct (g_memhs r) \<and> set (g_memhs r) \<subseteq> dom (memhs L)"
    using assms(1,2) unfolding lib_inv_def lists_ok_def by metis
  then have "h \<notin> set hs" "set hs \<subseteq> dom (memhs L)" by (simp_all add: assms(3))
  then have "set hs \<subseteq> dom (memhs L1)" by (auto simp: L1)
  moreover have "gdr_close K g L e = Inr (ret, L1, e1)"
    using assms(2-5) by (simp add: gdr_close_def gdr_at_def)
  ultimately show ?thesis
    using assms(2,3) L1 by (simp add: list_remove_def)
qed

text \<open>The small kernel refusing to unpin.\<close>

definition ex_os_busy :: "u64 os" where
  "ex_os_busy = ex_os\<lparr>sys_ioctl := (\<lambda>_ _ _ n. Inr (-1, EINVAL, NoOut, n))\<rparr>"

lemma close_stops_example:
  "\<exists>L1. gdr_close ex_os_busy 1 api_pinned2 2 = Inr (EINVAL, L1, 2) \<and> memhs L1 2 \<noteq> None"
proof -
  have inv: "lib_inv api_pinned2"
    using api_reach_inv [OF api_reach_pinned2 ex_calloc_doc] by (simp add: api_inv_def)
  have g: "gdrs api_pinned2 1 = Some (ex_gdr [3, 2])" by code_simp
  have "memhs api_pinned2 3 = Some (ex_memh 1 0)" by code_simp
  then obtain L1 where u: "gdr_unpin_buffer ex_os_busy 1 3 api_pinned2 2 = Inr (EINVAL, L1, 2)"
    using g by (simp add: gdr_unpin_buffer_def memh_at_def gdr_at_def ex_os_busy_def Let_def)
  from close_stops_at_error [OF inv g _ u] show ?thesis
    by (auto simp: ex_gdr_def EINVAL_def u)
qed

end
