(* ===== verification/Api_Typed.thy ===== *)
theory Api_Typed
  imports Api_Correct
begin

text \<open>
  What holds of every object of the library whatever calls have been made: the fields that
  \<open>gdr_open\<close> sets from the page size and the driver's version never change, and with the lists and
  counters of \<open>Api_Lib\<close> they make up the well-formedness of the library's state.
\<close>

text \<open>Objects of \<open>L'\<close> are objects of \<open>L\<close> up to their lists.\<close>

definition keeps_gdrs :: "lib \<Rightarrow> lib \<Rightarrow> bool" where
  "keeps_gdrs L L' \<longleftrightarrow> (\<forall>g r'. gdrs L' g = Some r' \<longrightarrow>
     (\<exists>r xs. gdrs L g = Some r \<and> r' = r\<lparr>g_memhs := xs\<rparr>))"

lemma memhs_update_self [simp]: "\<exists>xs. r = r\<lparr>g_memhs := xs\<rparr>"
  by (rule exI [of _ "g_memhs r"]) simp

lemma keeps_same: "gdrs L' = gdrs L \<Longrightarrow> keeps_gdrs L L'"
  unfolding keeps_gdrs_def by (metis gdr.surjective gdr.update_convs(2))

lemma keeps_trans: "keeps_gdrs L L1 \<Longrightarrow> keeps_gdrs L1 L2 \<Longrightarrow> keeps_gdrs L L2"
  unfolding keeps_gdrs_def by fastforce

lemma keeps_list_remove: "keeps_gdrs L (list_remove h L\<lparr>memhs := M\<rparr>)"
  by (auto simp: keeps_gdrs_def list_remove_def)

lemma keeps_add_memh: "gdrs L g = Some r \<Longrightarrow> keeps_gdrs L (add_memh g r p hnd L)"
  by (auto simp: keeps_gdrs_def add_memh_def)

lemma keeps_unpin:
  assumes "gdr_unpin_buffer K g h L e = Inr (ret, L', e')"
  shows "keeps_gdrs L L'"
proof -
  have "L' = list_remove h L\<lparr>memhs := (memhs L)(h := None)\<rparr>"
    using assms by (auto simp: gdr_unpin_buffer_def Let_def list_remove_def)
  then show ?thesis by (simp add: keeps_list_remove)
qed

lemma keeps_close_loop: "gdr_close_loop K g hs L e = Inr (ret, L', e') \<Longrightarrow> keeps_gdrs L L'"
proof (induction hs arbitrary: L e)
  case (Cons h hs)
  then obtain ret1 L1 e1 where u: "gdr_unpin_buffer K g h L e = Inr (ret1, L1, e1)"
    and "L' = L1 \<or> gdr_close_loop K g hs L1 e1 = Inr (ret, L', e')"
    by (auto split: if_splits)
  then show ?case using keeps_unpin [OF u] Cons.IH keeps_trans by blast
qed (simp add: keeps_same)

lemma keeps_close:
  assumes "gdr_close K g L e = Inr (ret, L', e')"
  shows "keeps_gdrs L L'"
proof -
  obtain r ret1 L1 e1 where g: "gdrs L g = Some r"
    and loop: "gdr_close_loop K g (g_memhs r) L e = Inr (ret1, L1, e1)"
    using assms by (auto simp: gdr_close_def)
  have "L' = L1 \<or> L' = L1\<lparr>gdrs := (gdrs L1)(g := None)\<rparr>"
    using assms g loop by (auto simp: gdr_close_def gdr_at_def split: if_splits)
  then show ?thesis using keeps_close_loop [OF loop] by (elim disjE) (simp_all add: keeps_gdrs_def)
qed

lemma keeps_pin: "L' = L \<or> pin_adds K g L L' \<Longrightarrow> keeps_gdrs L L'"
  by (auto simp: pin_adds_def keeps_add_memh keeps_same)

lemma keeps_map: "gdr_map_v2 K g h sz flags L e = Inr (ret, a, L', e') \<Longrightarrow> keeps_gdrs L L'"
  by (drule map_state) (auto simp: map_adds_def add_counter_Inr keeps_same)

lemma keeps_unmap: "gdr_unmap K g h a sz L e = Inr (ret, L', e') \<Longrightarrow> keeps_gdrs L L'"
  by (auto simp: gdr_unmap_def add_counter_Inr keeps_same split: if_splits)

text \<open>The page fields and the version of every object.\<close>

definition gdrs_typed :: "nat \<Rightarrow> lib \<Rightarrow> bool" where
  "gdrs_typed k L \<longleftrightarrow>
     (\<forall>g r. gdrs L g = Some r \<longrightarrow> page_gdr k r \<and> MINIMUM_GDRDRV_VERSION \<le> g_gdrdrv_version r)"

lemma page_gdr_memhs [simp]: "page_gdr k (r\<lparr>g_memhs := xs\<rparr>) = page_gdr k r"
  by (simp add: page_gdr_def)

lemma gdrs_typed_keeps:
  assumes "gdrs_typed k L" and "keeps_gdrs L L'"
  shows "gdrs_typed k L'"
  unfolding gdrs_typed_def
proof (intro allI impI)
  fix g r' assume "gdrs L' g = Some r'"
  then obtain r xs where "gdrs L g = Some r" and r': "r' = r\<lparr>g_memhs := xs\<rparr>"
    using assms(2) unfolding keeps_gdrs_def by blast
  then have "page_gdr k r \<and> MINIMUM_GDRDRV_VERSION \<le> g_gdrdrv_version r"
    using assms(1) unfolding gdrs_typed_def by blast
  then show "page_gdr k r' \<and> MINIMUM_GDRDRV_VERSION \<le> g_gdrdrv_version r'"
    by (simp add: r')
qed

lemma gdrs_typed_open:
  assumes k: "sys_pagesize K = 2 ^ k" "k < 32" and run: "gdr_open ar K L e = Inr (gp, L', e')"
    and typed: "gdrs_typed k L"
  shows "gdrs_typed k L'"
proof (cases gp)
  case None
  then have "gdrs L' = gdrs L"
    using run by (auto simp: gdr_open_def open_fail_def Let_def split: option.splits if_splits)
  then show ?thesis using typed by (simp add: gdrs_typed_def)
next
  case (Some g)
  obtain r where r: "gdrs L' g = Some r" "page_gdr k r" "MINIMUM_GDRDRV_VERSION \<le> g_gdrdrv_version r"
    using open_page [OF k run [unfolded Some]] by blast
  have "gdrs L' = (gdrs L)(g := gdrs L' g)"
    using run Some by (auto simp: gdr_open_def open_fail_def Let_def split: option.splits if_splits)
  then show ?thesis using typed r unfolding gdrs_typed_def by (metis fun_upd_apply option.inject)
qed

lemma gdrs_typed_step:
  assumes "api_step ar K a b" and "sys_pagesize K = 2 ^ k" and "k < 32" and "gdrs_typed k (fst a)"
  shows "gdrs_typed k (fst b)"
  using assms
  by (cases rule: api_step.cases)
    (auto intro: gdrs_typed_open gdrs_typed_keeps [OF _ keeps_close] gdrs_typed_keeps [OF _ keeps_unpin]
      gdrs_typed_keeps [OF _ keeps_map] gdrs_typed_keeps [OF _ keeps_unmap]
      gdrs_typed_keeps [OF _ keeps_pin [OF pin_state]] gdrs_typed_keeps [OF _ keeps_pin [OF pin_v2_state]])

lemma gdrs_typed_reach:
  assumes "api_reach ar K L" and "sys_pagesize K = 2 ^ k" and "k < 32"
  shows "gdrs_typed k L"
proof -
  obtain e0 e where steps: "(api_step ar K)\<^sup>*\<^sup>* (lib_static, e0) (L, e)"
    using assms(1) by (auto simp: api_reach_def)
  have "gdrs_typed k (fst b)" if "(api_step ar K)\<^sup>*\<^sup>* (lib_static, e0) b" for b
    using that
  proof (induction rule: rtranclp_induct)
    case base
    show ?case by (simp add: gdrs_typed_def lib_static_def)
  next
    case (step b c)
    then show ?case using gdrs_typed_step [OF _ assms(2,3)] by blast
  qed
  from this [OF steps] show ?thesis by simp
qed

text \<open>
  C28. The library's state is well formed after any sequence of calls and of steps of the kernel: every
  object has the machine's page size with mask and shift to match and a driver version the library
  accepts, its list names live handle objects without repetition, every handle object carries one of
  the four mapping types, and there is one counter for each type.
\<close>

theorem library_state_typed:
  assumes "api_reach ar K L" and "calloc_doc K" and "sys_pagesize K = 2 ^ k" and "k < 32"
  shows "(\<forall>g r. gdrs L g = Some r \<longrightarrow> page_gdr k r \<and> MINIMUM_GDRDRV_VERSION \<le> g_gdrdrv_version r \<and>
      distinct (g_memhs r) \<and> set (g_memhs r) \<subseteq> dom (memhs L)) \<and>
    (\<forall>h m. memhs L h = Some m \<longrightarrow> unat (mh_mapping_type m) < GDR_MAPPING_TYPE_MAX) \<and>
    length (gdr_mapping_type_counters L) = GDR_MAPPING_TYPE_MAX"
  using api_reach_inv [OF assms(1,2)] gdrs_typed_reach [OF assms(1,3,4)]
  unfolding api_inv_def lib_inv_def lists_ok_def counters_ok_def gdrs_typed_def by blast

theorem library_state_typed_witness:
  "gdrs api_mapped2 1 = Some (ex_gdr [3, 2]) \<and> page_gdr 12 (ex_gdr [3, 2]) \<and>
    {3, 2} \<subseteq> dom (memhs api_mapped2) \<and> length (gdr_mapping_type_counters api_mapped2) = GDR_MAPPING_TYPE_MAX"
proof -
  have g: "gdrs api_mapped2 1 = Some (ex_gdr [3, 2])" by code_simp
  have "sys_pagesize ex_os = 2 ^ 12" by (simp add: ex_os_def)
  from library_state_typed [OF api_reach_mapped2 ex_calloc_doc this]
  have "page_gdr 12 (ex_gdr [3, 2]) \<and> set (g_memhs (ex_gdr [3, 2])) \<subseteq> dom (memhs api_mapped2) \<and>
      length (gdr_mapping_type_counters api_mapped2) = GDR_MAPPING_TYPE_MAX"
    using g by simp
  then show ?thesis using g by (simp add: ex_gdr_def)
qed

end
