(* ===== verification/Api_Contract.thy ===== *)
theory Api_Contract
  imports Api_Lib
begin

text \<open>
  The interface between the library and the driver: what the library relies on when it opens,
  pins, unpins and closes, as a locale, and what the library then achieves. The driver shows,
  per open descriptor, the handles of its live regions, newest first; the library's list of
  handles mirrors that list.
\<close>

section \<open>The simulation relation\<close>

text \<open>The driver handles that the objects on a list carry.\<close>

definition listed_handles :: "lib \<Rightarrow> nat list \<Rightarrow> u64 list" where
  "listed_handles L hs = map (\<lambda>h. ucast (mh_handle (the (memhs L h)))) hs"

definition lib_sim :: "('d \<Rightarrow> int \<Rightarrow> u64 list option) \<Rightarrow> lib \<Rightarrow> 'd \<Rightarrow> bool" where
  "lib_sim handles L e \<longleftrightarrow> lib_inv L \<and>
     (\<forall>g r. gdrs L g = Some r \<longrightarrow> handles e (g_fd r) = Some (listed_handles L (g_memhs r))) \<and>
     (\<forall>g g' r r'. gdrs L g = Some r \<longrightarrow> gdrs L g' = Some r' \<longrightarrow> g_fd r = g_fd r' \<longrightarrow> g = g')"

lemma lib_sim_handles:
  "lib_sim handles L e \<Longrightarrow> gdrs L g = Some r \<Longrightarrow>
     handles e (g_fd r) = Some (listed_handles L (g_memhs r))"
  by (simp add: lib_sim_def)

lemma lib_sim_listed:
  assumes "lib_sim handles L e" and "gdrs L g = Some r" and "h \<in> set (g_memhs r)"
  shows "\<exists>m. memhs L h = Some m"
proof -
  have "set (g_memhs r) \<subseteq> dom (memhs L)"
    using assms(1,2) unfolding lib_sim_def lib_inv_def lists_ok_def by metis
  with assms(3) show ?thesis by blast
qed

lemma listed_handles_cong:
  "(\<And>h. h \<in> set hs \<Longrightarrow> memhs L' h = memhs L h) \<Longrightarrow> listed_handles L' hs = listed_handles L hs"
  by (simp add: listed_handles_def)

lemma remove1_map_inj:
  "distinct (map f xs) \<Longrightarrow> x \<in> set xs \<Longrightarrow> map f (remove1 x xs) = remove1 (f x) (map f xs)"
  by (induction xs) (auto simp: image_iff)

lemma ucast_back: "unat (hnd :: u64) < 2 ^ 32 \<Longrightarrow> ucast (ucast hnd :: u32) = hnd"
  unfolding word_unat_eq_iff by (simp add: unsigned_ucast_eq unsigned_take_bit_eq take_bit_nat_eq_self)

text \<open>A new handle at the head of both lists.\<close>

lemma add_memh_sim:
  assumes sim: "lib_sim handles L e" and g: "gdrs L g = Some r" and fresh: "memhs L p = None"
    and h: "handles e' = (handles e)(g_fd r \<mapsto> hnd # listed_handles L (g_memhs r))"
    and small: "unat hnd < 2 ^ 32"
  shows "lib_sim handles (add_memh g r p hnd L) e'"
proof -
  let ?L' = "add_memh g r p hnd L"
  have inv: "lib_inv ?L'" using add_memh_inv sim fresh g by (simp add: lib_sim_def)
  have old: "listed_handles ?L' (g_memhs r') = listed_handles L (g_memhs r')"
    if "gdrs L g' = Some r'" for g' r'
  proof (rule listed_handles_cong)
    fix h assume "h \<in> set (g_memhs r')"
    then have "h \<noteq> p" using lib_sim_listed [OF sim that, of h] fresh by auto
    then show "memhs ?L' h = memhs L h" by (simp add: add_memh_def)
  qed
  have new: "listed_handles ?L' (p # g_memhs r) = hnd # listed_handles L (g_memhs r)"
    using old [OF g] ucast_back [OF small] by (simp add: listed_handles_def add_memh_def)
  have "handles e' (g_fd r') = Some (listed_handles ?L' (g_memhs r'))"
    if r': "gdrs ?L' g' = Some r'" for g' r'
  proof (cases "g' = g")
    case True
    then have "r' = r\<lparr>g_memhs := p # g_memhs r\<rparr>" using r' by (simp add: add_memh_def)
    then show ?thesis using h new by simp
  next
    case False
    then have r0: "gdrs L g' = Some r'" using r' by (simp add: add_memh_def)
    then have "g_fd r' \<noteq> g_fd r" using sim g False unfolding lib_sim_def by metis
    then show ?thesis using h old [OF r0] lib_sim_handles [OF sim r0] by simp
  qed
  moreover have "g1 = g2" if "gdrs ?L' g1 = Some r1" "gdrs ?L' g2 = Some r2" "g_fd r1 = g_fd r2"
    for g1 g2 r1 r2
  proof -
    have old_fd: "\<exists>q. gdrs L g' = Some q \<and> g_fd q = g_fd q'" if "gdrs ?L' g' = Some q'" for g' q'
      using that g by (auto simp: add_memh_def split: if_splits)
    show ?thesis using old_fd [OF that(1)] old_fd [OF that(2)] that(3) sim unfolding lib_sim_def by metis
  qed
  ultimately show ?thesis using inv unfolding lib_sim_def by blast
qed

text \<open>A handle taken off both lists.\<close>

lemma free_memh_sim:
  assumes sim: "lib_sim handles L e" and g: "gdrs L g = Some r" and h: "h \<in> set (g_memhs r)"
    and dist: "distinct (listed_handles L (g_memhs r))"
    and e': "handles e' = (handles e)(g_fd r \<mapsto>
      remove1 (ucast (mh_handle (the (memhs L h)))) (listed_handles L (g_memhs r)))"
  shows "lib_sim handles (list_remove h L\<lparr>memhs := (memhs L)(h := None)\<rparr>) e'" (is "lib_sim handles ?L' e'")
proof -
  have inv: "lib_inv ?L'" using free_memh_inv sim by (simp add: lib_sim_def)
  have ok: "lists_ok L" using sim by (simp add: lib_sim_def lib_inv_def)
  have "handles e' (g_fd r') = Some (listed_handles ?L' (g_memhs r'))"
    if r': "gdrs ?L' g' = Some r'" for g' r'
  proof -
    obtain r0 where r0: "gdrs L g' = Some r0" "g_memhs r' = remove1 h (g_memhs r0)" "g_fd r' = g_fd r0"
      using r' by (auto simp: list_remove_def)
    have d: "distinct (g_memhs r0)" using ok r0(1) unfolding lists_ok_def by metis
    have keep: "listed_handles ?L' (remove1 h (g_memhs r0)) = listed_handles L (remove1 h (g_memhs r0))"
      by (rule listed_handles_cong) (use d in auto)
    show ?thesis
    proof (cases "g' = g")
      case True
      then have "r0 = r" using r0 g by simp
      then show ?thesis
        using r0 keep e' dist h unfolding listed_handles_def by (simp add: remove1_map_inj)
    next
      case False
      then have "g_fd r0 \<noteq> g_fd r" "h \<notin> set (g_memhs r0)"
        using sim g h r0(1) ok unfolding lib_sim_def lists_ok_def by (metis, metis disjoint_iff)
      then show ?thesis using r0 keep e' lib_sim_handles [OF sim r0(1)] by (simp add: remove1_idem)
    qed
  qed
  moreover have "g1 = g2" if "gdrs ?L' g1 = Some r1" "gdrs ?L' g2 = Some r2" "g_fd r1 = g_fd r2"
    for g1 g2 r1 r2
  proof -
    have old_fd: "\<exists>q. gdrs L g' = Some q \<and> g_fd q = g_fd q'" if "gdrs ?L' g' = Some q'" for g' q'
      using that by (auto simp: list_remove_def)
    show ?thesis using old_fd [OF that(1)] old_fd [OF that(2)] that(3) sim unfolding lib_sim_def by metis
  qed
  ultimately show ?thesis using inv unfolding lib_sim_def by blast
qed

text \<open>A new object with a descriptor of its own and no handle.\<close>

lemma new_gdr_sim:
  assumes sim: "lib_sim handles L e" and L1: "memhs L1 = memhs L" "gdrs L1 = gdrs L"
      "gdr_mapping_type_counters L1 = gdr_mapping_type_counters L"
    and r: "g_fd r = fd" "g_memhs r = []"
    and h: "handles e fd = None" "handles e1 = (handles e)(fd \<mapsto> [])"
  shows "lib_sim handles (L1\<lparr>gdrs := (gdrs L1)(g \<mapsto> r)\<rparr>) e1"
proof -
  let ?L' = "L1\<lparr>gdrs := (gdrs L1)(g \<mapsto> r)\<rparr>"
  have fd: "g_fd r' \<noteq> fd" if "gdrs L g' = Some r'" for g' r'
    using lib_sim_handles [OF sim that] h(1) by auto
  have "lists_ok ?L'" using sim r(2) unfolding lib_sim_def lib_inv_def lists_ok_def L1
    by (auto simp: L1)
  moreover have "counters_ok ?L'"
    by (rule counters_ok_cong [of L]) (use sim L1 in \<open>auto simp: lib_sim_def lib_inv_def\<close>)
  moreover have "g1 = g2" if "gdrs ?L' g1 = Some r1" "gdrs ?L' g2 = Some r2" "g_fd r1 = g_fd r2"
    for g1 g2 r1 r2
    using that sim fd r(1) unfolding lib_sim_def by (simp add: L1 split: if_splits)
  moreover have "handles e1 (g_fd r') = Some (listed_handles ?L' (g_memhs r'))"
    if "gdrs ?L' g' = Some r'" for g' r'
    using that sim fd r h(2) unfolding lib_sim_def
    by (auto simp: L1 listed_handles_def split: if_splits)
  ultimately show ?thesis unfolding lib_sim_def lib_inv_def by blast
qed

section \<open>The contract\<close>

locale pin_driver =
  fixes K :: "'d os"
    and inv :: "'d \<Rightarrow> bool"
    and handles :: "'d \<Rightarrow> int \<Rightarrow> u64 list option"
    and pin_ok :: "u64 \<Rightarrow> u32 \<Rightarrow> u32 \<Rightarrow> bool"
  assumes calloc: "calloc_doc K"
    and distinct_handles: "inv e \<Longrightarrow> handles e fd = Some hs \<Longrightarrow> distinct hs"
    and open_law: "inv e \<Longrightarrow> \<exists>fd err e'. sys_open K e = Inr (fd, err, e') \<and> inv e' \<and>
      (fd = -1 \<and> handles e' = handles e \<or>
       fd \<noteq> -1 \<and> handles e fd = None \<and> handles e' = (handles e)(fd \<mapsto> []))"
    and version_law: "inv e \<Longrightarrow> handles e fd \<noteq> None \<Longrightarrow> ua_writable u \<Longrightarrow>
      \<exists>err. sys_ioctl K fd GDRDRV_IOC_GET_VERSION u e = Inr (0, err, OutVersion
        \<lparr>ve_gdrdrv_version = GDRDRV_VERSION, ve_minimum_gdr_api_version = MINIMUM_GDR_API_VERSION\<rparr>, e)"
    and pin_law: "inv e \<Longrightarrow> handles e fd = Some hs \<Longrightarrow> ua_readable u \<Longrightarrow> ua_writable u \<Longrightarrow>
      pin_ok (pb_p2p_token (ua_pin u)) (pb_va_space (ua_pin u)) GDRDRV_PIN_BUFFER_FLAG_DEFAULT \<Longrightarrow>
      \<exists>rc err out e'. sys_ioctl K fd GDRDRV_IOC_PIN_BUFFER u e = Inr (rc, err, out, e') \<and> inv e' \<and>
        (rc \<noteq> 0 \<and> err \<noteq> 0 \<and> handles e' = handles e \<or>
         rc = 0 \<and> handles e' = (handles e)(fd \<mapsto> pb_handle (pin_result u out) # hs))"
    and pin_v2_law: "inv e \<Longrightarrow> handles e fd = Some hs \<Longrightarrow> ua_readable u \<Longrightarrow> ua_writable u \<Longrightarrow>
      pin_ok 0 0 (pv_flags (ua_pin_v2 u)) \<Longrightarrow>
      \<exists>rc err out e'. sys_ioctl K fd GDRDRV_IOC_PIN_BUFFER_V2 u e = Inr (rc, err, out, e') \<and> inv e' \<and>
        (rc \<noteq> 0 \<and> err \<noteq> 0 \<and> handles e' = handles e \<or>
         rc = 0 \<and> handles e' = (handles e)(fd \<mapsto> pv_handle (pin_v2_result u out) # hs))"
    and unpin_law: "inv e \<Longrightarrow> handles e fd = Some hs \<Longrightarrow> ua_readable u \<Longrightarrow> ua_unpin u \<in> set hs \<Longrightarrow>
      \<exists>err out e'. sys_ioctl K fd GDRDRV_IOC_UNPIN_BUFFER u e = Inr (0, err, out, e') \<and> inv e' \<and>
        handles e' = (handles e)(fd \<mapsto> remove1 (ua_unpin u) hs)"
    and close_law: "inv e \<Longrightarrow> handles e fd \<noteq> None \<Longrightarrow>
      \<exists>rc err e'. sys_close K fd e = Inr (rc, err, e') \<and> rc \<noteq> -1 \<and> inv e' \<and>
        handles e' = (handles e)(fd := None)"
begin

text \<open>Opening fails only if memory or the descriptor is refused; the list starts empty.\<close>

lemma open_sim:
  assumes sim: "lib_sim handles L e" and i: "inv e"
  shows "\<exists>gp L' e'. gdr_open ar K L e = Inr (gp, L', e') \<and> lib_sim handles L' e' \<and> inv e' \<and>
    (gp = None \<longrightarrow> L' = L) \<and> (\<forall>g. gp = Some g \<longrightarrow> (\<exists>r. gdrs L' g = Some r \<and> g_memhs r = []))"
proof -
  obtain fd err e1 where o: "sys_open K e = Inr (fd, err, e1)" "inv e1"
      "fd = -1 \<and> handles e1 = handles e \<or>
       fd \<noteq> -1 \<and> handles e fd = None \<and> handles e1 = (handles e)(fd \<mapsto> [])"
    using open_law [OF i] by blast
  show ?thesis
  proof (cases "sys_calloc K L")
    case None
    then show ?thesis using sim i by (simp add: gdr_open_def)
  next
    case (Some g)
    show ?thesis
    proof (cases "fd = -1")
      case True
      then have "lib_sim handles L e1" using sim o(3) by (simp add: lib_sim_def)
      then show ?thesis using Some True o by (simp add: gdr_open_def)
    next
      case False
      then have h: "handles e fd = None" "handles e1 = (handles e)(fd \<mapsto> [])" using o(3) by auto
      obtain err' where v: "sys_ioctl K fd GDRDRV_IOC_GET_VERSION stack_arg e1 = Inr (0, err', OutVersion
          \<lparr>ve_gdrdrv_version = GDRDRV_VERSION, ve_minimum_gdr_api_version = MINIMUM_GDR_API_VERSION\<rparr>, e1)"
        using version_law [OF o(2), of fd stack_arg] h(2) by (auto simp: stack_arg_def)
      have vers: "MINIMUM_GDRDRV_VERSION \<le> GDRDRV_VERSION" "MINIMUM_GDR_API_VERSION \<le> GDR_API_VERSION"
        by (simp_all add: api_versions GDRDRV_VERSION_def MINIMUM_GDR_API_VERSION_def)
      define L1 where "L1 = gdr_init_cpu_flags ar K L"
      obtain r where run: "gdr_open ar K L e = Inr (Some g, L1\<lparr>gdrs := (gdrs L1)(g \<mapsto> r)\<rparr>, e1)"
        and r: "g_fd r = fd" "g_memhs r = []"
        using Some False o(1) v vers
        by (simp add: gdr_open_def version_result_def Let_def not_less [symmetric] L1_def)
      have "lib_sim handles (L1\<lparr>gdrs := (gdrs L1)(g \<mapsto> r)\<rparr>) e1"
        by (rule new_gdr_sim [OF sim _ _ _ r h]) (simp_all add: L1_def)
      then show ?thesis using run o(2) r(2) by auto
    qed
  qed
qed

text \<open>
  A pin either fails, with an error number, and changes nothing, or puts one new handle at the
  head of both lists. The lists stay equal as long as the driver's handle fits 32 bits.
\<close>

lemma pin_sim:
  assumes sim: "lib_sim handles L e" and i: "inv e" and g: "gdrs L g = Some r"
    and ok: "pin_ok t v GDRDRV_PIN_BUFFER_FLAG_DEFAULT"
  shows "\<exists>ret h L' e'. gdr_pin_buffer K g addr sz t v True L e = Inr (ret, h, L', e') \<and> inv e' \<and>
    (ret \<noteq> 0 \<and> h = None \<and> L' = L \<and> lib_sim handles L e' \<or>
     (\<exists>p hnd. ret = 0 \<and> h = Some p \<and> memhs L p = None \<and> L' = add_memh g r p hnd L \<and>
        handles e' (g_fd r) = Some (hnd # listed_handles L (g_memhs r)) \<and>
        (unat hnd < 2 ^ 32 \<longrightarrow> lib_sim handles L' e')))"
proof (cases "sys_calloc K L")
  case None
  then show ?thesis using sim i by (simp add: gdr_pin_buffer_def ENOMEM_def)
next
  case (Some p)
  let ?u = "stack_arg\<lparr>ua_pin := \<lparr>pb_addr = addr, pb_size = sz, pb_p2p_token = t, pb_va_space = v,
    pb_handle = 0\<rparr>\<rparr>"
  note hs = lib_sim_handles [OF sim g]
  obtain rc err out e' where run: "sys_ioctl K (g_fd r) GDRDRV_IOC_PIN_BUFFER ?u e = Inr (rc, err, out, e')"
    and i': "inv e'" and c: "rc \<noteq> 0 \<and> err \<noteq> 0 \<and> handles e' = handles e \<or>
      rc = 0 \<and> handles e' = (handles e)(g_fd r \<mapsto> pb_handle (pin_result ?u out) # listed_handles L (g_memhs r))"
    using pin_law [OF i hs, of ?u] ok by (auto simp: stack_arg_def)
  have fresh: "memhs L p = None" using calloc Some by (simp add: calloc_doc_def)
  from c show ?thesis
  proof
    assume f: "rc \<noteq> 0 \<and> err \<noteq> 0 \<and> handles e' = handles e"
    then have "lib_sim handles L e'" using sim by (simp add: lib_sim_def)
    then show ?thesis using f Some run g i' by (simp add: gdr_pin_buffer_def gdr_at_def Let_def)
  next
    assume f: "rc = 0 \<and> handles e' = (handles e)(g_fd r \<mapsto> pb_handle (pin_result ?u out) # listed_handles L (g_memhs r))"
    let ?h = "pb_handle (pin_result ?u out)"
    have "gdr_pin_buffer K g addr sz t v True L e = Inr (0, Some p, add_memh g r p ?h L, e')"
      using f Some run g by (simp add: gdr_pin_buffer_def gdr_at_def Let_def)
    moreover have "unat ?h < 2 ^ 32 \<longrightarrow> lib_sim handles (add_memh g r p ?h L) e'"
      using add_memh_sim [OF sim g fresh] f by blast
    ultimately show ?thesis using f fresh i' by auto
  qed
qed

lemma pin_v2_sim:
  assumes sim: "lib_sim handles L e" and i: "inv e" and g: "gdrs L g = Some r"
    and ver: "GDRDRV_MINIMUM_VERSION_WITH_PIN_BUFFER_V2 \<le> g_gdrdrv_version r"
    and ok: "pin_ok 0 0 (flags AND GDRDRV_PIN_BUFFER_FLAG_FORCE_PCIE)"
  shows "\<exists>ret h L' e'. gdr_pin_buffer_v2 K g addr sz flags True L e = Inr (ret, h, L', e') \<and> inv e' \<and>
    (ret \<noteq> 0 \<and> h = None \<and> L' = L \<and> lib_sim handles L e' \<or>
     (\<exists>p hnd. ret = 0 \<and> h = Some p \<and> memhs L p = None \<and> L' = add_memh g r p hnd L \<and>
        handles e' (g_fd r) = Some (hnd # listed_handles L (g_memhs r)) \<and>
        (unat hnd < 2 ^ 32 \<longrightarrow> lib_sim handles L' e')))"
proof -
  have v2: "gdr_pin_buffer_v2 K g addr sz flags True L e = gdr_pin_buffer_v2_internal K g addr sz flags True L e"
    using ver g by (simp add: gdr_pin_buffer_v2_def gdr_at_def)
  show ?thesis
  proof (cases "sys_calloc K L")
    case None
    then show ?thesis using sim i by (simp add: v2 gdr_pin_buffer_v2_internal_def ENOMEM_def)
  next
    case (Some p)
    have one: "flags AND 1 = 0 \<or> flags AND 1 = 1"
      by (simp add: and_one_eq) (metis parity_cases)
    have fl: "(if flags AND GDR_PIN_FLAG_FORCE_PCIE \<noteq> 0 then 0 OR GDRDRV_PIN_BUFFER_FLAG_FORCE_PCIE else 0)
        = flags AND GDRDRV_PIN_BUFFER_FLAG_FORCE_PCIE"
      using one by (auto simp: GDR_PIN_FLAG_FORCE_PCIE_def GDRDRV_PIN_BUFFER_FLAG_FORCE_PCIE_def)
    let ?u = "stack_arg\<lparr>ua_pin_v2 := \<lparr>pv_addr = addr, pv_size = sz,
      pv_flags = flags AND GDRDRV_PIN_BUFFER_FLAG_FORCE_PCIE, pv_pad = 0, pv_handle = 0\<rparr>\<rparr>"
    note hs = lib_sim_handles [OF sim g]
    obtain rc err out e' where run: "sys_ioctl K (g_fd r) GDRDRV_IOC_PIN_BUFFER_V2 ?u e = Inr (rc, err, out, e')"
      and i': "inv e'" and c: "rc \<noteq> 0 \<and> err \<noteq> 0 \<and> handles e' = handles e \<or>
        rc = 0 \<and> handles e' = (handles e)(g_fd r \<mapsto> pv_handle (pin_v2_result ?u out) # listed_handles L (g_memhs r))"
      using pin_v2_law [OF i hs, of ?u] ok by (auto simp: stack_arg_def)
    have fresh: "memhs L p = None" using calloc Some by (simp add: calloc_doc_def)
    from c show ?thesis
    proof
      assume f: "rc \<noteq> 0 \<and> err \<noteq> 0 \<and> handles e' = handles e"
      then have "lib_sim handles L e'" using sim by (simp add: lib_sim_def)
      then show ?thesis using f Some run g i'
        by (simp add: v2 gdr_pin_buffer_v2_internal_def gdr_at_def Let_def fl)
    next
      assume f: "rc = 0 \<and> handles e' = (handles e)(g_fd r \<mapsto> pv_handle (pin_v2_result ?u out) # listed_handles L (g_memhs r))"
      let ?h = "pv_handle (pin_v2_result ?u out)"
      have "gdr_pin_buffer_v2 K g addr sz flags True L e = Inr (0, Some p, add_memh g r p ?h L, e')"
        using f Some run g by (simp add: v2 gdr_pin_buffer_v2_internal_def gdr_at_def Let_def fl)
      moreover have "unat ?h < 2 ^ 32 \<longrightarrow> lib_sim handles (add_memh g r p ?h L) e'"
        using add_memh_sim [OF sim g fresh] f by blast
      ultimately show ?thesis using f fresh i' by auto
    qed
  qed
qed

text \<open>Unpinning a live handle succeeds and removes it from both lists.\<close>

lemma unpin_sim:
  assumes sim: "lib_sim handles L e" and i: "inv e" and g: "gdrs L g = Some r"
    and h: "h \<in> set (g_memhs r)"
  shows "\<exists>L' e'. gdr_unpin_buffer K g h L e = Inr (0, L', e') \<and> inv e' \<and> lib_sim handles L' e' \<and>
    memhs L' = (memhs L)(h := None) \<and> gdrs L' = gdrs (list_remove h L) \<and>
    handles e' = (handles e)(g_fd r \<mapsto>
      remove1 (ucast (mh_handle (the (memhs L h)))) (listed_handles L (g_memhs r)))"
proof -
  note hs = lib_sim_handles [OF sim g]
  obtain m where m: "memhs L h = Some m" using lib_sim_listed [OF sim g h] by blast
  let ?u = "stack_arg\<lparr>ua_unpin := ucast (mh_handle m)\<rparr>"
  have "ucast (mh_handle m) \<in> set (listed_handles L (g_memhs r))"
    using h m by (force simp: listed_handles_def)
  then obtain err out e' where run: "sys_ioctl K (g_fd r) GDRDRV_IOC_UNPIN_BUFFER ?u e = Inr (0, err, out, e')"
    and e': "inv e'" "handles e' = (handles e)(g_fd r \<mapsto> remove1 (ucast (mh_handle m)) (listed_handles L (g_memhs r)))"
    using unpin_law [OF i hs, of ?u] by (auto simp: stack_arg_def)
  have "lib_sim handles (list_remove h L\<lparr>memhs := (memhs L)(h := None)\<rparr>) e'"
    by (rule free_memh_sim [OF sim g h distinct_handles [OF i hs]]) (simp add: e' m)
  moreover have "gdr_unpin_buffer K g h L e = Inr (0, list_remove h L\<lparr>memhs := (memhs L)(h := None)\<rparr>, e')"
    using run m g by (simp add: gdr_unpin_buffer_def memh_at_def gdr_at_def list_remove_def)
  ultimately show ?thesis using e' m by simp
qed

text \<open>The loop of \<open>gdr_close\<close> frees every handle; then the object and its descriptor go.\<close>

lemma close_loop_sim:
  assumes "lib_sim handles L e" and "inv e" and "gdrs L g = Some r" and "g_memhs r = hs"
  shows "\<exists>L' e'. gdr_close_loop K g hs L e = Inr (0, L', e') \<and> inv e' \<and> lib_sim handles L' e' \<and>
    gdrs L' g = Some (r\<lparr>g_memhs := []\<rparr>) \<and> memhs L' = (memhs L) |` (- set hs)"
  using assms
proof (induction hs arbitrary: L e r)
  case Nil
  then show ?case by (simp add: restrict_map_def)
next
  case (Cons h hs)
  obtain L1 e1 where 1: "gdr_unpin_buffer K g h L e = Inr (0, L1, e1)" "inv e1" "lib_sim handles L1 e1"
      "memhs L1 = (memhs L)(h := None)" "gdrs L1 = gdrs (list_remove h L)"
    using unpin_sim [OF Cons.prems(1-3), of h] Cons.prems(4) by auto
  have g1: "gdrs L1 g = Some (r\<lparr>g_memhs := hs\<rparr>)"
    using Cons.prems(3,4) by (simp add: 1(5) list_remove_def)
  obtain L2 e2 where "gdr_close_loop K g hs L1 e1 = Inr (0, L2, e2)" "inv e2" "lib_sim handles L2 e2"
      "gdrs L2 g = Some (r\<lparr>g_memhs := []\<rparr>)" "memhs L2 = (memhs L1) |` (- set hs)"
    using Cons.IH [OF 1(3,2) g1] by auto
  moreover have "(memhs L1) |` (- set hs) = (memhs L) |` (- set (h # hs))"
    by (auto simp: 1(4) restrict_map_def)
  ultimately show ?case using 1(1) by simp
qed

lemma close_sim:
  assumes sim: "lib_sim handles L e" and i: "inv e" and g: "gdrs L g = Some r"
  shows "\<exists>L' e'. gdr_close K g L e = Inr (0, L', e') \<and> inv e' \<and> lib_sim handles L' e' \<and>
    gdrs L' g = None \<and> handles e' (g_fd r) = None \<and> memhs L' = (memhs L) |` (- set (g_memhs r))"
proof -
  obtain L1 e1 where 1: "gdr_close_loop K g (g_memhs r) L e = Inr (0, L1, e1)" "inv e1"
      "lib_sim handles L1 e1" "gdrs L1 g = Some (r\<lparr>g_memhs := []\<rparr>)"
      "memhs L1 = (memhs L) |` (- set (g_memhs r))"
    using close_loop_sim [OF sim i g refl] by blast
  have "handles e1 (g_fd r) \<noteq> None" using lib_sim_handles [OF 1(3,4)] by simp
  then obtain rc err e2 where c: "sys_close K (g_fd r) e1 = Inr (rc, err, e2)" "rc \<noteq> -1" "inv e2"
      "handles e2 = (handles e1)(g_fd r := None)"
    using close_law [OF 1(2)] by blast
  let ?L' = "L1\<lparr>gdrs := (gdrs L1)(g := None)\<rparr>"
  have run: "gdr_close K g L e = Inr (0, ?L', e2)"
    using g 1(1) c(1,2) by (simp add: gdr_close_def gdr_at_def)
  have "lists_ok ?L'" using 1(3) unfolding lib_sim_def lib_inv_def lists_ok_def by auto
  moreover have "counters_ok ?L'"
    by (rule counters_ok_cong [of L1]) (use 1(3) in \<open>auto simp: lib_sim_def lib_inv_def\<close>)
  moreover have "handles e2 (g_fd r') = Some (listed_handles ?L' (g_memhs r'))"
    if r': "gdrs ?L' g' = Some r'" for g' r'
  proof -
    have "g' \<noteq> g" and r1: "gdrs L1 g' = Some r'" using r' by (auto split: if_splits)
    then have "g_fd r' \<noteq> g_fd r" using 1(3,4) unfolding lib_sim_def by fastforce
    moreover have "listed_handles ?L' (g_memhs r') = listed_handles L1 (g_memhs r')"
      by (rule listed_handles_cong) simp
    ultimately show ?thesis using lib_sim_handles [OF 1(3) r1] c(4) by simp
  qed
  moreover have "g1 = g2" if "gdrs ?L' g1 = Some r1" "gdrs ?L' g2 = Some r2" "g_fd r1 = g_fd r2"
    for g1 g2 r1 r2
    using that 1(3) unfolding lib_sim_def by (auto split: if_splits)
  ultimately have "lib_sim handles ?L' e2" unfolding lib_sim_def lib_inv_def by blast
  then show ?thesis using run c(3,4) 1(5) by simp
qed

end

end
