(* ===== verification/Api_Driver.thy ===== *)
theory Api_Driver
  imports Api_Contract Drv_Answers
begin

text \<open>
  The library over the driver of this repository: the system calls of the library answered by
  the handlers of the driver, the proof that the driver keeps the contract \<open>pin_driver\<close>, and
  the theorems about the two together.
\<close>

section \<open>System calls on the device\<close>

text \<open>
  The kernel's part: which file a descriptor stands for. The environment supplies what the
  kernel, the NVIDIA driver and the C library decide: the answers to the driver's calls, the
  descriptor and file of the next open, whether a file is kept open by mappings when its
  descriptor is closed, where a new mapping goes, and which VMA a range is.
\<close>

record kstate =
  ks_drv :: drv
  ks_fds :: "int \<rightharpoonup> nat"

record kenv =
  ke_cfg :: drv_cfg
  ke_tgid :: nat
  ke_ext :: "kstate \<Rightarrow> ext"
  ke_open :: "kstate \<Rightarrow> (int \<times> nat) option"
  ke_info_ok :: "kstate \<Rightarrow> bool"
  ke_busy :: "kstate \<Rightarrow> nat \<Rightarrow> bool"
  ke_remap :: remap_fn
  ke_place :: "kstate \<Rightarrow> u64 \<Rightarrow> (nat \<times> vma) option"
  ke_vma_at :: "kstate \<Rightarrow> u64 \<Rightarrow> u64 \<Rightarrow> nat option"
  ke_calloc :: "lib \<Rightarrow> nat option"
  ke_cpuid :: "u32 \<Rightarrow> (u32 \<times> u32 \<times> u32 \<times> u32) option"

text \<open>A negative result of a handler is the result -1 with that error number.\<close>

definition errno_of :: "int \<Rightarrow> int" where "errno_of r = (if r < 0 then - r else 0)"
definition sys_ret :: "int \<Rightarrow> int" where "sys_ret r = (if r < 0 then -1 else r)"

definition EBADF :: int where "EBADF = 9"

definition drv_open :: "kenv \<Rightarrow> kstate \<Rightarrow> (int \<times> int \<times> kstate) run" where
  "drv_open E e =
     (case ke_open E e of
        None \<Rightarrow> Inr (-1, ENOMEM, e)
      | Some (fd, f) \<Rightarrow>
          bindE (gdrdrv_open 0 f (ke_info_ok E e) (ke_tgid E) (ks_drv e)) (\<lambda>(r, s).
            if r < 0 then Inr (-1, - r, e\<lparr>ks_drv := s\<rparr>)
            else Inr (fd, 0, e\<lparr>ks_drv := s, ks_fds := (ks_fds e)(fd \<mapsto> f)\<rparr>)))"

definition drv_close :: "kenv \<Rightarrow> int \<Rightarrow> kstate \<Rightarrow> (int \<times> int \<times> kstate) run" where
  "drv_close E fd e =
     (case ks_fds e fd of
        None \<Rightarrow> Inr (-1, EBADF, e)
      | Some f \<Rightarrow>
          if ke_busy E e f then Inr (0, 0, e\<lparr>ks_fds := (ks_fds e)(fd := None)\<rparr>)
          else bindE (gdrdrv_release (ke_cfg E) (ke_ext E e) f (ks_drv e)) (\<lambda>(_, s).
                 Inr (0, 0, e\<lparr>ks_drv := s, ks_fds := (ks_fds e)(fd := None)\<rparr>)))"

definition drv_ioctl :: "kenv \<Rightarrow> int \<Rightarrow> u32 \<Rightarrow> uarg \<Rightarrow> kstate \<Rightarrow> (int \<times> int \<times> uout \<times> kstate) run" where
  "drv_ioctl E fd cmd u e =
     (case ks_fds e fd of
        None \<Rightarrow> Inr (-1, EBADF, NoOut, e)
      | Some f \<Rightarrow>
          bindE (gdrdrv_ioctl (ke_cfg E) (ke_ext E e) (ke_tgid E) f cmd u (ks_drv e)) (\<lambda>(r, out, s).
          Inr (sys_ret r, errno_of r, out, e\<lparr>ks_drv := s\<rparr>)))"

definition drv_mmap :: "kenv \<Rightarrow> u64 \<Rightarrow> int \<Rightarrow> u64 \<Rightarrow> kstate \<Rightarrow> (u64 option \<times> int \<times> kstate) run" where
  "drv_mmap E len fd off e =
     (case ks_fds e fd of
        None \<Rightarrow> Inr (None, EBADF, e)
      | Some f \<Rightarrow>
          (case ke_place E e len of
             None \<Rightarrow> Inr (None, ENOMEM, e)
           | Some (v, a0) \<Rightarrow>
            (let a = a0\<lparr>vm_end := vm_start a0 + len, vm_pgoff := drop_bit (PAGE_SHIFT (ke_cfg E)) off,
                        vm_file := Some f\<rparr>
             in bindE (gdrdrv_mmap (ke_cfg E) (ke_remap E) (ke_tgid E) f v (set_vma v a (ks_drv e)))
                  (\<lambda>(r, s).
                    if r = 0 then Inr (Some (vm_start a), 0, e\<lparr>ks_drv := s\<rparr>)
                    else Inr (None, - r, e\<lparr>ks_drv := drop_vma v s\<rparr>)))))"

text \<open>\<open>munmap\<close> of exactly one mapping of the device, or of a range without one.\<close>

definition drv_munmap :: "kenv \<Rightarrow> u64 \<Rightarrow> u64 \<Rightarrow> kstate \<Rightarrow> (int \<times> int \<times> kstate) run" where
  "drv_munmap E a len e =
     (case ke_vma_at E e a len of
        None \<Rightarrow> Inr (0, 0, e)
      | Some v \<Rightarrow> bindE (gdrdrv_vma_close v (ks_drv e)) (\<lambda>s. Inr (0, 0, e\<lparr>ks_drv := drop_vma v s\<rparr>)))"

definition drv_os :: "kenv \<Rightarrow> kstate os" where
  "drv_os E = \<lparr>sys_open = drv_open E, sys_close = drv_close E, sys_ioctl = drv_ioctl E,
     sys_mmap = drv_mmap E, sys_munmap = drv_munmap E, sys_pagesize = PAGE_SIZE (ke_cfg E),
     sys_calloc = ke_calloc E, sys_cpuid = ke_cpuid E\<rparr>"

section \<open>What the environment promises\<close>

definition kenv_doc :: "kenv \<Rightarrow> bool" where
  "kenv_doc E \<longleftrightarrow> page_cfg (ke_cfg E) \<and>
     (\<forall>e. get_pages_doc (ke_ext E e) \<and> put_pages_doc (ke_ext E e) \<and> kmalloc_doc (ke_ext E e) (ks_drv e)) \<and>
     (\<forall>e fd f. ke_open E e = Some (fd, f) \<longrightarrow>
        0 \<le> fd \<and> ks_fds e fd = None \<and> private_data (ks_drv e) f = None) \<and>
     (\<forall>L p. ke_calloc E L = Some p \<longrightarrow> memhs L p = None \<and> gdrs L p = None)"

section \<open>The driver's state as the library sees it\<close>

definition file_handles :: "drv \<Rightarrow> nat \<Rightarrow> u64 list option" where
  "file_handles s f = map_option (\<lambda>i. map (\<lambda>p. mr_handle (the (mrs s p))) (mr_list i)) (private_data s f)"

definition kd_handles :: "kstate \<Rightarrow> int \<Rightarrow> u64 list option" where
  "kd_handles e fd = (case ks_fds e fd of None \<Rightarrow> None | Some f \<Rightarrow> file_handles (ks_drv e) f)"

definition kd_inv :: "kenv \<Rightarrow> kstate \<Rightarrow> bool" where
  "kd_inv E e \<longleftrightarrow> core_inv (ke_cfg E) Map.empty (ks_drv e) \<and> inj_on (ks_fds e) (dom (ks_fds e)) \<and>
     (\<forall>fd f. ks_fds e fd = Some f \<longrightarrow> (\<exists>i. private_data (ks_drv e) f = Some i \<and> tgid i = ke_tgid E))"

lemma kd_own: "kd_inv E e \<Longrightarrow> own_inv {} (ks_drv e)"
  by (simp add: kd_inv_def core_inv_def)

lemma kd_file:
  assumes "kd_inv E e" and "ks_fds e fd = Some f"
  obtains i where "private_data (ks_drv e) f = Some i" and "tgid i = ke_tgid E"
  using assms unfolding kd_inv_def by blast

text \<open>The handles of a file are distinct.\<close>

lemma core_distinct:
  assumes core: "core_inv c D s" and i: "private_data s f = Some i"
  shows "distinct (map (\<lambda>p. mr_handle (the (mrs s p))) (mr_list i))"
proof -
  have own: "own_inv (dom D) s" and h: "handles_ok c s i"
    using core i by (simp_all add: core_inv_def sys_handles_def)
  have ok: "file_ok s i" by (rule inv_file [OF own i])
  have "inj_on (\<lambda>p. mr_handle (the (mrs s p))) (set (mr_list i))"
  proof (rule inj_onI)
    fix p q assume pq: "p \<in> set (mr_list i)" "q \<in> set (mr_list i)"
      "mr_handle (the (mrs s p)) = mr_handle (the (mrs s q))"
    obtain m where m: "mrs s p = Some m" using ok pq(1) unfolding file_ok_def by blast
    obtain n where n: "mrs s q = Some n" using ok pq(2) unfolding file_ok_def by blast
    show "p = q" by (rule handles_ok_inj [OF h pq(1,2) m n]) (use pq(3) m n in simp)
  qed
  then show ?thesis using ok by (simp add: distinct_map file_ok_def)
qed

text \<open>Regions are on one list only, so a change to a region of one file leaves the others alone.\<close>

lemma file_handles_other:
  assumes "own_inv D s" and i: "private_data s f = Some i" and "g \<noteq> f"
    and pd: "private_data s' g = private_data s g"
    and mrs: "\<And>p. p \<notin> P \<Longrightarrow> mrs s' p = mrs s p" and P: "P \<subseteq> set (mr_list i) \<or> P \<inter> dom (mrs s) = {}"
  shows "file_handles s' g = file_handles s g"
proof (cases "private_data s g")
  case None
  then show ?thesis using pd by (simp add: file_handles_def)
next
  case (Some j)
  have ok: "file_ok s j" by (rule inv_file [OF assms(1) Some])
  have "set (mr_list i) \<inter> set (mr_list j) = {}"
    using assms(1,3) i Some unfolding own_inv_def drv_ok_def by blast
  moreover have "set (mr_list j) \<subseteq> dom (mrs s)" using ok by (auto simp: file_ok_def)
  ultimately have "mrs s' p = mrs s p" if "p \<in> set (mr_list j)" for p
    using that P mrs [of p] by blast
  then show ?thesis using pd Some by (simp add: file_handles_def)
qed

section \<open>The effect of the pin and unpin commands\<close>

text \<open>The handlers of both pin commands after their own argument checks.\<close>

definition pin_published :: "drv_cfg \<Rightarrow> nat \<Rightarrow> gdr_info \<Rightarrow> drv \<Rightarrow> drv \<Rightarrow> bool" where
  "pin_published c f i s s' \<longleftrightarrow>
     (\<exists>p m. mrs s p = None \<and> mr_handle m = next_handle i \<and> mrs s' = (mrs s)(p \<mapsto> m) \<and>
        private_data s' = (private_data s)(f \<mapsto> info_after_pin c p m i))"

lemma pin_core_published:
  assumes own: "own_inv D s" and i: "private_data s f = Some i"
    and doc: "get_pages_doc x" "kmalloc_doc x s" and fl: "pin_flags_ok c t v fl"
  shows "\<exists>r h s'. gdrdrv_pin_buffer_core c x f addr sz t v fl s = Inr (r, h, s') \<and>
    (r < 0 \<and> h = None \<and> mrs s' = mrs s \<and> private_data s' = private_data s \<or>
     r = 0 \<and> h = Some (next_handle i) \<and> pin_published c f i s s')"
proof (cases "x_kmalloc x")
  case None
  then show ?thesis by (simp add: gdrdrv_pin_buffer_core_def ENOMEM_def)
next
  case (Some p)
  have fresh: "mrs s p = None" using doc(2) Some by (simp add: kmalloc_doc_def)
  have nl: "\<not> info_lock i" using inv_file [OF own i] by (simp add: file_ok_def)
  obtain r h s' where run: "gdrdrv_pin_buffer_core c x f addr sz t v fl s = Inr (r, h, s')"
    and out: "r < 0 \<and> h = None \<and> mrs s' = mrs s \<and> private_data s' = private_data s \<or>
     r = 0 \<and> h = Some (next_handle i) \<and> \<not> next_handle_overflow i \<and>
     (\<exists>m. pinned_mr c addr sz i m \<and> mrs s' = (mrs s)(p \<mapsto> m) \<and>
       private_data s' = (private_data s)(f \<mapsto> info_after_pin c p m i))"
    using pin_core_effect [OF Some fresh i nl doc(1) fl, of addr sz] by blast
  then have "r < 0 \<and> h = None \<and> mrs s' = mrs s \<and> private_data s' = private_data s \<or>
     r = 0 \<and> h = Some (next_handle i) \<and> pin_published c f i s s'"
    using fresh unfolding pin_published_def pinned_mr_def by blast
  with run show ?thesis by blast
qed

lemma ioc_types [simp]:
  "IOC_TYPE GDRDRV_IOC_PIN_BUFFER = GDRDRV_IOCTL" "IOC_TYPE GDRDRV_IOC_PIN_BUFFER_V2 = GDRDRV_IOCTL"
  "IOC_TYPE GDRDRV_IOC_UNPIN_BUFFER = GDRDRV_IOCTL" "IOC_TYPE GDRDRV_IOC_GET_VERSION = GDRDRV_IOCTL"
  by (simp_all add: IOC_TYPE_def ioc_defs)

lemma ioc_distinct [simp]:
  "GDRDRV_IOC_PIN_BUFFER_V2 \<noteq> GDRDRV_IOC_PIN_BUFFER" "GDRDRV_IOC_UNPIN_BUFFER \<noteq> GDRDRV_IOC_PIN_BUFFER"
  "GDRDRV_IOC_UNPIN_BUFFER \<noteq> GDRDRV_IOC_PIN_BUFFER_V2"
  by (simp_all add: ioc_defs)

lemma ioctl_version:
  assumes "private_data s f = Some i" and "tgid i = tg" and "ua_writable u"
  shows "gdrdrv_ioctl c x tg f GDRDRV_IOC_GET_VERSION u s = Inr (0, OutVersion
    \<lparr>ve_gdrdrv_version = GDRDRV_VERSION, ve_minimum_gdr_api_version = MINIMUM_GDR_API_VERSION\<rparr>, s)"
proof -
  have d: "GDRDRV_IOC_GET_VERSION \<noteq> cmd" if "cmd \<in> {GDRDRV_IOC_PIN_BUFFER, GDRDRV_IOC_PIN_BUFFER_V2,
      GDRDRV_IOC_UNPIN_BUFFER, GDRDRV_IOC_GET_CB_FLAG, GDRDRV_IOC_GET_INFO, GDRDRV_IOC_GET_INFO_V2,
      GDRDRV_IOC_GET_ATTR, GDRDRV_IOC_REQ_MAPPING_TYPE}" for cmd
    using that by (auto simp: ioc_defs)
  show ?thesis
    using assms by (simp add: gdrdrv_ioctl_def gdrdrv_check_same_process_def d gdrdrv_get_version_def
        copy_to_user_def)
qed

lemma ioctl_pin_effect:
  assumes own: "own_inv D s" and i: "private_data s f = Some i" and tg: "tgid i = tg"
    and doc: "get_pages_doc x" "kmalloc_doc x s" and u: "ua_readable u" "ua_writable u"
    and fl: "pin_flags_ok c (pb_p2p_token (ua_pin u)) (pb_va_space (ua_pin u)) GDRDRV_PIN_BUFFER_FLAG_DEFAULT"
  shows "\<exists>r out s'. gdrdrv_ioctl c x tg f GDRDRV_IOC_PIN_BUFFER u s = Inr (r, out, s') \<and>
    (r < 0 \<and> mrs s' = mrs s \<and> private_data s' = private_data s \<or>
     r = 0 \<and> pb_handle (pin_result u out) = next_handle i \<and> pin_published c f i s s')"
proof -
  have run: "gdrdrv_ioctl c x tg f GDRDRV_IOC_PIN_BUFFER u s = gdrdrv_pin_buffer c x f u s"
    using i tg by (simp add: gdrdrv_ioctl_def gdrdrv_check_same_process_def)
  show ?thesis
    using pin_core_published [OF own i doc fl, of "pb_addr (ua_pin u)" "pb_size (ua_pin u)"] u
    unfolding run gdrdrv_pin_buffer_def
    by (auto simp: copy_to_user_def pin_result_def EINVAL_def)
qed

lemma ioctl_pin_v2_effect:
  assumes own: "own_inv D s" and i: "private_data s f = Some i" and tg: "tgid i = tg"
    and doc: "get_pages_doc x" "kmalloc_doc x s" and u: "ua_readable u" "ua_writable u"
    and fl: "pin_flags_ok c 0 0 (pv_flags (ua_pin_v2 u))"
  shows "\<exists>r out s'. gdrdrv_ioctl c x tg f GDRDRV_IOC_PIN_BUFFER_V2 u s = Inr (r, out, s') \<and>
    (r < 0 \<and> mrs s' = mrs s \<and> private_data s' = private_data s \<or>
     r = 0 \<and> pv_handle (pin_v2_result u out) = next_handle i \<and> pin_published c f i s s')"
proof -
  have run: "gdrdrv_ioctl c x tg f GDRDRV_IOC_PIN_BUFFER_V2 u s = gdrdrv_pin_buffer_v2 c x f u s"
    using i tg by (simp add: gdrdrv_ioctl_def gdrdrv_check_same_process_def)
  show ?thesis
    using pin_core_published [OF own i doc fl, of "pv_addr (ua_pin_v2 u)" "pv_size (ua_pin_v2 u)"] u
    unfolding run gdrdrv_pin_buffer_v2_def
    by (auto simp: copy_to_user_def pin_v2_result_def EINVAL_def)
qed

lemma ioctl_unpin_effect:
  assumes core: "core_inv c D s" and i: "private_data s f = Some i" and tg: "tgid i = tg"
    and u: "ua_readable u" and p: "p \<in> set (mr_list i)" "mrs s p = Some m" "mr_handle m = ua_unpin u"
  shows "\<exists>out s'. gdrdrv_ioctl c x tg f GDRDRV_IOC_UNPIN_BUFFER u s = Inr (0, out, s') \<and>
    mrs s' = (mrs s)(p := None) \<and>
    private_data s' = (private_data s)(f \<mapsto> i\<lparr>mr_list := remove1 p (mr_list i)\<rparr>)"
proof -
  have run: "gdrdrv_ioctl c x tg f GDRDRV_IOC_UNPIN_BUFFER u s = gdrdrv_unpin_buffer c x f u s"
    using i tg by (simp add: gdrdrv_ioctl_def gdrdrv_check_same_process_def)
  have own: "own_inv (dom D) s" using core by (simp add: core_inv_def)
  have pick: "pick_mr s (ua_unpin u) (mr_list i) = Some p"
    using core_pick [OF core i p(1,2)] p(3) by simp
  show ?thesis
    using unpin_core_effect [OF own i, where h = "ua_unpin u" and c = c and x = x] pick u
    unfolding run gdrdrv_unpin_buffer_def by auto
qed

section \<open>The driver keeps the contract\<close>

locale driver_env =
  fixes E :: kenv
  assumes doc: "kenv_doc E"
begin

lemma cfg: "page_cfg (ke_cfg E)"
  and exts: "get_pages_doc (ke_ext E e)" "put_pages_doc (ke_ext E e)" "kmalloc_doc (ke_ext E e) (ks_drv e)"
  and opens: "ke_open E e = Some (fd, f) \<Longrightarrow> 0 \<le> fd \<and> ks_fds e fd = None \<and> private_data (ks_drv e) f = None"
  and callocs: "ke_calloc E L = Some p \<Longrightarrow> memhs L p = None \<and> gdrs L p = None"
  using doc by (auto simp: kenv_doc_def)

text \<open>Every ioctl keeps the invariant of the driver.\<close>

lemma ioctl_core:
  assumes "kd_inv E e" and "gdrdrv_ioctl (ke_cfg E) (ke_ext E e) (ke_tgid E) f cmd u (ks_drv e) = Inr (r, out, s)"
  shows "core_inv (ke_cfg E) Map.empty s"
  using ioctl_specs_core [OF ioctl_refines [OF kd_own [OF assms(1)] exts(1,3) assms(2)] cfg] assms(1)
  by (simp add: kd_inv_def)

text \<open>A command that changes the lists of one file, seen through the descriptors.\<close>

lemma kd_update:
  assumes inv: "kd_inv E e" and fd: "ks_fds e fd = Some f"
    and core: "core_inv (ke_cfg E) Map.empty s"
    and tg: "\<exists>j. private_data s f = Some j \<and> tgid j = ke_tgid E"
    and pd: "\<And>g. g \<noteq> f \<Longrightarrow> private_data s g = private_data (ks_drv e) g"
    and fh: "\<And>g. g \<noteq> f \<Longrightarrow> file_handles s g = file_handles (ks_drv e) g"
  shows "kd_inv E (e\<lparr>ks_drv := s\<rparr>)"
    and "kd_handles (e\<lparr>ks_drv := s\<rparr>) = (kd_handles e)(fd := file_handles s f)"
proof -
  have inj: "inj_on (ks_fds e) (dom (ks_fds e))" using inv by (simp add: kd_inv_def)
  have other: "g \<noteq> f" if "ks_fds e fd' = Some g" "fd' \<noteq> fd" for fd' g
    using inj_onD [OF inj, of fd' fd] that fd by auto
  have "\<exists>j. private_data s g = Some j \<and> tgid j = ke_tgid E" if g: "ks_fds e fd' = Some g" for fd' g
  proof (cases "g = f")
    case False
    then show ?thesis using inv g pd [OF False] unfolding kd_inv_def by simp
  qed (use tg in simp)
  then show "kd_inv E (e\<lparr>ks_drv := s\<rparr>)" using core inj by (simp add: kd_inv_def)
  show "kd_handles (e\<lparr>ks_drv := s\<rparr>) = (kd_handles e)(fd := file_handles s f)"
  proof
    fix fd'
    show "kd_handles (e\<lparr>ks_drv := s\<rparr>) fd' = ((kd_handles e)(fd := file_handles s f)) fd'"
      using fd other [of fd'] fh by (cases "ks_fds e fd'") (auto simp: kd_handles_def)
  qed
qed

lemma handles_file:
  assumes "kd_inv E e" and "kd_handles e fd = Some hs"
  obtains f i where "ks_fds e fd = Some f" and "private_data (ks_drv e) f = Some i"
    and "tgid i = ke_tgid E" and "hs = map (\<lambda>p. mr_handle (the (mrs (ks_drv e) p))) (mr_list i)"
proof -
  obtain f where f: "ks_fds e fd = Some f" "file_handles (ks_drv e) f = Some hs"
    using assms(2) by (auto simp: kd_handles_def split: option.splits)
  obtain i where i: "private_data (ks_drv e) f = Some i" "tgid i = ke_tgid E"
    using kd_file [OF assms(1) f(1)] .
  show thesis by (rule that [OF f(1) i]) (use f(2) i(1) in \<open>simp add: file_handles_def\<close>)
qed

text \<open>Both pin commands, from their effect on the driver.\<close>

lemma pin_command:
  assumes inv: "kd_inv E e" and hs: "kd_handles e fd = Some hs" and u: "ua_readable u" "ua_writable u"
    and eff: "\<And>f i. private_data (ks_drv e) f = Some i \<Longrightarrow> tgid i = ke_tgid E \<Longrightarrow>
      \<exists>r out s'. gdrdrv_ioctl (ke_cfg E) (ke_ext E e) (ke_tgid E) f cmd u (ks_drv e) = Inr (r, out, s') \<and>
        (r < 0 \<and> mrs s' = mrs (ks_drv e) \<and> private_data s' = private_data (ks_drv e) \<or>
         r = 0 \<and> res out = next_handle i \<and> pin_published (ke_cfg E) f i (ks_drv e) s')"
  shows "\<exists>rc err out e'. drv_ioctl E fd cmd u e = Inr (rc, err, out, e') \<and> kd_inv E e' \<and>
    (rc \<noteq> 0 \<and> err \<noteq> 0 \<and> kd_handles e' = kd_handles e \<or>
     rc = 0 \<and> kd_handles e' = (kd_handles e)(fd \<mapsto> res out # hs))"
proof -
  let ?s = "ks_drv e"
  obtain f i where f: "ks_fds e fd = Some f" and i: "private_data ?s f = Some i" "tgid i = ke_tgid E"
    and hs': "hs = map (\<lambda>p. mr_handle (the (mrs ?s p))) (mr_list i)"
    using handles_file [OF inv hs] .
  obtain r out s' where run: "gdrdrv_ioctl (ke_cfg E) (ke_ext E e) (ke_tgid E) f cmd u ?s = Inr (r, out, s')"
    and c: "r < 0 \<and> mrs s' = mrs ?s \<and> private_data s' = private_data ?s \<or>
      r = 0 \<and> res out = next_handle i \<and> pin_published (ke_cfg E) f i ?s s'"
    using eff [OF i] by blast
  have core: "core_inv (ke_cfg E) Map.empty s'" by (rule ioctl_core [OF inv run])
  let ?e' = "e\<lparr>ks_drv := s'\<rparr>"
  have call: "drv_ioctl E fd cmd u e = Inr (sys_ret r, errno_of r, out, ?e')"
    using f run by (simp add: drv_ioctl_def)
  from c show ?thesis
  proof
    assume same: "r < 0 \<and> mrs s' = mrs ?s \<and> private_data s' = private_data ?s"
    have fh: "file_handles s' g = file_handles ?s g" for g using same by (simp add: file_handles_def)
    have "kd_inv E ?e'" "kd_handles ?e' = (kd_handles e)(fd := file_handles s' f)"
      by (rule kd_update [OF inv f core]; use same i fh in simp)+
    moreover have "kd_handles e fd = file_handles ?s f" using f by (simp add: kd_handles_def)
    ultimately show ?thesis using call same fh by (auto simp: sys_ret_def errno_of_def fun_upd_idem)
  next
    assume ok: "r = 0 \<and> res out = next_handle i \<and> pin_published (ke_cfg E) f i ?s s'"
    then obtain p m where new: "mrs ?s p = None" "mr_handle m = next_handle i"
        "mrs s' = (mrs ?s)(p \<mapsto> m)" "private_data s' = (private_data ?s)(f \<mapsto> info_after_pin (ke_cfg E) p m i)"
      by (auto simp: pin_published_def)
    have ok_i: "file_ok ?s i" by (rule inv_file [OF kd_own [OF inv] i(1)])
    then have np: "p \<notin> set (mr_list i)" using new(1) by (auto simp: file_ok_def)
    have fh: "file_handles s' g = file_handles ?s g" if "g \<noteq> f" for g
      by (rule file_handles_other [OF kd_own [OF inv] i(1) that, where P = "{p}"]) (use new that in auto)
    have "kd_inv E ?e'" "kd_handles ?e' = (kd_handles e)(fd := file_handles s' f)"
      by (rule kd_update [OF inv f core]; use new i fh in \<open>simp add: info_after_pin_def\<close>)+
    moreover have "file_handles s' f = Some (res out # hs)"
      using np ok hs' new by (simp add: file_handles_def info_after_pin_def cong: map_cong)
    ultimately show ?thesis using call ok by (auto simp: sys_ret_def)
  qed
qed

lemma unpin_command:
  assumes inv: "kd_inv E e" and hs: "kd_handles e fd = Some hs" and u: "ua_readable u" "ua_unpin u \<in> set hs"
  shows "\<exists>err out e'. drv_ioctl E fd GDRDRV_IOC_UNPIN_BUFFER u e = Inr (0, err, out, e') \<and> kd_inv E e' \<and>
    kd_handles e' = (kd_handles e)(fd \<mapsto> remove1 (ua_unpin u) hs)"
proof -
  let ?s = "ks_drv e" and ?h = "\<lambda>p. mr_handle (the (mrs (ks_drv e) p))"
  obtain f i where f: "ks_fds e fd = Some f" and i: "private_data ?s f = Some i" "tgid i = ke_tgid E"
    and hs': "hs = map ?h (mr_list i)"
    using handles_file [OF inv hs] .
  have core: "core_inv (ke_cfg E) Map.empty ?s" using inv by (simp add: kd_inv_def)
  have ok_i: "file_ok ?s i" by (rule inv_file [OF kd_own [OF inv] i(1)])
  obtain p where p: "p \<in> set (mr_list i)" "ua_unpin u = ?h p" using u(2) hs' by auto
  then obtain m where m: "mrs ?s p = Some m" using ok_i by (auto simp: file_ok_def)
  obtain out s' where run: "gdrdrv_ioctl (ke_cfg E) (ke_ext E e) (ke_tgid E) f GDRDRV_IOC_UNPIN_BUFFER u ?s = Inr (0, out, s')"
    and s': "mrs s' = (mrs ?s)(p := None)"
      "private_data s' = (private_data ?s)(f \<mapsto> i\<lparr>mr_list := remove1 p (mr_list i)\<rparr>)"
    using ioctl_unpin_effect [OF core i u(1) p(1) m, of "ke_ext E e"] p(2) m by auto
  have core': "core_inv (ke_cfg E) Map.empty s'" by (rule ioctl_core [OF inv run])
  let ?e' = "e\<lparr>ks_drv := s'\<rparr>"
  have fh: "file_handles s' g = file_handles ?s g" if "g \<noteq> f" for g
    by (rule file_handles_other [OF kd_own [OF inv] i(1) that, where P = "{p}"]) (use s' p that in auto)
  have "kd_inv E ?e'" "kd_handles ?e' = (kd_handles e)(fd := file_handles s' f)"
    by (rule kd_update [OF inv f core']; use s' i fh in simp)+
  moreover have "file_handles s' f = Some (remove1 (ua_unpin u) hs)"
  proof -
    have "distinct (mr_list i)" using ok_i by (simp add: file_ok_def)
    then have "map (\<lambda>q. mr_handle (the (mrs s' q))) (remove1 p (mr_list i)) = map ?h (remove1 p (mr_list i))"
      using s'(1) by (intro map_cong) auto
    also have "\<dots> = remove1 (?h p) hs"
      unfolding hs' by (rule remove1_map_inj [OF core_distinct [OF core i(1)] p(1)])
    finally show ?thesis using s'(2) p(2) by (simp add: file_handles_def)
  qed
  ultimately show ?thesis using f run by (auto simp: drv_ioctl_def sys_ret_def)
qed

lemma open_command:
  assumes inv: "kd_inv E e"
  shows "\<exists>fd err e'. drv_open E e = Inr (fd, err, e') \<and> kd_inv E e' \<and>
    (fd = -1 \<and> kd_handles e' = kd_handles e \<or>
     fd \<noteq> -1 \<and> kd_handles e fd = None \<and> kd_handles e' = (kd_handles e)(fd \<mapsto> []))"
proof (cases "ke_open E e")
  case None
  then show ?thesis using inv by (simp add: drv_open_def)
next
  case (Some a)
  obtain fd f where a: "a = (fd, f)" by (cases a)
  have o: "0 \<le> fd" "ks_fds e fd = None" "private_data (ks_drv e) f = None"
    using opens [of e fd f] Some a by auto
  show ?thesis
  proof (cases "ke_info_ok E e")
    case False
    then show ?thesis using inv Some a
      by (simp add: drv_open_def gdrdrv_open_def ENOMEM_def)
  next
    case True
    let ?i = "\<lparr>mr_list = [], info_lock = False, tgid = ke_tgid E, next_handle = 0, next_handle_overflow = False\<rparr>"
    obtain s where run: "gdrdrv_open 0 f True (ke_tgid E) (ks_drv e) = Inr (0, s)"
      and s: "mrs s = mrs (ks_drv e)" "private_data s = (private_data (ks_drv e))(f \<mapsto> ?i)"
      by (simp add: gdrdrv_open_def)
    let ?e' = "e\<lparr>ks_drv := s, ks_fds := (ks_fds e)(fd \<mapsto> f)\<rparr>"
    have core: "core_inv (ke_cfg E) Map.empty s"
      using open_core [OF o(3) run] inv by (simp add: kd_inv_def)
    have nf: "ks_fds e fd' \<noteq> Some f" for fd' using inv o(3) unfolding kd_inv_def by force
    have fh: "file_handles s g = file_handles (ks_drv e) g" if "g \<noteq> f" for g
      using that s by (simp add: file_handles_def)
    have inj: "inj_on (ks_fds e) (dom (ks_fds e))" using inv by (simp add: kd_inv_def)
    have "inj_on (ks_fds ?e') (dom (ks_fds ?e'))"
      using nf inj_onD [OF inj] by (intro inj_onI) (auto split: if_splits dest!: sym [of "Some f"])
    then have "kd_inv E ?e'" using core inv s o(2) unfolding kd_inv_def by auto
    moreover have "kd_handles ?e' fd' = ((kd_handles e)(fd \<mapsto> [])) fd'" for fd'
      using fh nf [of fd'] s by (cases "ks_fds e fd'") (auto simp: kd_handles_def file_handles_def)
    moreover have "kd_handles e fd = None" using o(2) by (simp add: kd_handles_def)
    ultimately show ?thesis using run Some a True o(1) by (auto simp: drv_open_def)
  qed
qed

lemma close_command:
  assumes inv: "kd_inv E e" and h: "kd_handles e fd \<noteq> None"
  shows "\<exists>rc err e'. drv_close E fd e = Inr (rc, err, e') \<and> rc \<noteq> -1 \<and> kd_inv E e' \<and>
    kd_handles e' = (kd_handles e)(fd := None)"
proof -
  let ?s = "ks_drv e"
  obtain f i where f: "ks_fds e fd = Some f" and i: "private_data ?s f = Some i"
    using h handles_file [OF inv] by blast
  have inj: "inj_on (ks_fds e) (dom (ks_fds e))" using inv by (simp add: kd_inv_def)
  have other: "g \<noteq> f" if "ks_fds e fd' = Some g" "fd' \<noteq> fd" for fd' g
    using inj_onD [OF inj, of fd' fd] that f by auto
  have inj': "inj_on ((ks_fds e)(fd := None)) (dom ((ks_fds e)(fd := None)))"
    using inj by (auto simp: inj_on_def)
  show ?thesis
  proof (cases "ke_busy E e f")
    case True
    let ?e' = "e\<lparr>ks_fds := (ks_fds e)(fd := None)\<rparr>"
    have "kd_inv E ?e'" using inv inj' unfolding kd_inv_def by simp
    moreover have "kd_handles ?e' = (kd_handles e)(fd := None)" 
      by (rule ext) (simp add: kd_handles_def split: option.splits)
    ultimately show ?thesis using True f by (simp add: drv_close_def)
  next
    case False
    obtain s where run: "gdrdrv_release (ke_cfg E) (ke_ext E e) f ?s = Inr (0, s)"
      and s: "private_data s = (private_data ?s)(f := None)" "mrs s = (mrs ?s) |` (- set (mr_list i))"
      using release_inv [OF kd_own [OF inv] i] by blast
    let ?e' = "e\<lparr>ks_drv := s, ks_fds := (ks_fds e)(fd := None)\<rparr>"
    have core: "core_inv (ke_cfg E) Map.empty s"
      using release_core [OF _ run] inv by (simp add: kd_inv_def)
    have fh: "file_handles s g = file_handles ?s g" if "g \<noteq> f" for g
      by (rule file_handles_other [OF kd_own [OF inv] i that, where P = "set (mr_list i)"])
        (use s that in auto)
    have "\<exists>j. private_data s g = Some j \<and> tgid j = ke_tgid E"
      if "ks_fds e fd' = Some g" "fd' \<noteq> fd" for fd' g
      using inv that other [OF that] s(1) unfolding kd_inv_def by simp
    then have "kd_inv E ?e'" using core inj' unfolding kd_inv_def by auto
    moreover have "kd_handles ?e' fd' = ((kd_handles e)(fd := None)) fd'" for fd'
      using fh other [of fd'] by (cases "ks_fds e fd'") (auto simp: kd_handles_def)
    ultimately show ?thesis using run f False by (auto simp: drv_close_def)
  qed
qed

end

sublocale driver_env \<subseteq> pd: pin_driver "drv_os E" "kd_inv E" kd_handles "pin_flags_ok (ke_cfg E)"
proof
  show "calloc_doc (drv_os E)" using callocs by (simp add: calloc_doc_def drv_os_def)
next
  fix e fd hs assume inv: "kd_inv E e" and hs: "kd_handles e fd = Some hs"
  obtain f i where "private_data (ks_drv e) f = Some i"
      "hs = map (\<lambda>p. mr_handle (the (mrs (ks_drv e) p))) (mr_list i)"
    using handles_file [OF inv hs] .
  then show "distinct hs" using core_distinct inv unfolding kd_inv_def by blast
next
  fix e assume "kd_inv E e"
  then show "\<exists>fd err e'. sys_open (drv_os E) e = Inr (fd, err, e') \<and> kd_inv E e' \<and>
      (fd = -1 \<and> kd_handles e' = kd_handles e \<or>
       fd \<noteq> -1 \<and> kd_handles e fd = None \<and> kd_handles e' = (kd_handles e)(fd \<mapsto> []))"
    using open_command by (simp add: drv_os_def)
next
  fix e fd and u :: uarg assume inv: "kd_inv E e" and h: "kd_handles e fd \<noteq> None" and u: "ua_writable u"
  obtain f i where "ks_fds e fd = Some f" "private_data (ks_drv e) f = Some i" "tgid i = ke_tgid E"
    using h handles_file [OF inv] by blast
  then show "\<exists>err. sys_ioctl (drv_os E) fd GDRDRV_IOC_GET_VERSION u e = Inr (0, err, OutVersion
      \<lparr>ve_gdrdrv_version = GDRDRV_VERSION, ve_minimum_gdr_api_version = MINIMUM_GDR_API_VERSION\<rparr>, e)"
    using ioctl_version u by (simp add: drv_os_def drv_ioctl_def sys_ret_def)
next
  fix e fd hs and u :: uarg
  assume a: "kd_inv E e" "kd_handles e fd = Some hs" "ua_readable u" "ua_writable u"
    "pin_flags_ok (ke_cfg E) (pb_p2p_token (ua_pin u)) (pb_va_space (ua_pin u)) GDRDRV_PIN_BUFFER_FLAG_DEFAULT"
  show "\<exists>rc err out e'. sys_ioctl (drv_os E) fd GDRDRV_IOC_PIN_BUFFER u e = Inr (rc, err, out, e') \<and>
      kd_inv E e' \<and> (rc \<noteq> 0 \<and> err \<noteq> 0 \<and> kd_handles e' = kd_handles e \<or>
       rc = 0 \<and> kd_handles e' = (kd_handles e)(fd \<mapsto> pb_handle (pin_result u out) # hs))"
    using pin_command [OF a(1-4), of GDRDRV_IOC_PIN_BUFFER "\<lambda>out. pb_handle (pin_result u out)"]
      ioctl_pin_effect [OF kd_own [OF a(1)] _ _ exts(1,3) a(3-5)] by (simp add: drv_os_def)
next
  fix e fd hs and u :: uarg
  assume a: "kd_inv E e" "kd_handles e fd = Some hs" "ua_readable u" "ua_writable u"
    "pin_flags_ok (ke_cfg E) 0 0 (pv_flags (ua_pin_v2 u))"
  show "\<exists>rc err out e'. sys_ioctl (drv_os E) fd GDRDRV_IOC_PIN_BUFFER_V2 u e = Inr (rc, err, out, e') \<and>
      kd_inv E e' \<and> (rc \<noteq> 0 \<and> err \<noteq> 0 \<and> kd_handles e' = kd_handles e \<or>
       rc = 0 \<and> kd_handles e' = (kd_handles e)(fd \<mapsto> pv_handle (pin_v2_result u out) # hs))"
    using pin_command [OF a(1-4), of GDRDRV_IOC_PIN_BUFFER_V2 "\<lambda>out. pv_handle (pin_v2_result u out)"]
      ioctl_pin_v2_effect [OF kd_own [OF a(1)] _ _ exts(1,3) a(3-5)] by (simp add: drv_os_def)
next
  fix e fd hs and u :: uarg
  assume "kd_inv E e" "kd_handles e fd = Some hs" "ua_readable u" "ua_unpin u \<in> set hs"
  then show "\<exists>err out e'. sys_ioctl (drv_os E) fd GDRDRV_IOC_UNPIN_BUFFER u e = Inr (0, err, out, e') \<and>
      kd_inv E e' \<and> kd_handles e' = (kd_handles e)(fd \<mapsto> remove1 (ua_unpin u) hs)"
    using unpin_command by (simp add: drv_os_def)
next
  fix e fd assume "kd_inv E e" "kd_handles e fd \<noteq> None"
  then show "\<exists>rc err e'. sys_close (drv_os E) fd e = Inr (rc, err, e') \<and> rc \<noteq> -1 \<and> kd_inv E e' \<and>
      kd_handles e' = (kd_handles e)(fd := None)"
    using close_command by (simp add: drv_os_def)
qed

text \<open>What the library's side of the contract says of this driver.\<close>

context driver_env
begin

lemmas lib_open = pd.open_sim
lemmas lib_pin = pd.pin_sim
lemmas lib_pin_v2 = pd.pin_v2_sim
lemmas lib_unpin = pd.unpin_sim
lemmas lib_close = pd.close_sim

end

section \<open>A concrete environment\<close>

definition ex_env :: kenv where
  "ex_env = \<lparr>ke_cfg = ex_cfg, ke_tgid = 42,
     ke_ext = (\<lambda>e. ex_ext\<lparr>x_kmalloc := List.find (\<lambda>p. mrs (ks_drv e) p = None) [7, 8, 9]\<rparr>),
     ke_open = (\<lambda>e. if ks_fds e 3 = None \<and> private_data (ks_drv e) 3 = None then Some (3, 3) else None),
     ke_info_ok = (\<lambda>_. True), ke_busy = (\<lambda>_ _. False), ke_remap = ex_remap,
     ke_place = (\<lambda>e _. if vmas (ks_drv e) 9 = None then Some (9, ex_vma) else None),
     ke_vma_at = (\<lambda>e a _. if a = 0x7f0000000000 \<and> vmas (ks_drv e) 9 \<noteq> None then Some 9 else None),
     ke_calloc = (\<lambda>L. List.find (\<lambda>p. memhs L p = None \<and> gdrs L p = None) [1, 2, 3]),
     ke_cpuid = (\<lambda>_. None)\<rparr>"

lemma ex_env_doc: "kenv_doc ex_env"
  unfolding kenv_doc_def
  by (auto simp: ex_env_def ex_page_cfg kmalloc_doc_def get_pages_doc_def put_pages_doc_def ex_ext_def
      find_Some_iff split: if_splits)

interpretation exd: driver_env ex_env
  by unfold_locales (rule ex_env_doc)

text \<open>The device open as descriptor 3 with one region, and the library that pinned it.\<close>

definition ex_kstate :: kstate where
  "ex_kstate = \<lparr>ks_drv = ex_pinned, ks_fds = [3 \<mapsto> 3]\<rparr>"

definition ex_api :: lib where
  "ex_api = lib_static\<lparr>memhs := [2 \<mapsto> \<lparr>mh_handle = 0, mh_mapping_type = GDR_MAPPING_TYPE_NONE\<rparr>],
     gdrs := [1 \<mapsto> \<lparr>g_fd = 3, g_memhs = [2], g_page_size = 0x1000, g_page_mask = NOT 0xfff,
                    g_page_shift = 12, g_gdrdrv_version = GDRDRV_VERSION\<rparr>]\<rparr>"

lemma ex_kd_inv: "kd_inv ex_env ex_kstate"
  using reach_core [OF ex_page_cfg ex_reach]
  by (simp add: kd_inv_def ex_kstate_def ex_env_def inj_on_def) (simp add: ex_pinned_def ex_info_def)

lemma ex_lib_sim: "lib_sim kd_handles ex_api ex_kstate"
proof -
  have "lists_ok ex_api" by (simp add: lists_ok_def ex_api_def)
  moreover have "counters_ok ex_api"
    by (rule counters_ok_shrink [of lib_static])
      (use lib_inv_static in \<open>auto simp: lib_inv_def ex_api_def lib_static_def mapped_as_def mapping_types split: if_splits\<close>)
  ultimately show ?thesis
    by (simp add: lib_sim_def lib_inv_def ex_api_def kd_handles_def ex_kstate_def file_handles_def
        listed_handles_def ex_pinned_def ex_info_def ex_mr_def zero_mr_def)
qed

section \<open>The library over the driver\<close>



text \<open>
  C26. \<open>gdr_unpin_buffer\<close> over the driver of a handle that \<open>gdr_pin_buffer\<close> returned succeeds: the
  library's object is freed, the driver's region with that handle and no other is gone, and the
  two lists still agree.
\<close>

theorem unpin_over_driver:
  assumes "kenv_doc E" and "kd_inv E e" and "lib_sim kd_handles L e" and "gdrs L g = Some r"
    and "h \<in> set (g_memhs r)"
  shows "\<exists>L' e'. gdr_unpin_buffer (drv_os E) g h L e = Inr (0, L', e') \<and> kd_inv E e' \<and>
    lib_sim kd_handles L' e' \<and> memhs L' = (memhs L)(h := None) \<and> gdrs L' = gdrs (list_remove h L) \<and>
    kd_handles e' = (kd_handles e)(g_fd r \<mapsto>
      remove1 (ucast (mh_handle (the (memhs L h)))) (listed_handles L (g_memhs r)))"
  by (rule driver_env.lib_unpin [OF driver_env.intro [OF assms(1)] assms(3,2,4,5)])

theorem unpin_over_driver_witness:
  "\<exists>L' e'. gdr_unpin_buffer (drv_os ex_env) 1 2 ex_api ex_kstate = Inr (0, L', e') \<and>
     memhs L' 2 = None \<and> kd_handles e' 3 = Some []"
proof -
  let ?r = "\<lparr>g_fd = 3, g_memhs = [2], g_page_size = 0x1000, g_page_mask = NOT 0xfff,
                    g_page_shift = 12, g_gdrdrv_version = GDRDRV_VERSION\<rparr>"
  have g: "gdrs ex_api 1 = Some ?r" by (simp add: ex_api_def)
  from unpin_over_driver [OF ex_env_doc ex_kd_inv ex_lib_sim g, of 2] show ?thesis
    by (auto simp: listed_handles_def)
qed





end
