(* ===== verification/Api_Map.thy ===== *)
theory Api_Map
  imports Api_Driver
begin

text \<open>
  \<open>gdr_map_v2\<close> and \<open>gdr_unmap\<close> over the driver: the request for a mapping type, the mmap, the
  query and the bookkeeping of the library as one operation, from the user's handle down to the
  physical pages that the mapping reaches.
\<close>

section \<open>What the kernel promises about mappings\<close>

text \<open>A new mapping has a VMA of its own; \<open>munmap\<close> meets live VMAs only.\<close>

definition kenv_maps :: "kenv \<Rightarrow> bool" where
  "kenv_maps E \<longleftrightarrow>
     (\<forall>e len v a. ke_place E e len = Some (v, a) \<longrightarrow> vmas (ks_drv e) v = None) \<and>
     (\<forall>e a len v. ke_vma_at E e a len = Some v \<longrightarrow> vmas (ks_drv e) v \<noteq> None)"

text \<open>
  The platform: device mappings are needed on ARM64 only, a region is recorded for a device mapping
  only there, and pages of a forced PCIe mapping are neither cacheable nor recorded as cached.
\<close>

definition mapping_types_ok :: "drv_cfg \<Rightarrow> drv \<Rightarrow> bool" where
  "mapping_types_ok c s \<longleftrightarrow> (cpu_must_use_device_mapping s \<longrightarrow> arch c = ARM64) \<and>
     (\<forall>p m. mrs s p = Some m \<longrightarrow>
        (mr_req_mapping_type m = GDR_MR_DEVICE \<longrightarrow> cpu_must_use_device_mapping s) \<and>
        (mr_force_pci m \<longrightarrow> mr_req_mapping_type m \<noteq> GDR_MR_CACHING \<and>
           \<not> gdr_mr_supports_cache_mapping c s m))"

lemma mapping_types_map_type:
  assumes "mapping_types_ok c s" and "mrs s p = Some m"
  shows "map_type_ok c s m"
  using assms unfolding mapping_types_ok_def map_type_ok_def
  by (auto simp: mmap_mapping_type_def split: if_splits)

lemma supports_cache_cong [simp]:
  "gdr_mr_supports_cache_mapping c (set_mr p n s) m = gdr_mr_supports_cache_mapping c s m"
  "gdr_mr_supports_cache_mapping c s (m\<lparr>mr_req_mapping_type := t\<rparr>) = gdr_mr_supports_cache_mapping c s m"
  "gdr_mr_supports_cache_mapping c (set_vma v a s) m = gdr_mr_supports_cache_mapping c s m"
  by (simp_all add: gdr_mr_supports_cache_mapping_def gdr_pfn_is_ram_def split: option.splits list.splits)

lemma mapping_types_req:
  assumes "mapping_types_ok c s" and "mrs s p = Some m"
    and "t = GDR_MR_CACHING \<longrightarrow> gdr_mr_supports_cache_mapping c s m"
    and "t = GDR_MR_DEVICE \<longrightarrow> cpu_must_use_device_mapping s"
  shows "mapping_types_ok c (set_mr p (m\<lparr>mr_req_mapping_type := t\<rparr>) s)"
  using assms unfolding mapping_types_ok_def by auto

lemma mapping_types_set_vma:
  "mapping_types_ok c s \<Longrightarrow> mapping_types_ok c (set_vma v a s)"
  unfolding mapping_types_ok_def by simp

section \<open>The region behind a handle of the library\<close>

definition region_of :: "kstate \<Rightarrow> int \<Rightarrow> u64 \<Rightarrow> nat \<Rightarrow> gdr_mr \<Rightarrow> bool" where
  "region_of e fd hnd p mr \<longleftrightarrow>
     (\<exists>f i. ks_fds e fd = Some f \<and> private_data (ks_drv e) f = Some i \<and> p \<in> set (mr_list i) \<and>
        mrs (ks_drv e) p = Some mr \<and> mr_handle mr = hnd)"

text \<open>
  From the kernel state \<open>e\<close> to \<open>e'\<close> the pages of the region behind the handle have been installed at
  \<open>addr\<close>, each 64 KB GPU page at its place, and the region records a mapping of type \<open>ty\<close>.
\<close>

definition maps_pages :: "kenv \<Rightarrow> gdr \<Rightarrow> memh \<Rightarrow> u64 \<Rightarrow> u64 \<Rightarrow> mr_type \<Rightarrow> kstate \<Rightarrow> kstate \<Rightarrow> bool" where
  "maps_pages E r m len addr ty e e' \<longleftrightarrow>
     (\<exists>p v mr mr' pt. region_of e (g_fd r) (ucast (mh_handle m)) p mr \<and>
        mr_page_table mr = Some pt \<and> unat len \<le> 65536 * pt_entries pt \<and>
        installs (ke_cfg E) v (ks_drv e) (ks_drv e') (gpu_map (pt_pages pt) 0 addr len) \<and>
        region_of e' (g_fd r) (ucast (mh_handle m)) p mr' \<and> mr_vma mr' = Some v \<and>
        mr_cpu_mapping_type mr' = ty)"

text \<open>A new mapping type in one handle object leaves the two lists in step.\<close>

lemma relabel_sim:
  assumes sim: "lib_sim handles L e" and inv: "lib_inv L'" and h: "memhs L h = Some m"
    and L': "memhs L' = (memhs L)(h \<mapsto> m\<lparr>mh_mapping_type := ty\<rparr>)" "gdrs L' = gdrs L"
    and hs: "handles e' = handles e"
  shows "lib_sim handles L' e'"
proof -
  have "listed_handles L' xs = listed_handles L xs" for xs
    using h by (simp add: listed_handles_def L')
  then show ?thesis using sim inv hs by (simp add: lib_sim_def L')
qed

lemma rounded_size_aligned: "page_gdr k r \<Longrightarrow> take_bit k (rounded_size r sz) = 0"
  by (simp add: page_gdr_def rounded_size_def flip: mask_eq_exp_minus_1)
    (intro bit_eqI, simp add: bit_simps)

lemma os_mmap: "sys_mmap (drv_os E) = drv_mmap E"
  by (simp add: drv_os_def)

locale map_env = driver_env +
  assumes maps: "kenv_maps E"
begin

lemma place_fresh: "ke_place E e len = Some (v, a) \<Longrightarrow> vmas (ks_drv e) v = None"
  using maps unfolding kenv_maps_def by blast

lemma unmap_live: "ke_vma_at E e a len = Some v \<Longrightarrow> vmas (ks_drv e) v \<noteq> None"
  using maps unfolding kenv_maps_def by blast

lemma sim_region:
  assumes inv: "kd_inv E e" and sim: "lib_sim kd_handles L e" and g: "gdrs L g = Some r"
    and h: "h \<in> set (g_memhs r)" and m: "memhs L h = Some m"
  obtains p mr where "region_of e (g_fd r) (ucast (mh_handle m)) p mr"
proof -
  obtain f i where f: "ks_fds e (g_fd r) = Some f" "private_data (ks_drv e) f = Some i"
    and hs: "listed_handles L (g_memhs r) = map (\<lambda>p. mr_handle (the (mrs (ks_drv e) p))) (mr_list i)"
    using handles_file [OF inv lib_sim_handles [OF sim g]] by metis
  have "ucast (mh_handle m) \<in> set (listed_handles L (g_memhs r))"
    using h m by (force simp: listed_handles_def)
  then obtain p where p: "p \<in> set (mr_list i)" "ucast (mh_handle m) = mr_handle (the (mrs (ks_drv e) p))"
    unfolding hs by auto
  obtain mr where "mrs (ks_drv e) p = Some mr" using inv_mr [OF kd_own [OF inv] f(2) p(1)] .
  then show ?thesis using that f p unfolding region_of_def by auto
qed

text \<open>A change of the driver's state that keeps lists and handles.\<close>

lemma kd_same:
  assumes inv: "kd_inv E e" and core: "core_inv (ke_cfg E) Map.empty s"
    and pd: "private_data s = private_data (ks_drv e)"
    and h: "\<And>p m. mrs (ks_drv e) p = Some m \<Longrightarrow> \<exists>n. mrs s p = Some n \<and> mr_handle n = mr_handle m"
  shows "kd_inv E (e\<lparr>ks_drv := s\<rparr>)" and "kd_handles (e\<lparr>ks_drv := s\<rparr>) = kd_handles e"
proof -
  show "kd_inv E (e\<lparr>ks_drv := s\<rparr>)" using inv core pd by (simp add: kd_inv_def)
  have "map (\<lambda>p. mr_handle (the (mrs s p))) (mr_list i) = map (\<lambda>p. mr_handle (the (mrs (ks_drv e) p))) (mr_list i)"
    if i: "private_data (ks_drv e) f = Some i" for f i
  proof (rule map_cong [OF refl])
    fix p assume "p \<in> set (mr_list i)"
    then obtain m where "mrs (ks_drv e) p = Some m" using inv_mr [OF kd_own [OF inv] i] by metis
    then show "mr_handle (the (mrs s p)) = mr_handle (the (mrs (ks_drv e) p))" using h by fastforce
  qed
  then have "file_handles s f = file_handles (ks_drv e) f" for f
    using pd by (cases "private_data (ks_drv e) f") (simp_all add: file_handles_def)
  then show "kd_handles (e\<lparr>ks_drv := s\<rparr>) = kd_handles e"
    by (intro ext) (simp add: kd_handles_def split: option.splits)
qed

text \<open>The request for a mapping type: refused, or recorded in the region and in nothing else.\<close>

lemma request_step:
  assumes inv: "kd_inv E e" and rg: "region_of e (g_fd r) (ucast (mh_handle m)) p mr"
    and ty: "mapping_types_ok (ke_cfg E) (ks_drv e)" and ver: "g_gdrdrv_version r = GDRDRV_VERSION"
  shows "\<exists>ok st e1. map_request (drv_os E) r m t e = Inr (ok, st, e1) \<and>
    (\<not> ok \<and> st \<noteq> 0 \<and> e1 = e \<or>
     ok \<and> e1 = e\<lparr>ks_drv := set_mr p (mr\<lparr>mr_req_mapping_type := t\<rparr>) (ks_drv e)\<rparr> \<and> kd_inv E e1 \<and>
       kd_handles e1 = kd_handles e \<and> mapping_types_ok (ke_cfg E) (ks_drv e1))"
proof -
  let ?s = "ks_drv e" and ?u = "stack_arg\<lparr>ua_req := \<lparr>rq_handle = ucast (mh_handle m), rq_mapping_type = mr_type_val t\<rparr>\<rparr>"
  obtain f i where f: "ks_fds e (g_fd r) = Some f" and i: "private_data ?s f = Some i"
    and p: "p \<in> set (mr_list i)" "mrs ?s p = Some mr" and h: "mr_handle mr = ucast (mh_handle m)"
    using rg by (auto simp: region_of_def)
  have core: "core_inv (ke_cfg E) Map.empty ?s" using inv by (simp add: kd_inv_def)
  have tg: "gdrdrv_check_same_process i (ke_tgid E)"
    using kd_file [OF inv f] i by (auto simp: gdrdrv_check_same_process_def)
  have u: "ua_readable ?u" "rq_handle (ua_req ?u) = mr_handle mr"
    "mr_type_of (rq_mapping_type (ua_req ?u)) = Some t"
    by (simp_all add: stack_arg_def h)
  note ans = req_type_answer [OF core i p u]
  have io: "gdrdrv_ioctl (ke_cfg E) (ke_ext E e) (ke_tgid E) f GDRDRV_IOC_REQ_MAPPING_TYPE ?u ?s =
      gdrdrv_req_mapping_type (ke_cfg E) f ?u ?s"
    using i tg by (simp add: gdrdrv_ioctl_def ioc_defs IOC_TYPE_def)
  have rq: "map_request (drv_os E) r m t e =
      bindE (gdrdrv_req_mapping_type (ke_cfg E) f ?u ?s) (\<lambda>(rc, _, s).
        Inr (sys_ret rc = 0, if sys_ret rc \<noteq> 0 then errno_of rc else 0, e\<lparr>ks_drv := s\<rparr>))"
    using f io ver by (simp add: map_request_def drv_os_def drv_ioctl_def api_versions GDRDRV_VERSION_def
        bindE_assoc split_def cong: if_cong)
  have e: "e\<lparr>ks_drv := ?s\<rparr> = e" by simp
  let ?e1 = "e\<lparr>ks_drv := set_mr p (mr\<lparr>mr_req_mapping_type := t\<rparr>) ?s\<rparr>"
  show ?thesis
  proof (cases "gdrdrv_req_mapping_type (ke_cfg E) f ?u ?s \<in> {Inr (- EBUSY, NoOut, ?s), Inr (- EOPNOTSUPP, NoOut, ?s)}")
    case True
    then show ?thesis unfolding rq by (auto simp: sys_ret_def errno_of_def errno_defs)
  next
    case False
    then have ok: "gdrdrv_req_mapping_type (ke_cfg E) f ?u ?s = Inr (0, NoOut, ks_drv ?e1)"
      and acc: "t = GDR_MR_CACHING \<longrightarrow> gdr_mr_supports_cache_mapping (ke_cfg E) ?s mr"
        "t = GDR_MR_DEVICE \<longrightarrow> cpu_must_use_device_mapping ?s"
      unfolding ans by (auto split: if_splits)
    have c1: "core_inv (ke_cfg E) Map.empty (set_mr p (mr\<lparr>mr_req_mapping_type := t\<rparr>) ?s)"
      using ioctl_core [OF inv io [unfolded ok]] by simp
    have "kd_inv E ?e1" "kd_handles ?e1 = kd_handles e"
      by (rule kd_same [OF inv c1]; use p(2) in auto)+
    then show ?thesis unfolding rq ok using mapping_types_req [OF ty p(2) acc] by (auto simp: sys_ret_def)
  qed
qed

text \<open>The query that follows the mmap.\<close>

lemma info_step:
  assumes inv: "kd_inv E e" and rg: "region_of e (g_fd r) (ucast (mh_handle m)) p mr"
    and g: "gdrs L g = Some r" and m: "memhs L h = Some m" and ver: "g_gdrdrv_version r = GDRDRV_VERSION"
  shows "\<exists>info. gdr_get_info_v2 (drv_os E) g h i0 L e = Inr (0, info, e) \<and>
    mapping_type info = mr_type_val (mr_cpu_mapping_type mr)"
proof -
  let ?s = "ks_drv e" and ?u = "stack_arg\<lparr>ua_info_v2 := (ua_info_v2 stack_arg)\<lparr>gv_handle := ucast (mh_handle m)\<rparr>\<rparr>"
  obtain f i where f: "ks_fds e (g_fd r) = Some f" and i: "private_data ?s f = Some i"
    and p: "p \<in> set (mr_list i)" "mrs ?s p = Some mr" and h: "mr_handle mr = ucast (mh_handle m)"
    using rg by (auto simp: region_of_def)
  have core: "core_inv (ke_cfg E) Map.empty ?s" using inv by (simp add: kd_inv_def)
  have tg: "gdrdrv_check_same_process i (ke_tgid E)"
    using kd_file [OF inv f] i by (auto simp: gdrdrv_check_same_process_def)
  have "ua_readable ?u" "ua_writable ?u" "gv_handle (ua_info_v2 ?u) = mr_handle mr"
    by (simp_all add: stack_arg_def h)
  note ans = info_v2_answer [OF core i p this]
  have io: "gdrdrv_ioctl (ke_cfg E) (ke_ext E e) (ke_tgid E) f GDRDRV_IOC_GET_INFO_V2 ?u ?s =
      gdrdrv_get_info_v2 f ?u ?s"
    using i tg by (simp add: gdrdrv_ioctl_def ioc_defs IOC_TYPE_def)
  show ?thesis
    using f io ver g m ans
    by (simp add: gdr_get_info_v2_def drv_os_def drv_ioctl_def memh_at_def gdr_at_def api_versions
        GDRDRV_VERSION_def sys_ret_def info_v2_result_def info_of_v2_def)
qed

text \<open>
  The mmap handler on a new VMA whose offset is the handle of a region: it returns, the driver's
  state is in order with the VMA or, on an error, without it, and on success the pages of that
  region are installed.
\<close>

lemma mmap_placed:
  assumes inv: "kd_inv E e" and rg: "region_of e fd (vm_pgoff a) p mr" and f: "ks_fds e fd = Some f"
    and ty: "mapping_types_ok (ke_cfg E) (ks_drv e)" and few: "entries_ok (ks_drv e)"
    and fresh: "vmas (ks_drv e) v = None" and a: "vm_file a = Some f"
    and al: "take_bit (PAGE_SHIFT (ke_cfg E)) (vm_end a - vm_start a) = 0"
  shows "\<exists>rc s1. gdrdrv_mmap (ke_cfg E) (ke_remap E) (ke_tgid E) f v (set_vma v a (ks_drv e)) = Inr (rc, s1) \<and>
    (let e' = e\<lparr>ks_drv := if rc = 0 then s1 else drop_vma v s1\<rparr>
     in kd_inv E e' \<and> kd_handles e' = kd_handles e \<and>
       (rc = 0 \<longrightarrow> (\<exists>pt mr'. mr_page_table mr = Some pt \<and>
          unat (vm_end a - vm_start a) \<le> 65536 * pt_entries pt \<and>
          installs (ke_cfg E) v (ks_drv e) s1 (gpu_map (pt_pages pt) 0 (vm_start a) (vm_end a - vm_start a)) \<and>
          region_of e' fd (vm_pgoff a) p mr' \<and> mr_vma mr' = Some v)))"
proof -
  let ?s = "ks_drv e" and ?c = "ke_cfg E"
  let ?t = "set_vma v a ?s"
  obtain i where i: "private_data ?s f = Some i"
    and p: "p \<in> set (mr_list i)" "mrs ?s p = Some mr" and h: "mr_handle mr = vm_pgoff a"
    using rg f by (auto simp: region_of_def)
  have core: "core_inv ?c Map.empty ?s" using inv by (simp add: kd_inv_def)
  have core0: "core_inv ?c Map.empty ?t" by (rule set_vma_core [OF core fresh])
  then have own0: "own_inv {} ?t" by (simp add: core_inv_def)
  have types: "\<forall>q n. mrs ?s q = Some n \<longrightarrow> map_type_ok ?c ?s n"
    using mapping_types_map_type [OF ty] by blast
  have types0: "\<forall>q n. mrs ?t q = Some n \<longrightarrow> map_type_ok ?c ?t n"
    using mapping_types_map_type [OF mapping_types_set_vma [OF ty]] by blast
  have va0: "vmas ?t v = Some a" by simp
  have i0: "private_data ?t f = Some i" using i by simp
  have pick: "pick_mr ?t (vm_pgoff a) (mr_list i) = Some p"
    using core_pick [OF core0, of f i p mr] i p h by simp
  obtain rc s1 where run: "gdrdrv_mmap ?c (ke_remap E) (ke_tgid E) f v ?t = Inr (rc, s1)"
    and pd: "private_data s1 = private_data ?t"
    and cs: "mrs s1 = mrs ?t \<or>
     (\<exists>i p m vm mp t. private_data ?t f = Some i \<and> pick_mr ?t (vm_pgoff a) (mr_list i) = Some p \<and>
        mrs ?t p = Some m \<and> mr_sem m = SemFree \<and> (t \<noteq> GDR_MR_NONE \<longrightarrow> rc = 0 \<and> vm = Some v) \<and>
        mrs s1 = (mrs ?t)(p \<mapsto> m\<lparr>mr_vma := vm, mr_mapping := mp, mr_cpu_mapping_type := t\<rparr>))"
    using mmap_effect [OF own0 cfg va0 al types0, where remap = "ke_remap E" and tg = "ke_tgid E" and f = f]
    by blast
  let ?w = "if rc = 0 then s1 else drop_vma v s1"
  have core2: "core_inv ?c Map.empty ?w"
    by (rule mmap_core [OF core cfg fresh a _ al types run]) (use i p h in \<open>auto simp: named_region_def\<close>)
  have keep: "\<exists>n. mrs ?w q = Some n \<and> mr_handle n = mr_handle k" if "mrs ?s q = Some k" for q k
    using cs that by (auto split: if_splits)
  have k: "kd_inv E (e\<lparr>ks_drv := ?w\<rparr>)" "kd_handles (e\<lparr>ks_drv := ?w\<rparr>) = kd_handles e"
    by (rule kd_same [OF inv core2 _ keep]; use pd in simp)+
  have "\<exists>pt mr'. mr_page_table mr = Some pt \<and> unat (vm_end a - vm_start a) \<le> 65536 * pt_entries pt \<and>
      installs ?c v ?s s1 (gpu_map (pt_pages pt) 0 (vm_start a) (vm_end a - vm_start a)) \<and>
      region_of (e\<lparr>ks_drv := s1\<rparr>) fd (vm_pgoff a) p mr' \<and> mr_vma mr' = Some v" if rc: "rc = 0"
  proof -
    have few0: "entries_ok ?t" using few by (simp add: entries_ok_def)
    show ?thesis
      using mmap_installs [OF cfg i0 inv_file [OF own0 i0] few0 va0 run [unfolded rc]] pick p f i h pd
      by (auto simp: installs_def region_of_def)
  qed
  with run k show ?thesis by (auto simp: Let_def)
qed

text \<open>
  The mmap of a region that a handle names: refused with an error number, or the pages of the
  region are installed at the address returned and the region records the mapping.
\<close>

lemma mmap_step:
  assumes inv: "kd_inv E e" and rg: "region_of e fd hnd p mr"
    and ty: "mapping_types_ok (ke_cfg E) (ks_drv e)" and few: "entries_ok (ks_drv e)"
    and al: "take_bit (PAGE_SHIFT (ke_cfg E)) len = 0" and off: "drop_bit (PAGE_SHIFT (ke_cfg E)) off = hnd"
  shows "\<exists>res err e'. drv_mmap E len fd off e = Inr (res, err, e') \<and> kd_inv E e' \<and>
    kd_handles e' = kd_handles e \<and>
    (res = None \<and> err \<noteq> 0 \<or>
     (\<exists>va v pt mr'. res = Some va \<and> mr_page_table mr = Some pt \<and> unat len \<le> 65536 * pt_entries pt \<and>
        installs (ke_cfg E) v (ks_drv e) (ks_drv e') (gpu_map (pt_pages pt) 0 va len) \<and>
        region_of e' fd hnd p mr' \<and> mr_vma mr' = Some v))"
proof (cases "ke_place E e len")
  case None
  then show ?thesis using inv rg by (auto simp: region_of_def drv_mmap_def ENOMEM_def)
next
  case (Some pl)
  obtain v a0 where pl: "ke_place E e len = Some (v, a0)" using Some by (cases pl) simp
  obtain f where f: "ks_fds e fd = Some f" using rg by (auto simp: region_of_def)
  define a where "a = a0\<lparr>vm_end := vm_start a0 + len, vm_pgoff := hnd, vm_file := Some f\<rparr>"
  have a: "vm_end a - vm_start a = len" "vm_pgoff a = hnd" "vm_file a = Some f" by (simp_all add: a_def)
  obtain rc s1 where run: "gdrdrv_mmap (ke_cfg E) (ke_remap E) (ke_tgid E) f v (set_vma v a (ks_drv e)) = Inr (rc, s1)"
    and k: "let e' = e\<lparr>ks_drv := if rc = 0 then s1 else drop_vma v s1\<rparr>
     in kd_inv E e' \<and> kd_handles e' = kd_handles e \<and>
       (rc = 0 \<longrightarrow> (\<exists>pt mr'. mr_page_table mr = Some pt \<and> unat len \<le> 65536 * pt_entries pt \<and>
          installs (ke_cfg E) v (ks_drv e) s1 (gpu_map (pt_pages pt) 0 (vm_start a) len) \<and>
          region_of e' fd hnd p mr' \<and> mr_vma mr' = Some v))"
    using mmap_placed [OF inv _ f ty few place_fresh [OF pl] a(3), of p mr] rg al unfolding a(1,2) by blast
  have "drv_mmap E len fd off e = Inr (if rc = 0 then Some (vm_start a) else None, if rc = 0 then 0 else - rc,
      e\<lparr>ks_drv := if rc = 0 then s1 else drop_vma v s1\<rparr>)"
    using f pl run by (simp add: drv_mmap_def off a_def)
  with k show ?thesis by (cases "rc = 0") (auto simp: Let_def)
qed

lemma munmap_step:
  assumes inv: "kd_inv E e"
  shows "\<exists>rc err e'. drv_munmap E a len e = Inr (rc, err, e') \<and> kd_inv E e' \<and> kd_handles e' = kd_handles e"
proof (cases "ke_vma_at E e a len")
  case None
  then show ?thesis using inv by (simp add: drv_munmap_def)
next
  case (Some v)
  obtain b where b: "vmas (ks_drv e) v = Some b" using unmap_live [OF Some] by blast
  obtain s1 where s1: "gdrdrv_vma_close v (ks_drv e) = Inr s1" "private_data s1 = private_data (ks_drv e)"
    "mrs s1 = (case vm_file b of None \<Rightarrow> mrs (ks_drv e)
     | Some f \<Rightarrow> (case private_data (ks_drv e) f of None \<Rightarrow> mrs (ks_drv e)
       | Some i \<Rightarrow> (case pick_mr (ks_drv e) (vm_pgoff b) (mr_list i) of None \<Rightarrow> mrs (ks_drv e)
         | Some p \<Rightarrow> (mrs (ks_drv e))(p \<mapsto> (the (mrs (ks_drv e) p))
             \<lparr>mr_vma := None, mr_cpu_mapping_type := GDR_MR_NONE\<rparr>))))"
    using vma_close_inv [OF kd_own [OF inv] b] by blast
  have core: "core_inv (ke_cfg E) Map.empty (drop_vma v s1)"
    using munmap_core [OF _ b s1(1)] inv by (simp add: kd_inv_def)
  have keep: "\<exists>n. mrs (drop_vma v s1) q = Some n \<and> mr_handle n = mr_handle k"
    if "mrs (ks_drv e) q = Some k" for q k
    using that s1(3) by (auto split: option.splits)
  have "kd_inv E (e\<lparr>ks_drv := drop_vma v s1\<rparr>)" "kd_handles (e\<lparr>ks_drv := drop_vma v s1\<rparr>) = kd_handles e"
    by (rule kd_same [OF inv core _ keep]; use s1(2) in simp)+
  then show ?thesis using Some s1(1) by (simp add: drv_munmap_def)
qed

text \<open>
  The last part of \<open>gdr_map_v2\<close>, on the region that has just been mapped: the mapping is accepted
  and recorded, or undone.
\<close>

lemma check_step:
  assumes inv: "kd_inv E e" and sim: "lib_sim kd_handles L e"
    and rg: "region_of e (g_fd r) (ucast (mh_handle m)) p mr"
    and g: "gdrs L g = Some r" and m: "memhs L h = Some m" and ver: "g_gdrdrv_version r = GDRDRV_VERSION"
    and t: "mapping_type_of_flags flags = Some t"
  shows "\<exists>ret va' L' e'. map_check (drv_os E) g h flags t a len L e = Inr (ret, va', L', e') \<and>
    kd_inv E e' \<and> lib_sim kd_handles L' e' \<and>
    (ret \<noteq> 0 \<and> L' = L \<or>
     ret = 0 \<and> va' = Some a \<and> e' = e \<and> mr_cpu_mapping_type mr \<noteq> GDR_MR_NONE \<and>
       (flags \<noteq> GDR_MAP_FLAG_DEFAULT \<longrightarrow> mr_cpu_mapping_type mr = t) \<and>
       memhs L' h = Some (m\<lparr>mh_mapping_type := mr_type_val (mr_cpu_mapping_type mr)\<rparr>))"
proof -
  let ?ty = "mr_type_val (mr_cpu_mapping_type mr)"
  obtain info where info: "gdr_get_info_v2 (drv_os E) g h zero_info L e = Inr (0, info, e)"
    and ty: "mapping_type info = ?ty"
    using info_step [OF inv rg g m ver] by blast
  obtain rc err e1 where mu: "drv_munmap E a len e = Inr (rc, err, e1)" "kd_inv E e1"
    and h1: "kd_handles e1 = kd_handles e"
    using munmap_step [OF inv] by blast
  have sim1: "lib_sim kd_handles L e1" using sim h1 by (simp add: lib_sim_def)
  have undo: "\<exists>e'. map_undo (drv_os E) st a len L e = Inr (st, Some a, L, e') \<and> kd_inv E e' \<and>
      lib_sim kd_handles L e'" for st
    using mu inv sim sim1 by (simp add: map_undo_def drv_os_def)
  have mapped: "gdr_is_mapped ?ty = (mr_cpu_mapping_type mr \<noteq> GDR_MR_NONE)"
    by (cases "mr_cpu_mapping_type mr") (simp_all add: gdr_is_mapped_def GDR_MAPPING_TYPE_NONE_def)
  have lt: "unat ?ty < length (gdr_mapping_type_counters L)"
    using sim by (cases "mr_cpu_mapping_type mr")
      (simp_all add: lib_sim_def lib_inv_def counters_ok_def GDR_MAPPING_TYPE_MAX_def)
  show ?thesis
  proof (cases "mr_cpu_mapping_type mr = GDR_MR_NONE \<or>
      flags \<noteq> GDR_MAP_FLAG_DEFAULT \<and> mr_cpu_mapping_type mr \<noteq> t")
    case True
    then have "map_check (drv_os E) g h flags t a len L e =
        map_undo (drv_os E) (if mr_cpu_mapping_type mr = GDR_MR_NONE then EAGAIN else EINVAL) a len L e"
      using info mapped by (auto simp: map_check_def ty)
    then show ?thesis
      using undo [of "if mr_cpu_mapping_type mr = GDR_MR_NONE then EAGAIN else EINVAL"]
      by (auto simp: EAGAIN_def EINVAL_def)
  next
    case False
    define L' where "L' = L\<lparr>memhs := (memhs L)(h \<mapsto> m\<lparr>mh_mapping_type := ?ty\<rparr>),
      gdr_mapping_type_counters := (gdr_mapping_type_counters L)
        [unat ?ty := gdr_mapping_type_counters L ! unat ?ty + 1]\<rparr>"
    have add: "add_counter ?ty 1 (L\<lparr>memhs := (memhs L)(h \<mapsto> m\<lparr>mh_mapping_type := ?ty\<rparr>)\<rparr>) = Inr L'"
      using lt by (simp add: add_counter_Inr L'_def)
    have run: "map_check (drv_os E) g h flags t a len L e = Inr (0, Some a, L', e)"
      using info mapped False m add by (auto simp: map_check_def ty memh_at_def)
    have "map_adds flags h L L'"
      unfolding map_adds_def using m add mapped False t by blast
    then have "lib_inv L'" using map_adds_inv sim by (simp add: lib_sim_def)
    then have "lib_sim kd_handles L' e"
      by (rule relabel_sim [OF sim _ m, where ty = ?ty]) (simp_all add: L'_def)
    then show ?thesis using run inv False by (auto simp: L'_def)
  qed
qed

text \<open>What follows a successful mmap of the region.\<close>

lemma check_maps:
  assumes inv: "kd_inv E e2" and sim: "lib_sim kd_handles L e2" and g: "gdrs L g = Some r"
    and m: "memhs L h = Some m" and ver: "g_gdrdrv_version r = GDRDRV_VERSION"
    and t: "mapping_type_of_flags flags = Some t"
    and rg: "region_of e (g_fd r) (ucast (mh_handle m)) p mr"
    and a: "mr_page_table mr = Some pt" "unat len \<le> 65536 * pt_entries pt"
      "installs (ke_cfg E) v (ks_drv e) (ks_drv e2) (gpu_map (pt_pages pt) 0 a len)"
      "region_of e2 (g_fd r) (ucast (mh_handle m)) p mr'" "mr_vma mr' = Some v"
  shows "\<exists>ret va' L' e'. map_check (drv_os E) g h flags t a len L e2 = Inr (ret, va', L', e') \<and>
    kd_inv E e' \<and> lib_sim kd_handles L' e' \<and>
    (ret \<noteq> 0 \<and> L' = L \<or>
     (\<exists>a ty. ret = 0 \<and> va' = Some a \<and> ty \<noteq> GDR_MR_NONE \<and>
        (flags \<noteq> GDR_MAP_FLAG_DEFAULT \<longrightarrow> mapping_type_of_flags flags = Some ty) \<and>
        memhs L' h = Some (m\<lparr>mh_mapping_type := mr_type_val ty\<rparr>) \<and> maps_pages E r m len a ty e e'))"
proof -
  have "maps_pages E r m len a (mr_cpu_mapping_type mr') e e2"
    unfolding maps_pages_def using rg a by blast
  moreover obtain ret va' L' e' where "map_check (drv_os E) g h flags t a len L e2 = Inr (ret, va', L', e')"
      "kd_inv E e'" "lib_sim kd_handles L' e'"
      "ret \<noteq> 0 \<and> L' = L \<or>
       ret = 0 \<and> va' = Some a \<and> e' = e2 \<and> mr_cpu_mapping_type mr' \<noteq> GDR_MR_NONE \<and>
         (flags \<noteq> GDR_MAP_FLAG_DEFAULT \<longrightarrow> mr_cpu_mapping_type mr' = t) \<and>
         memhs L' h = Some (m\<lparr>mh_mapping_type := mr_type_val (mr_cpu_mapping_type mr')\<rparr>)"
    using check_step [OF inv sim a(4) g m ver t, of a len] by metis
  ultimately show ?thesis using t by metis
qed

text \<open>\<open>gdr_map_v2\<close> as a whole.\<close>

lemma map_sim:
  assumes inv: "kd_inv E e" and sim: "lib_sim kd_handles L e" and g: "gdrs L g = Some r"
    and pg: "page_gdr (PAGE_SHIFT (ke_cfg E)) r" and ver: "g_gdrdrv_version r = GDRDRV_VERSION"
    and h: "h \<in> set (g_memhs r)" and m: "memhs L h = Some m"
    and ty: "mapping_types_ok (ke_cfg E) (ks_drv e)" and few: "entries_ok (ks_drv e)"
  shows "\<exists>ret va' L' e'. gdr_map_v2 (drv_os E) g h sz flags L e = Inr (ret, va', L', e') \<and>
    kd_inv E e' \<and> lib_sim kd_handles L' e' \<and>
    (ret \<noteq> 0 \<and> L' = L \<or>
     (\<exists>a ty. ret = 0 \<and> va' = Some a \<and> ty \<noteq> GDR_MR_NONE \<and>
        (flags \<noteq> GDR_MAP_FLAG_DEFAULT \<longrightarrow> mapping_type_of_flags flags = Some ty) \<and>
        memhs L' h = Some (m\<lparr>mh_mapping_type := mr_type_val ty\<rparr>) \<and>
        maps_pages E r m (rounded_size r sz) a ty e e'))"
proof (cases "gdr_is_mapped (mh_mapping_type m) \<or> mapping_type_of_flags flags = None")
  case True
  then show ?thesis
    using inv sim m by (auto simp: gdr_map_v2_def memh_at_def EAGAIN_def EINVAL_def)
next
  case False
  then obtain t where t: "mapping_type_of_flags flags = Some t" by blast
  let ?hnd = "ucast (mh_handle m)" and ?len = "rounded_size r sz"
  obtain p mr where rg: "region_of e (g_fd r) ?hnd p mr" using sim_region [OF inv sim g h m] .
  obtain ok st e1 where rq: "map_request (drv_os E) r m t e = Inr (ok, st, e1)"
    and c1: "\<not> ok \<and> st \<noteq> 0 \<and> e1 = e \<or>
     ok \<and> e1 = e\<lparr>ks_drv := set_mr p (mr\<lparr>mr_req_mapping_type := t\<rparr>) (ks_drv e)\<rparr> \<and> kd_inv E e1 \<and>
       kd_handles e1 = kd_handles e \<and> mapping_types_ok (ke_cfg E) (ks_drv e1)"
    using request_step [where t = t, OF inv rg ty ver] by blast
  have run: "gdr_map_v2 (drv_os E) g h sz flags L e =
      (if \<not> ok then Inr (st, None, L, e1)
       else bindE (drv_mmap E ?len (g_fd r) (magic_off r m) e1) (\<lambda>(mmio, err, e2).
         case mmio of None \<Rightarrow> Inr (err, None, L, e2)
         | Some a \<Rightarrow> map_check (drv_os E) g h flags t a ?len L e2))"
    using False t m g rq by (simp add: gdr_map_v2_def memh_at_def gdr_at_def os_mmap)
  show ?thesis
  proof (cases ok)
    case False
    then show ?thesis using c1 run inv sim by auto
  next
    case True
    let ?mr = "mr\<lparr>mr_req_mapping_type := t\<rparr>"
    have e1: "ks_drv e1 = set_mr p ?mr (ks_drv e)" "ks_fds e1 = ks_fds e" "kd_inv E e1"
      "kd_handles e1 = kd_handles e" "mapping_types_ok (ke_cfg E) (ks_drv e1)"
      using c1 True by auto
    have rg1: "region_of e1 (g_fd r) ?hnd p ?mr" using rg by (auto simp: region_of_def e1(1,2))
    have few1: "entries_ok (ks_drv e1)"
      using few rg by (auto simp: entries_ok_def e1(1) region_of_def)
    obtain res err e2 where mm: "drv_mmap E ?len (g_fd r) (magic_off r m) e1 = Inr (res, err, e2)"
      and e2: "kd_inv E e2" "kd_handles e2 = kd_handles e1"
      and c2: "res = None \<and> err \<noteq> 0 \<or>
     (\<exists>va v pt mr'. res = Some va \<and> mr_page_table ?mr = Some pt \<and> unat ?len \<le> 65536 * pt_entries pt \<and>
        installs (ke_cfg E) v (ks_drv e1) (ks_drv e2) (gpu_map (pt_pages pt) 0 va ?len) \<and>
        region_of e2 (g_fd r) ?hnd p mr' \<and> mr_vma mr' = Some v)"
      using mmap_step [OF e1(3) rg1 e1(5) few1 rounded_size_aligned [OF pg, of sz] magic_off_handle [OF pg, of m]]
      by (elim exE conjE) (rule that)
    have sim2: "lib_sim kd_handles L e2" using sim e1(4) e2(2) by (simp add: lib_sim_def)
    from c2 show ?thesis
    proof
      assume "res = None \<and> err \<noteq> 0"
      then show ?thesis using run True mm e2(1) sim2 by simp
    next
      assume "\<exists>va v pt mr'. res = Some va \<and> mr_page_table ?mr = Some pt \<and>
        unat ?len \<le> 65536 * pt_entries pt \<and>
        installs (ke_cfg E) v (ks_drv e1) (ks_drv e2) (gpu_map (pt_pages pt) 0 va ?len) \<and>
        region_of e2 (g_fd r) ?hnd p mr' \<and> mr_vma mr' = Some v"
      then obtain a v pt mr' where a: "res = Some a" "mr_page_table mr = Some pt"
          "unat ?len \<le> 65536 * pt_entries pt"
          "installs (ke_cfg E) v (ks_drv e) (ks_drv e2) (gpu_map (pt_pages pt) 0 a ?len)"
          "region_of e2 (g_fd r) ?hnd p mr'" "mr_vma mr' = Some v"
        by (auto simp: installs_def e1(1))
      have "gdr_map_v2 (drv_os E) g h sz flags L e = map_check (drv_os E) g h flags t a ?len L e2"
        using run True mm a(1) by simp
      then show ?thesis using check_maps [OF e2(1) sim2 g m ver t rg a(2-6)] by simp
    qed
  qed
qed

text \<open>\<open>gdr_unmap\<close> of a mapped handle, at the range of its VMA.\<close>

lemma unmap_sim:
  assumes inv: "kd_inv E e" and sim: "lib_sim kd_handles L e" and g: "gdrs L g = Some r"
    and m: "memhs L h = Some m" "gdr_is_mapped (mh_mapping_type m)"
    and rg: "region_of e (g_fd r) (ucast (mh_handle m)) p mr"
    and mp: "gdr_mr_is_mapped mr" "mr_vma mr = Some v"
    and at: "ke_vma_at E e a (rounded_size r sz) = Some v"
  shows "\<exists>L' e' mr'. gdr_unmap (drv_os E) g h a sz L e = Inr (0, L', e') \<and> kd_inv E e' \<and>
    lib_sim kd_handles L' e' \<and> memhs L' h = Some (m\<lparr>mh_mapping_type := GDR_MAPPING_TYPE_NONE\<rparr>) \<and>
    vmas (ks_drv e') v = None \<and> region_of e' (g_fd r) (ucast (mh_handle m)) p mr' \<and>
    \<not> gdr_mr_is_mapped mr' \<and> mr_page_table mr' = mr_page_table mr"
proof -
  let ?s = "ks_drv e" and ?mr = "mr\<lparr>mr_vma := None, mr_cpu_mapping_type := GDR_MR_NONE\<rparr>"
  obtain f i where f: "ks_fds e (g_fd r) = Some f" and i: "private_data ?s f = Some i"
    and p: "p \<in> set (mr_list i)" "mrs ?s p = Some mr" and hnd: "mr_handle mr = ucast (mh_handle m)"
    using rg by (auto simp: region_of_def)
  have core: "core_inv (ke_cfg E) Map.empty ?s" using inv by (simp add: kd_inv_def)
  obtain b where b: "vmas ?s v = Some b" "vm_file b = Some f" "vm_pgoff b = mr_handle mr"
    using core i p mp unfolding core_inv_def vma_link_def by blast
  obtain s1 where cl: "gdrdrv_vma_close v ?s = Inr s1" and pd: "private_data s1 = private_data ?s"
    and mrs: "mrs s1 = (mrs ?s)(p \<mapsto> ?mr)"
    using vma_close_inv [OF kd_own [OF inv] b(1)] b(2,3) i core_pick [OF core i p] p(2) by auto
  let ?e' = "e\<lparr>ks_drv := drop_vma v s1\<rparr>"
  have core1: "core_inv (ke_cfg E) Map.empty (drop_vma v s1)" by (rule munmap_core [OF core b(1) cl])
  have keep: "\<exists>n. mrs (drop_vma v s1) q = Some n \<and> mr_handle n = mr_handle k"
    if "mrs ?s q = Some k" for q k
    using that mrs p(2) by auto
  have k: "kd_inv E ?e'" "kd_handles ?e' = kd_handles e"
    by (rule kd_same [OF inv core1 _ keep]; use pd in simp)+
  have call: "drv_munmap E a (rounded_size r sz) e = Inr (0, 0, ?e')"
    using at cl by (simp add: drv_munmap_def)
  have lt: "unat (mh_mapping_type m) < length (gdr_mapping_type_counters L)"
    using sim m(1) by (simp add: lib_sim_def lib_inv_def counters_ok_def)
  define L1 where "L1 = L\<lparr>gdr_mapping_type_counters := (gdr_mapping_type_counters L)
      [unat (mh_mapping_type m) := gdr_mapping_type_counters L ! unat (mh_mapping_type m) + -1]\<rparr>"
  define L' where "L' = L1\<lparr>memhs := (memhs L1)(h \<mapsto> m\<lparr>mh_mapping_type := GDR_MAPPING_TYPE_NONE\<rparr>)\<rparr>"
  have add: "add_counter (mh_mapping_type m) (-1) L = Inr L1" using lt by (simp add: add_counter_Inr L1_def)
  have run: "gdr_unmap (drv_os E) g h a sz L e = Inr (0, L', ?e')"
    using m g call add by (simp add: gdr_unmap_def memh_at_def gdr_at_def drv_os_def L'_def)
  have "unmap_drops h L L'" unfolding unmap_drops_def using m add L'_def by blast
  then have "lib_inv L'" using unmap_drops_inv sim by (simp add: lib_sim_def)
  then have "lib_sim kd_handles L' ?e'"
    by (rule relabel_sim [OF sim _ m(1), where ty = GDR_MAPPING_TYPE_NONE])
      (simp_all add: L'_def L1_def k(2))
  moreover have "region_of ?e' (g_fd r) (ucast (mh_handle m)) p ?mr"
    using f i p hnd pd mrs by (simp add: region_of_def)
  ultimately show ?thesis
    using run k(1) by (intro exI [of _ L'] exI [of _ ?e'] exI [of _ ?mr])
      (simp add: L'_def gdr_mr_is_mapped_def)
qed

end

section \<open>Mapping and unmapping over the driver\<close>

lemma map_envI: "kenv_doc E \<Longrightarrow> kenv_maps E \<Longrightarrow> map_env E"
  by (simp add: map_env_def driver_env_def map_env_axioms_def)

lemma ex_env_maps: "kenv_maps ex_env"
  by (auto simp: kenv_maps_def ex_env_def split: if_splits)

interpretation exm: map_env ex_env
  by (rule map_envI [OF ex_env_doc ex_env_maps])

text \<open>The example: one pinned region of three GPU pages, mapped by the library.\<close>

definition ex_gdr0 :: gdr where
  "ex_gdr0 = \<lparr>g_fd = 3, g_memhs = [2], g_page_size = 0x1000, g_page_mask = NOT 0xfff,
     g_page_shift = 12, g_gdrdrv_version = GDRDRV_VERSION\<rparr>"

definition ex_memh0 :: memh where
  "ex_memh0 = \<lparr>mh_handle = 0, mh_mapping_type = GDR_MAPPING_TYPE_NONE\<rparr>"

definition ex_map_run :: "(int \<times> u64 option \<times> lib \<times> kstate) run" where
  "ex_map_run = gdr_map_v2 (drv_os ex_env) 1 2 0x27001 GDR_MAP_FLAG_DEFAULT ex_api ex_kstate"

lemma ex_map_objects:
  "gdrs ex_api 1 = Some ex_gdr0" "memhs ex_api 2 = Some ex_memh0" "2 \<in> set (g_memhs ex_gdr0)"
  "g_gdrdrv_version ex_gdr0 = GDRDRV_VERSION" "page_gdr (PAGE_SHIFT (ke_cfg ex_env)) ex_gdr0"
  by (simp_all add: ex_api_def ex_gdr0_def ex_memh0_def page_gdr_def ex_env_def ex_cfg_def)

lemma ex_map_state:
  "mapping_types_ok (ke_cfg ex_env) (ks_drv ex_kstate)" "entries_ok (ks_drv ex_kstate)"
  by (auto simp: mapping_types_ok_def entries_ok_def ex_kstate_def ex_defs split: if_splits)

lemma ex_map_ok:
  "case ex_map_run of Inl _ \<Rightarrow> False
   | Inr (ret, va', L', e') \<Rightarrow> ret = 0 \<and> va' = Some 0x7f0000000000"
  by code_simp

lemma ex_mapped_objects:
  "case ex_map_run of Inl _ \<Rightarrow> False
   | Inr (ret, va', L', e') \<Rightarrow>
       (case gdrs L' 1 of None \<Rightarrow> False | Some r \<Rightarrow> g_fd r = 3) \<and>
       (case memhs L' 2 of None \<Rightarrow> False | Some m \<Rightarrow> mh_handle m = 0 \<and> mh_mapping_type m = 1)"
  by code_simp

lemma ex_mapped_kernel:
  "case ex_map_run of Inl _ \<Rightarrow> False
   | Inr (ret, va', L', e') \<Rightarrow> ks_fds e' 3 = Some 3 \<and>
       (case private_data (ks_drv e') 3 of None \<Rightarrow> False | Some i \<Rightarrow> mr_list i = [7]) \<and>
       (case vmas (ks_drv e') 9 of None \<Rightarrow> False | Some _ \<Rightarrow> True) \<and>
       (case mrs (ks_drv e') 7 of None \<Rightarrow> False
        | Some k \<Rightarrow> mr_handle k = 0 \<and> mr_vma k = Some 9 \<and> mr_cpu_mapping_type k = GDR_MR_WC)"
  by code_simp

text \<open>
  C23. \<open>gdr_map_v2\<close> over the driver, from the user's handle to the pages: it returns; on an error the
  library is as it was and the two sides still agree; on success the region that the handle names,
  and no other page, has been installed at the returned address, each 64 KB GPU page at its place,
  over the size asked for rounded up to host pages, and the type the library records is the type
  the driver mapped with and, when one was asked for, the type asked for.
\<close>

theorem map_over_driver:
  assumes "kenv_doc E" and "kenv_maps E" and "kd_inv E e" and "lib_sim kd_handles L e"
    and "gdrs L g = Some r" and "page_gdr (PAGE_SHIFT (ke_cfg E)) r"
    and "g_gdrdrv_version r = GDRDRV_VERSION" and "h \<in> set (g_memhs r)" and "memhs L h = Some m"
    and "mapping_types_ok (ke_cfg E) (ks_drv e)" and "entries_ok (ks_drv e)"
  shows "\<exists>ret va' L' e'. gdr_map_v2 (drv_os E) g h sz flags L e = Inr (ret, va', L', e') \<and>
    kd_inv E e' \<and> lib_sim kd_handles L' e' \<and>
    (ret \<noteq> 0 \<and> L' = L \<or>
     (\<exists>a ty. ret = 0 \<and> va' = Some a \<and> ty \<noteq> GDR_MR_NONE \<and>
        (flags \<noteq> GDR_MAP_FLAG_DEFAULT \<longrightarrow> mapping_type_of_flags flags = Some ty) \<and>
        memhs L' h = Some (m\<lparr>mh_mapping_type := mr_type_val ty\<rparr>) \<and>
        maps_pages E r m (rounded_size r sz) a ty e e'))"
  by (rule map_env.map_sim [OF map_envI [OF assms(1,2)] assms(3-)])

theorem map_over_driver_witness:
  "\<exists>L' e' ty. ex_map_run = Inr (0, Some 0x7f0000000000, L', e') \<and> kd_inv ex_env e' \<and>
     maps_pages ex_env ex_gdr0 ex_memh0 (rounded_size ex_gdr0 0x27001) 0x7f0000000000 ty ex_kstate e'"
  using map_over_driver [OF ex_env_doc ex_env_maps ex_kd_inv ex_lib_sim ex_map_objects(1,5,4,3,2) ex_map_state,
      of "0x27001" GDR_MAP_FLAG_DEFAULT] ex_map_ok
  unfolding ex_map_run_def by (elim exE conjE disjE) auto

text \<open>
  C24. \<open>gdr_unmap\<close> over the driver of a handle that is mapped, at the range of its mapping: it
  returns 0, the VMA is gone, the region is no longer mapped and keeps its page table, the library
  records no mapping for the handle, and the two sides still agree, so the handle can be mapped or
  unpinned again.
\<close>

theorem unmap_over_driver:
  assumes "kenv_doc E" and "kenv_maps E" and "kd_inv E e" and "lib_sim kd_handles L e"
    and "gdrs L g = Some r" and "memhs L h = Some m" and "gdr_is_mapped (mh_mapping_type m)"
    and "region_of e (g_fd r) (ucast (mh_handle m)) p mr" and "gdr_mr_is_mapped mr" and "mr_vma mr = Some v"
    and "ke_vma_at E e a (rounded_size r sz) = Some v"
  shows "\<exists>L' e' mr'. gdr_unmap (drv_os E) g h a sz L e = Inr (0, L', e') \<and> kd_inv E e' \<and>
    lib_sim kd_handles L' e' \<and> memhs L' h = Some (m\<lparr>mh_mapping_type := GDR_MAPPING_TYPE_NONE\<rparr>) \<and>
    vmas (ks_drv e') v = None \<and> region_of e' (g_fd r) (ucast (mh_handle m)) p mr' \<and>
    \<not> gdr_mr_is_mapped mr' \<and> mr_page_table mr' = mr_page_table mr"
  by (rule map_env.unmap_sim [OF map_envI [OF assms(1,2)] assms(3-)])

theorem unmap_over_driver_witness:
  "case ex_map_run of Inl _ \<Rightarrow> False
   | Inr (ret, va', L, e) \<Rightarrow> \<exists>L' e'. gdr_unmap (drv_os ex_env) 1 2 0x7f0000000000 0x27001 L e = Inr (0, L', e') \<and>
       vmas (ks_drv e') 9 = None \<and> kd_inv ex_env e'"
proof -
  obtain va' L e where run: "ex_map_run = Inr (0, va', L, e)"
    and inv: "kd_inv ex_env e" and sim: "lib_sim kd_handles L e"
    using exm.map_sim [OF ex_kd_inv ex_lib_sim ex_map_objects(1,5,4,3,2) ex_map_state,
      of "0x27001" GDR_MAP_FLAG_DEFAULT] ex_map_ok
    unfolding ex_map_run_def by (elim exE conjE) auto
  obtain r m where lib: "gdrs L 1 = Some r" "g_fd r = 3" "memhs L 2 = Some m" "mh_handle m = 0"
      "mh_mapping_type m = 1"
    using ex_mapped_objects by (auto simp: run split: option.splits)
  obtain i k b where ker: "ks_fds e 3 = Some 3" "private_data (ks_drv e) 3 = Some i" "mr_list i = [7]"
      "vmas (ks_drv e) 9 = Some b" "mrs (ks_drv e) 7 = Some k" "mr_handle k = 0" "mr_vma k = Some 9"
      "mr_cpu_mapping_type k = GDR_MR_WC"
    using ex_mapped_kernel by (auto simp: run split: option.splits)
  have "region_of e (g_fd r) (ucast (mh_handle m)) 7 k" using lib ker by (simp add: region_of_def)
  from unmap_over_driver [OF ex_env_doc ex_env_maps inv sim lib(1,3) _ this _ ker(7), of "0x7f0000000000" "0x27001"]
  show ?thesis using lib(5) ker(4,8)
    by (auto simp: run gdr_is_mapped_def GDR_MAPPING_TYPE_NONE_def gdr_mr_is_mapped_def ex_env_def)
qed

end
