(* ===== verification/Api_Log.thy ===== *)
theory Api_Log
  imports C_Text
begin

text \<open>
  The messages of the library (\<open>gdr_msg\<close> in src/gdrapi.c): two static variables, set from the
  environment at the first message and never again, decide what is printed on the standard error.
  The other models of the library leave the messages out; nothing the library returns depends on
  them.
\<close>

section \<open>The model\<close>

datatype gdrcopy_msg_level =
  GDRCOPY_MSG_DEBUG | GDRCOPY_MSG_INFO | GDRCOPY_MSG_WARN | GDRCOPY_MSG_ERROR

fun msg_level_val :: "gdrcopy_msg_level \<Rightarrow> u32" where
  "msg_level_val GDRCOPY_MSG_DEBUG = 1"
| "msg_level_val GDRCOPY_MSG_INFO = 2"
| "msg_level_val GDRCOPY_MSG_WARN = 3"
| "msg_level_val GDRCOPY_MSG_ERROR = 4"

lemma msg_level_val_inject: "msg_level_val a = msg_level_val b \<longleftrightarrow> a = b"
  by (cases a; cases b) simp_all

text \<open>The levels are ordered as their values are.\<close>

instantiation gdrcopy_msg_level :: linorder
begin

definition less_eq_gdrcopy_msg_level :: "gdrcopy_msg_level \<Rightarrow> gdrcopy_msg_level \<Rightarrow> bool" where
  "less_eq_gdrcopy_msg_level a b \<longleftrightarrow> msg_level_val a \<le> msg_level_val b"

definition less_gdrcopy_msg_level :: "gdrcopy_msg_level \<Rightarrow> gdrcopy_msg_level \<Rightarrow> bool" where
  "less_gdrcopy_msg_level a b \<longleftrightarrow> msg_level_val a < msg_level_val b"

instance
  by (standard; simp add: less_eq_gdrcopy_msg_level_def less_gdrcopy_msg_level_def
      msg_level_val_inject [symmetric]; fastforce)

end

record log_state =
  gdr_msg_level :: int
  gdr_enable_logging :: int

definition log_static :: log_state where
  "log_static = \<lparr>gdr_msg_level = 4, gdr_enable_logging = -1\<rparr>"

definition log_init :: "(string \<rightharpoonup> string) \<Rightarrow> log_state \<Rightarrow> log_state" where
  "log_init env st =
     (if -1 = gdr_enable_logging st then
        (let st1 = st\<lparr>gdr_enable_logging := (if env ''GDRCOPY_ENABLE_LOGGING'' \<noteq> None then 1 else 0)\<rparr>
         in case env ''GDRCOPY_LOG_LEVEL'' of
              None \<Rightarrow> st1 | Some v \<Rightarrow> st1\<lparr>gdr_msg_level := atoi v\<rparr>)
      else st)"

text \<open>
  \<open>tx\<close> is the text that \<open>vfprintf\<close> makes of the format and its arguments; the second result is what
  is printed. The comparison is one of unsigned values: the enumeration has no negative member.
\<close>

definition gdr_msg :: "(string \<rightharpoonup> string) \<Rightarrow> gdrcopy_msg_level \<Rightarrow> string \<Rightarrow> log_state \<Rightarrow> log_state \<times> string list" where
  "gdr_msg env lvl tx st =
     (let st1 = log_init env st
      in (st1, if gdr_enable_logging st1 \<noteq> 0 \<and> word_of_int (gdr_msg_level st1) \<le> msg_level_val lvl
               then [tx] else []))"

definition gdr_dbg :: "(string \<rightharpoonup> string) \<Rightarrow> string \<Rightarrow> log_state \<Rightarrow> log_state \<times> string list" where
  "gdr_dbg env tx = gdr_msg env GDRCOPY_MSG_DEBUG (''DBG:  '' @ tx)"

definition gdr_info_msg :: "(string \<rightharpoonup> string) \<Rightarrow> string \<Rightarrow> log_state \<Rightarrow> log_state \<times> string list" where
  "gdr_info_msg env tx = gdr_msg env GDRCOPY_MSG_INFO (''INFO: '' @ tx)"

definition gdr_warn :: "(string \<rightharpoonup> string) \<Rightarrow> string \<Rightarrow> log_state \<Rightarrow> log_state \<times> string list" where
  "gdr_warn env tx = gdr_msg env GDRCOPY_MSG_WARN (''WARN: '' @ tx)"

definition gdr_err :: "(string \<rightharpoonup> string) \<Rightarrow> string \<Rightarrow> log_state \<Rightarrow> log_state \<times> string list" where
  "gdr_err env tx = gdr_msg env GDRCOPY_MSG_ERROR (''ERR:  '' @ tx)"

text \<open>\<open>gdr_dbgc(C, ...)\<close> with its static counter, which starts at \<open>C\<close>.\<close>

definition gdr_dbgc :: "(string \<rightharpoonup> string) \<Rightarrow> string \<Rightarrow> int \<times> log_state \<Rightarrow> (int \<times> log_state) \<times> string list" where
  "gdr_dbgc env tx v =
     (case v of (gdr_dbg_cnt, st) \<Rightarrow>
        if gdr_dbg_cnt \<noteq> 0 then (let (st1, out) = gdr_dbg env tx st in ((gdr_dbg_cnt - 1, st1), out))
        else ((gdr_dbg_cnt, st), []))"

section \<open>A sequence of messages\<close>

fun gdr_msgs :: "(string \<rightharpoonup> string) \<Rightarrow> (gdrcopy_msg_level \<times> string) list \<Rightarrow> log_state \<Rightarrow> string list" where
  "gdr_msgs env [] st = []"
| "gdr_msgs env ((lvl, tx) # ms) st =
     (let (st1, out) = gdr_msg env lvl tx st in out @ gdr_msgs env ms st1)"

lemma log_init_again: "log_init env (log_init env' st) = log_init env' st"
  by (simp add: log_init_def Let_def split: option.splits)

text \<open>What is printed, by the environment alone.\<close>

definition shown :: "(string \<rightharpoonup> string) \<Rightarrow> gdrcopy_msg_level \<Rightarrow> bool" where
  "shown env lvl \<longleftrightarrow> env ''GDRCOPY_ENABLE_LOGGING'' \<noteq> None \<and>
     (case env ''GDRCOPY_LOG_LEVEL'' of None \<Rightarrow> 4 | Some v \<Rightarrow> word_of_int (atoi v)) \<le> msg_level_val lvl"

lemma gdr_msg_static:
  "gdr_msg env lvl tx (log_init env log_static) = (log_init env log_static, if shown env lvl then [tx] else [])"
  by (simp add: gdr_msg_def log_init_again) (simp add: log_init_def log_static_def shown_def Let_def split: option.splits)

lemma gdr_msgs_after:
  "gdr_msgs env ms (log_init env log_static) = map snd (filter (\<lambda>(lvl, _). shown env lvl) ms)"
  by (induction ms) (auto simp: gdr_msg_static)

lemma gdr_msgs_static:
  "gdr_msgs env ms log_static = map snd (filter (\<lambda>(lvl, _). shown env lvl) ms)"
proof (cases ms)
  case (Cons m ms')
  obtain lvl tx where m: "m = (lvl, tx)" by (cases m)
  have "gdr_msg env lvl tx log_static = gdr_msg env lvl tx (log_init env log_static)"
    by (simp add: gdr_msg_def log_init_again)
  then show ?thesis by (simp add: Cons m gdr_msg_static gdr_msgs_after)
qed simp

text \<open>A message of a higher level is shown whenever one of a lower level is.\<close>

lemma shown_mono: "lvl \<le> lvl' \<Longrightarrow> shown env lvl \<Longrightarrow> shown env lvl'"
  by (auto simp: shown_def less_eq_gdrcopy_msg_level_def)

text \<open>A level below zero is, unsigned, above every message: nothing is printed.\<close>

lemma negative_level_silent:
  "env ''GDRCOPY_LOG_LEVEL'' = Some ''-1'' \<Longrightarrow> \<not> shown env lvl"
proof -
  have "atoi ''-1'' = -1" by code_simp
  then show "env ''GDRCOPY_LOG_LEVEL'' = Some ''-1'' \<Longrightarrow> \<not> shown env lvl"
    by (cases lvl) (simp_all add: shown_def word_le_nat_alt unsigned_minus_1_eq_mask mask_eq_exp_minus_1)
qed

text \<open>\<open>gdr_dbgc(1, ...)\<close> prints at most once.\<close>

lemma gdr_dbgc_once:
  "gdr_dbgc env tx (1, st) = (v, out) \<Longrightarrow> snd (gdr_dbgc env tx' v) = []"
  by (auto simp: gdr_dbgc_def split: prod.splits)

end
