(* ===== verification/Bar_Text.thy ===== *)
theory Bar_Text
  imports C_Text
begin

text \<open>
  Sizes in the environment of the BAR allocator (tests/pcibarlat/mlc_bar_intercept.c):
  \<open>parse_size_env\<close> over the C library's \<open>strtoull\<close> with base 0, and that a size printed in decimal
  with one of the suffixes is read back.
\<close>

section \<open>strtoull\<close>

definition hex_digit_of :: "char \<Rightarrow> nat option" where
  "hex_digit_of x =
     (let k = of_char x :: nat
      in if 48 \<le> k \<and> k \<le> 57 then Some (k - 48)
         else if 65 \<le> k \<and> k \<le> 70 then Some (k - 55)
         else if 97 \<le> k \<and> k \<le> 102 then Some (k - 87) else None)"

definition digit_in :: "int \<Rightarrow> char \<Rightarrow> int option" where
  "digit_in base x = (case hex_digit_of x of Some d \<Rightarrow> if int d < base then Some (int d) else None | None \<Rightarrow> None)"

text \<open>The value of the digits up to the first character that is none, and the rest.\<close>

fun read_base :: "int \<Rightarrow> int \<Rightarrow> string \<Rightarrow> int \<times> string" where
  "read_base base n [] = (n, [])"
| "read_base base n (x # xs) =
     (case digit_in base x of None \<Rightarrow> (n, x # xs) | Some d \<Rightarrow> read_base base (base * n + d) xs)"

text \<open>
  The prefix of a numeral in base 0: the base, and the text of the digits. A \<open>0x\<close> without a
  hexadecimal digit behind it is the numeral \<open>0\<close>.
\<close>

fun numeral_base :: "string \<Rightarrow> int \<times> string" where
  "numeral_base (z # x # y # ys) =
     (if z = CHR ''0'' \<and> (x = CHR ''x'' \<or> x = CHR ''X'') \<and> digit_in 16 y \<noteq> None then (16, y # ys)
      else if z = CHR ''0'' then (8, z # x # y # ys) else (10, z # x # y # ys))"
| "numeral_base (z # xs) = (if z = CHR ''0'' then (8, z # xs) else (10, z # xs))"
| "numeral_base [] = (10, [])"

definition sign_of :: "string \<Rightarrow> bool \<times> string" where
  "sign_of xs =
     (case xs of
        [] \<Rightarrow> (False, [])
      | y # ys \<Rightarrow> if y = CHR ''-'' then (True, ys) else if y = CHR ''+'' then (False, ys) else (False, y # ys))"

text \<open>
  \<open>strtoull(value, &end, 0)\<close>: \<open>None\<close> is \<open>end == value\<close> (no digits); else the result, whether \<open>errno\<close>
  is set (ERANGE), and the text at \<open>end\<close>. A minus sign negates the result in the unsigned type.
\<close>

definition strtoull :: "string \<Rightarrow> (u64 \<times> bool \<times> string) option" where
  "strtoull value =
     (let (neg, ys) = sign_of (dropWhile isspace value);
          (base, ds) = numeral_base ys;
          (n, rest) = read_base base 0 ds
      in if rest = ds then None
         else if 2 ^ 64 \<le> n then Some (-1, True, rest)
         else Some (if neg then - of_int n else of_int n, False, rest))"

section \<open>parse_size_env\<close>

definition parse_size_env :: "string option \<Rightarrow> u64 \<Rightarrow> u64" where
  "parse_size_env value default_value =
     (case value of
        None \<Rightarrow> default_value
      | Some [] \<Rightarrow> default_value
      | Some v \<Rightarrow>
          (case strtoull v of
             None \<Rightarrow> default_value
           | Some (result, err, e) \<Rightarrow>
               if err then default_value
               else (case e of
                       [] \<Rightarrow> result
                     | x # _ \<Rightarrow>
                         if x = CHR ''k'' \<or> x = CHR ''K'' then push_bit 10 result
                         else if x = CHR ''m'' \<or> x = CHR ''M'' then push_bit 20 result
                         else if x = CHR ''g'' \<or> x = CHR ''G'' then push_bit 30 result
                         else default_value)))"

section \<open>Printed sizes are read back\<close>

lemma digit_in_char: "d < 10 \<Longrightarrow> digit_in 10 (digit_char d) = Some (int d)"
  by (simp add: digit_in_def hex_digit_of_def digit_char_code Let_def)

lemma read_base_dec:
  "\<exists>k. \<forall>m xs. read_base 10 m (dec_nat n @ xs) = read_base 10 (m * 10 ^ k + int n) xs"
proof (induction n rule: dec_nat.induct)
  case (1 n)
  show ?case
  proof (cases "n < 10")
    case True
    then show ?thesis
      by (intro exI [of _ 1]) (simp add: dec_nat.simps [of n] digit_in_char algebra_simps)
  next
    case False
    then obtain k where k: "\<And>m xs. read_base 10 m (dec_nat (n div 10) @ xs) =
        read_base 10 (m * 10 ^ k + int (n div 10)) xs"
      using 1 by blast
    have "read_base 10 m (dec_nat n @ xs) = read_base 10 (m * 10 ^ Suc k + int n) xs" for m xs
    proof -
      have "read_base 10 m (dec_nat n @ xs) = read_base 10 (10 * (m * 10 ^ k + int (n div 10)) + int (n mod 10)) xs"
        using False by (simp add: dec_nat.simps [of n] k digit_in_char)
      also have "10 * (m * 10 ^ k + int (n div 10)) + int (n mod 10) = m * 10 ^ Suc k + int n"
        by (simp add: zdiv_int zmod_int)
      finally show ?thesis .
    qed
    then show ?thesis by blast
  qed
qed

lemma dec_nat_head_pos: "0 < n \<Longrightarrow> \<exists>d ys. 0 < d \<and> d < 10 \<and> dec_nat n = digit_char d # ys"
proof (induction n rule: dec_nat.induct)
  case (1 n)
  then show ?case
    by (cases "n < 10") (force simp: dec_nat.simps [of n])+
qed

text \<open>A numeral with a leading digit other than 0 has no sign and no prefix.\<close>

lemma digit_char_neq:
  assumes "d < 10"
  shows "\<not> isspace (digit_char d)" and "digit_char d \<noteq> CHR ''-''" and "digit_char d \<noteq> CHR ''+''"
    and "0 < d \<Longrightarrow> digit_char d \<noteq> CHR ''0''"
  using digit_char_code [OF assms] by (auto simp: isspace_def Let_def)

lemma numeral_base_dec: "0 < d \<Longrightarrow> d < 10 \<Longrightarrow> numeral_base (digit_char d # ys) = (10, digit_char d # ys)"
  using digit_char_neq(4) [of d] by (cases ys rule: list.exhaust; cases "tl ys") auto

definition stops_in :: "int \<Rightarrow> string \<Rightarrow> bool" where
  "stops_in base xs \<longleftrightarrow> (case xs of [] \<Rightarrow> True | y # _ \<Rightarrow> digit_in base y = None)"

lemma read_base_stop: "stops_in base xs \<Longrightarrow> read_base base n xs = (n, xs)"
  by (cases xs) (simp_all add: stops_in_def)

lemma strtoull_dec:
  assumes "0 < n" and "n < 2 ^ 64" and "stops_in 10 xs"
  shows "strtoull (dec_nat n @ xs) = Some (word_of_nat n, False, xs)"
proof -
  obtain d ys where d: "0 < d" "d < 10" "dec_nat n = digit_char d # ys"
    using dec_nat_head_pos [OF assms(1)] by blast
  obtain k where "\<And>m zs. read_base 10 m (dec_nat n @ zs) = read_base 10 (m * 10 ^ k + int n) zs"
    using read_base_dec by blast
  then have rd: "read_base 10 0 (digit_char d # ys @ xs) = (int n, xs)"
    using read_base_stop [OF assms(3)] d(3) by (metis add_0 append_Cons mult_zero_left)
  have "xs \<noteq> digit_char d # ys @ xs" by (metis append_Cons append_self_conv2 list.distinct(1))
  then show ?thesis
    using digit_char_neq [OF d(2)] d(1,2) rd assms(2)
    by (simp add: strtoull_def sign_of_def d(3) numeral_base_dec del: read_base.simps)
qed

definition size_suffix :: "string \<Rightarrow> nat option" where
  "size_suffix xs =
     (if xs = [] then Some 0 else if xs = ''k'' then Some 10 else if xs = ''m'' then Some 20
      else if xs = ''g'' then Some 30 else None)"

lemma parse_size_dec:
  assumes "0 < n" and "n < 2 ^ 64" and "size_suffix xs = Some k"
  shows "parse_size_env (Some (dec_nat n @ xs)) d = push_bit k (of_nat n)"
proof -
  have xs: "stops_in 10 xs"
    using assms(3) by (auto simp: size_suffix_def stops_in_def digit_in_def hex_digit_of_def Let_def
        split: if_splits)
  obtain y ys where v: "dec_nat n @ xs = y # ys" using dec_nat_head [of n] by auto
  show ?thesis
    using strtoull_dec [OF assms(1,2) xs] assms(3) unfolding v
    by (auto simp: parse_size_env_def size_suffix_def split: if_splits)
qed

end
