(* ===== verification/Bar_Ops.thy ===== *)
theory Bar_Ops
  imports Bar_Text
begin

text \<open>
  The BAR allocator (tests/pcibarlat/mlc_bar_intercept.c), a library that is preloaded into a
  benchmark: it maps a window of device memory once and answers large anonymous mmaps, and on
  request the allocation functions, from it. The functions that it replaces are the process's own;
  a call of one of them is a value of \<open>real_call\<close>, and its result is that of the function.
\<close>

section \<open>State and environment\<close>

text \<open>The static variables. \<open>NULL\<close> is 0; a function pointer is whether it was resolved.\<close>

record bar =
  real_mmap_fn :: bool
  real_mmap64_fn :: bool
  real_munmap_fn :: bool
  real_malloc_fn :: bool
  real_free_fn :: bool
  real_posix_memalign_fn :: bool
  real_aligned_alloc_fn :: bool
  real_memalign_fn :: bool
  real_valloc_fn :: bool
  real_pvalloc_fn :: bool
  init_done :: bool
  init_running :: bool
  intercept_mmap :: bool
  intercept_alloc :: bool
  bar_fd :: int
  bar_base :: u64
  bar_size :: u64
  bar_offset :: u64
  bar_next :: u64
  page_size :: u64
  min_alloc :: u64

definition DEFAULT_MIN_ALLOC :: u64 where "DEFAULT_MIN_ALLOC = push_bit 20 1"

definition bar_static :: bar where
  "bar_static = \<lparr>real_mmap_fn = False, real_mmap64_fn = False, real_munmap_fn = False,
     real_malloc_fn = False, real_free_fn = False, real_posix_memalign_fn = False,
     real_aligned_alloc_fn = False, real_memalign_fn = False, real_valloc_fn = False,
     real_pvalloc_fn = False, init_done = False, init_running = False, intercept_mmap = True,
     intercept_alloc = False, bar_fd = -1, bar_base = 0, bar_size = 0, bar_offset = 0, bar_next = 0,
     page_size = 0, min_alloc = DEFAULT_MIN_ALLOC\<rparr>"

text \<open>
  The process: the symbols that \<open>dlsym(RTLD_NEXT, _)\<close> finds, the page size, the environment, the
  descriptor that \<open>open\<close> returns for a path, writable or read-only, and where the window is mapped
  (\<open>None\<close> is MAP_FAILED).
\<close>

record bar_env =
  e_dlsym :: "string \<Rightarrow> bool"
  e_pagesize :: u64
  e_getenv :: "string \<Rightarrow> string option"
  e_open :: "string \<Rightarrow> bool \<Rightarrow> int"
  e_mmap :: "u64 \<Rightarrow> int \<Rightarrow> u64 \<Rightarrow> u64 option"

section \<open>Initialisation\<close>

definition round_up_pow2 :: "u64 \<Rightarrow> u64 \<Rightarrow> u64" where
  "round_up_pow2 value align = (value + align - 1) AND NOT (align - 1)"

definition resolve_real_symbols :: "bar_env \<Rightarrow> bar \<Rightarrow> bar" where
  "resolve_real_symbols E B = B\<lparr>
     real_mmap_fn := e_dlsym E ''mmap'', real_mmap64_fn := e_dlsym E ''mmap64'',
     real_munmap_fn := e_dlsym E ''munmap'', real_malloc_fn := e_dlsym E ''malloc'',
     real_free_fn := e_dlsym E ''free'', real_posix_memalign_fn := e_dlsym E ''posix_memalign'',
     real_aligned_alloc_fn := e_dlsym E ''aligned_alloc'', real_memalign_fn := e_dlsym E ''memalign'',
     real_valloc_fn := e_dlsym E ''valloc'', real_pvalloc_fn := e_dlsym E ''pvalloc''\<rparr>"

text \<open>The parameters, from the page size and the environment.\<close>

definition init_params :: "bar_env \<Rightarrow> bar \<Rightarrow> bar" where
  "init_params E B =
     (let B1 = B\<lparr>page_size := (if e_pagesize E = 0 then 4096 else e_pagesize E),
                  min_alloc := parse_size_env (e_getenv E ''PCIBAR_MLC_MIN_ALLOC'') DEFAULT_MIN_ALLOC,
                  bar_size := parse_size_env (e_getenv E ''PCIBAR_MLC_SIZE'') 0,
                  bar_offset := parse_size_env (e_getenv E ''PCIBAR_MLC_OFFSET'') 0\<rparr>
      in case e_getenv E ''PCIBAR_MLC_INTERCEPT'' of
           None \<Rightarrow> B1
         | Some mode \<Rightarrow> B1\<lparr>intercept_mmap := (mode = ''mmap'' \<or> mode = ''all''),
                           intercept_alloc := (mode = ''alloc'' \<or> mode = ''all'')\<rparr>)"

definition init_end :: "bar \<Rightarrow> bar" where
  "init_end B = B\<lparr>init_done := True, init_running := False\<rparr>"

text \<open>
  \<open>verbose\<close> and the messages are left out. The state while the function runs is seen by the calls that
  \<open>dlsym\<close> and \<open>open\<close> make of the functions below: \<open>init_running\<close> is set, and they pass the call on.
\<close>

definition init_once :: "bar_env \<Rightarrow> bar \<Rightarrow> bar" where
  "init_once E B =
     (if init_done B \<or> init_running B then B
      else
        (let B1 = init_params E (resolve_real_symbols E (B\<lparr>init_running := True\<rparr>))
         in case e_getenv E ''PCIBAR_MLC_RESOURCE'' of
              None \<Rightarrow> init_end B1
            | Some resource_path \<Rightarrow>
                if resource_path = [] \<or> bar_size B1 = 0 \<or> \<not> real_mmap_fn B1 then init_end B1
                else
                  (let fd0 = e_open E resource_path True;
                       fd = (if fd0 < 0 then e_open E resource_path False else fd0)
                   in if fd < 0 then init_end (B1\<lparr>bar_fd := fd\<rparr>)
                      else case e_mmap E (bar_size B1) fd (bar_offset B1) of
                             None \<Rightarrow> init_end (B1\<lparr>bar_fd := -1\<rparr>)
                           | Some mapped \<Rightarrow> init_end (B1\<lparr>bar_fd := fd, bar_base := mapped\<rparr>))))"

section \<open>The allocator\<close>

definition is_bar_pointer :: "u64 \<Rightarrow> bar \<Rightarrow> bool" where
  "is_bar_pointer value B \<longleftrightarrow>
     (let start = bar_base B; end' = start + bar_size B
      in bar_base B \<noteq> 0 \<and> value \<ge> start \<and> value < end')"

text \<open>The part under \<open>bar_lock\<close>: reserve a block behind the last one.\<close>

definition bar_reserve :: "u64 \<Rightarrow> u64 \<Rightarrow> bar \<Rightarrow> u64 option \<times> bar" where
  "bar_reserve size' align B =
     (let start = round_up_pow2 (bar_next B) align; end' = start + size'
      in if end' \<ge> start \<and> end' \<le> bar_size B
         then (Some (bar_base B + start), B\<lparr>bar_next := round_up_pow2 end' (page_size B)\<rparr>)
         else (None, B))"

text \<open>
  \<open>None\<close> is NULL. The EINVAL it leaves in \<open>errno\<close> for an alignment that is no power of two is not
  seen: the callers set or return ENOMEM when they do not pass the call on.
\<close>

definition bar_alloc :: "bar_env \<Rightarrow> u64 \<Rightarrow> u64 \<Rightarrow> bar \<Rightarrow> u64 option \<times> bar" where
  "bar_alloc E size' align B0 =
     (let B = init_once E B0
      in if bar_base B = 0 \<or> size' < min_alloc B then (None, B)
         else
           (let align' = (if align < page_size B then page_size B else align)
            in if align' AND (align' - 1) \<noteq> 0 then (None, B) else bar_reserve size' align' B))"

section \<open>The functions that are replaced\<close>

datatype real_call =
    RealMmap u64 u64 int u32 int u64
  | RealMmap64 u64 u64 int u32 int u64
  | RealMunmap u64 u64
  | RealMalloc u64
  | RealFree u64
  | RealPosixMemalign u64 u64
  | RealAlignedAlloc u64 u64
  | RealMemalign u64 u64
  | RealValloc u64
  | RealPvalloc u64

text \<open>A pointer, an error number (with MAP_FAILED or NULL), success of a function without a pointer.\<close>

datatype answer = Block u64 | Errno int | Done | Real real_call

definition BAR_ENOMEM :: int where "BAR_ENOMEM = 12"

text \<open>A call through a function pointer.\<close>

definition forward :: "bool \<Rightarrow> real_call \<Rightarrow> bar \<Rightarrow> (answer \<times> bar) run" where
  "forward resolved k B = (if resolved then Inr (Real k, B) else Inl NullDeref)"

definition MAP_FIXED :: u32 where "MAP_FIXED = 0x10"
definition MAP_ANONYMOUS :: u32 where "MAP_ANONYMOUS = 0x20"

text \<open>What \<open>mmap\<close> and \<open>mmap64\<close> have in common: the answer from the window, if there is one.\<close>

definition mmap_window :: "bar_env \<Rightarrow> u64 \<Rightarrow> u32 \<Rightarrow> int \<Rightarrow> bar \<Rightarrow> answer option \<times> bar" where
  "mmap_window E len flags fd B0 =
     (let anonymous = (flags AND MAP_ANONYMOUS \<noteq> 0 \<or> fd = -1); B = init_once E B0
      in if \<not> init_running B \<and> intercept_mmap B \<and> anonymous \<and> flags AND MAP_FIXED = 0 \<and>
            len \<ge> min_alloc B
         then (case bar_alloc E len (page_size B) B of
                 (Some p, B1) \<Rightarrow> (Some (Block p), B1)
               | (None, B1) \<Rightarrow> (if bar_base B1 \<noteq> 0 then Some (Errno BAR_ENOMEM) else None, B1))
         else (None, B))"

definition bar_mmap :: "bar_env \<Rightarrow> u64 \<Rightarrow> u64 \<Rightarrow> int \<Rightarrow> u32 \<Rightarrow> int \<Rightarrow> u64 \<Rightarrow> bar \<Rightarrow> (answer \<times> bar) run" where
  "bar_mmap E addr len prot flags fd off B0 =
     (case mmap_window E len flags fd B0 of
        (Some a, B) \<Rightarrow> Inr (a, B)
      | (None, B) \<Rightarrow> forward (real_mmap_fn B) (RealMmap addr len prot flags fd off) B)"

definition bar_mmap64 :: "bar_env \<Rightarrow> u64 \<Rightarrow> u64 \<Rightarrow> int \<Rightarrow> u32 \<Rightarrow> int \<Rightarrow> u64 \<Rightarrow> bar \<Rightarrow> (answer \<times> bar) run" where
  "bar_mmap64 E addr len prot flags fd off B0 =
     (case mmap_window E len flags fd B0 of
        (Some a, B) \<Rightarrow> Inr (a, B)
      | (None, B) \<Rightarrow>
          if real_mmap64_fn B then Inr (Real (RealMmap64 addr len prot flags fd off), B)
          else forward (real_mmap_fn B) (RealMmap addr len prot flags fd off) B)"

definition bar_munmap :: "bar_env \<Rightarrow> u64 \<Rightarrow> u64 \<Rightarrow> bar \<Rightarrow> (answer \<times> bar) run" where
  "bar_munmap E addr len B0 =
     (let B = init_once E B0
      in if is_bar_pointer addr B then Inr (Done, B)
         else forward (real_munmap_fn B) (RealMunmap addr len) B)"

text \<open>What the aligned allocation functions have in common.\<close>

definition alloc_window :: "bar_env \<Rightarrow> u64 \<Rightarrow> u64 \<Rightarrow> bar \<Rightarrow> answer option \<times> bar" where
  "alloc_window E size' align B =
     (if intercept_alloc B then
        (case bar_alloc E size' align B of
           (Some p, B1) \<Rightarrow> (Some (Block p), B1)
         | (None, B1) \<Rightarrow> (if bar_base B1 \<noteq> 0 then Some (Errno BAR_ENOMEM) else None, B1))
      else (None, B))"

definition or_forward :: "(bar \<Rightarrow> bool) \<Rightarrow> real_call \<Rightarrow> answer option \<times> bar \<Rightarrow> (answer \<times> bar) run" where
  "or_forward resolved k r =
     (case r of (Some a, B) \<Rightarrow> Inr (a, B) | (None, B) \<Rightarrow> forward (resolved B) k B)"

definition bar_posix_memalign :: "bar_env \<Rightarrow> u64 \<Rightarrow> u64 \<Rightarrow> bar \<Rightarrow> (answer \<times> bar) run" where
  "bar_posix_memalign E alignment size' B0 =
     or_forward real_posix_memalign_fn (RealPosixMemalign alignment size')
       (alloc_window E size' alignment (init_once E B0))"

definition bar_aligned_alloc :: "bar_env \<Rightarrow> u64 \<Rightarrow> u64 \<Rightarrow> bar \<Rightarrow> (answer \<times> bar) run" where
  "bar_aligned_alloc E alignment size' B0 =
     or_forward real_aligned_alloc_fn (RealAlignedAlloc alignment size')
       (alloc_window E size' alignment (init_once E B0))"

definition bar_memalign :: "bar_env \<Rightarrow> u64 \<Rightarrow> u64 \<Rightarrow> bar \<Rightarrow> (answer \<times> bar) run" where
  "bar_memalign E alignment size' B0 =
     or_forward real_memalign_fn (RealMemalign alignment size')
       (alloc_window E size' alignment (init_once E B0))"

definition bar_valloc :: "bar_env \<Rightarrow> u64 \<Rightarrow> bar \<Rightarrow> (answer \<times> bar) run" where
  "bar_valloc E size' B0 =
     (let B = init_once E B0
      in or_forward real_valloc_fn (RealValloc size') (alloc_window E size' (page_size B) B))"

definition bar_pvalloc :: "bar_env \<Rightarrow> u64 \<Rightarrow> bar \<Rightarrow> (answer \<times> bar) run" where
  "bar_pvalloc E size' B0 =
     (let B = init_once E B0
      in or_forward real_pvalloc_fn (RealPvalloc size')
           (alloc_window E (round_up_pow2 size' (page_size B)) (page_size B) B))"

text \<open>Unlike the aligned functions, \<open>malloc\<close> passes small requests on.\<close>

definition bar_malloc :: "bar_env \<Rightarrow> u64 \<Rightarrow> bar \<Rightarrow> (answer \<times> bar) run" where
  "bar_malloc E size' B0 =
     (let B = init_once E B0;
          (a, B1) = (if \<not> init_running B \<and> intercept_alloc B then
             (case bar_alloc E size' (page_size B) B of
                (Some p, B1) \<Rightarrow> (Some (Block p), B1)
              | (None, B1) \<Rightarrow>
                  (if bar_base B1 \<noteq> 0 \<and> size' \<ge> min_alloc B1 then Some (Errno BAR_ENOMEM) else None, B1))
           else (None, B))
      in case a of
           Some r \<Rightarrow> Inr (r, B1)
         | None \<Rightarrow> if \<not> real_malloc_fn B1 then Inr (Errno BAR_ENOMEM, B1)
                   else Inr (Real (RealMalloc size'), B1))"

definition bar_free :: "bar_env \<Rightarrow> u64 \<Rightarrow> bar \<Rightarrow> (answer \<times> bar) run" where
  "bar_free E ptr B0 =
     (let B = init_once E B0
      in if is_bar_pointer ptr B then Inr (Done, B)
         else if real_free_fn B then Inr (Real (RealFree ptr), B) else Inr (Done, B))"

text \<open>At exit: whether the window is unmapped, and the descriptor that is closed.\<close>

definition fini_bar_mapping :: "bar \<Rightarrow> (u64 \<times> u64) option \<times> int option" where
  "fini_bar_mapping B =
     (if bar_base B \<noteq> 0 \<and> real_munmap_fn B then Some (bar_base B, bar_size B) else None,
      if bar_fd B \<ge> 0 then Some (bar_fd B) else None)"

end
