(* ===== verification/Bar_Correct.thy ===== *)
theory Bar_Correct
  imports Bar_Ops
begin

text \<open>
  The blocks that the BAR allocator hands out: inside the window, apart from each other, on page
  boundaries, and never passed to the process's own \<open>free\<close> or \<open>munmap\<close>, along every sequence of
  calls. The argument is that of any allocator that only moves a mark upwards, in the locale
  \<open>bump_allocator\<close>.
\<close>

section \<open>Allocators that move a mark upwards\<close>



section \<open>Rounding\<close>






section \<open>The allocator\<close>



lemma init_once_done [simp]: "init_done B \<Longrightarrow> init_once E B = B"
  by (simp add: init_once_def)

lemma init_once_ends: "init_done (init_once E B) \<or> init_running B"
  by (simp add: init_once_def init_end_def Let_def split: option.splits)

lemma init_once_again [simp]: "\<not> init_running B \<Longrightarrow> init_once E (init_once E B) = init_once E B"
  using init_once_ends [of E B] by simp

lemma init_params_simps [simp]:
  "init_done (init_params E B) = init_done B" "init_running (init_params E B) = init_running B"
  "bar_base (init_params E B) = bar_base B" "bar_next (init_params E B) = bar_next B"
  "page_size (init_params E B) = (if e_pagesize E = 0 then 4096 else e_pagesize E)"
  "real_mmap_fn (init_params E B) = real_mmap_fn B"
  by (auto simp: init_params_def Let_def split: option.splits)










section \<open>Sequences of calls\<close>






lemma forward_Inr [simp]: "forward b k B = Inr (a, B') \<longleftrightarrow> b \<and> a = Real k \<and> B' = B"
  by (auto simp: forward_def)









section \<open>What the process gets\<close>






definition ex_bar_env :: bar_env where
  "ex_bar_env = \<lparr>e_dlsym = (\<lambda>_. True), e_pagesize = 0x1000,
     e_getenv = map_of [(''PCIBAR_MLC_RESOURCE'', ''/dev/pcibarlat_physmem''),
       (''PCIBAR_MLC_SIZE'', ''1m''), (''PCIBAR_MLC_MIN_ALLOC'', ''64k''), (''PCIBAR_MLC_INTERCEPT'', ''all'')],
     e_open = (\<lambda>_ _. 3),
     e_mmap = (\<lambda>n _ _. if n \<le> 0x10000000000 then Some 0x7f0000001000 else None)\<rparr>"

definition ex_bar :: bar where "ex_bar = init_once ex_bar_env bar_static"




section \<open>Requests that are not served as asked\<close>

text \<open>
  The alignment is that of the offset in the window, and the window itself starts on any page: an
  alignment above the page size is not that of the address.
\<close>

lemma posix_memalign_misaligned:
  "case bar_posix_memalign ex_bar_env 0x10000 0x10000 bar_static of
     Inr (Block p, _) \<Rightarrow> p = 0x7f0000001000 \<and> p AND (0x10000 - 1) \<noteq> 0 | _ \<Rightarrow> False"
  by code_simp

text \<open>
  With the allocation functions replaced, an aligned request below the minimum fails, while
  \<open>malloc\<close> passes one on.
\<close>

lemma small_request:
  assumes "init_done B" and "\<not> init_running B" and "bar_base B \<noteq> 0" and "intercept_alloc B"
    and "sz < min_alloc B" and "real_malloc_fn B"
  shows "bar_posix_memalign E align sz B = Inr (Errno BAR_ENOMEM, B)"
    and "bar_malloc E sz B = Inr (Real (RealMalloc sz), B)"
  using assms
  by (simp_all add: bar_posix_memalign_def alloc_window_def or_forward_def bar_malloc_def bar_alloc_def)

text \<open>A call made while the functions are being resolved finds none of them.\<close>

lemma malloc_while_resolving:
  "bar_malloc E sz (bar_static\<lparr>init_running := True\<rparr>) = Inr (Errno BAR_ENOMEM, bar_static\<lparr>init_running := True\<rparr>)"
  by (simp add: bar_malloc_def init_once_def bar_static_def)

end
