(* ===== verification/Spec2Isabelle.thy ===== *)
theory Spec2Isabelle
  imports Drv_Findings Drv_Loops Drv_Proc Drv_Dummy Copy_Correct Api_Typed Api_Map Api_Log
    Bar_Correct Physmem
begin

text \<open>
  gdrcopy: a kernel driver (src/gdrdrv) that pins GPU memory and maps it into user space, and a
  library (src/gdrapi.c, src/memcpy_*.c, include/gdrapi.h) over it that copies between host memory
  and the mapping. File names below are relative to the directory src of the repository.

  The parts and how they interact. A process opens /dev/gdrdrv; the driver keeps a \<open>gdr_info\<close> per open
  file. The library pins a GPU buffer (an ioctl): the driver asks the NVIDIA driver for the pages,
  records them in a memory region (\<open>gdr_mr\<close>) on the list of the file and returns a handle, which the
  library keeps in a \<open>gdr_memh_t\<close>. To map, the library asks for a mapping type (an ioctl) and calls
  mmap at the offset that is the handle; the driver remaps each physically contiguous run of GPU
  pages. The library counts the live mappings of each type, and its copies choose a routine and a
  fence from the type, the CPU and that count. Unpinning, closing, unmapping, and the free callback of
  the NVIDIA driver, which may come at any time, take this apart again.

  Conventions. A computation that may stop abnormally returns \<open>crash + 'a\<close> (theory \<open>Prelude\<close>,
  type \<open>'a run\<close>): BUG_ON, a failed assert, a use after free, a lock error, a misaligned access, a
  memcpy on overlapping regions. An error the code returns is a value (\<open>- EINVAL\<close>). Pointers are
  numbers, objects reached through them are in stores (\<open>mrs\<close>, \<open>private_data\<close>, \<open>vmas\<close>, \<open>memhs\<close>,
  \<open>gdrs\<close>), so aliasing and dangling pointers are visible. Integers have their C width, except
  \<open>int\<close> return codes, counters and reference counts, which are unbounded.
\<close>

section \<open>The driver\<close>

text \<open>
  \<^item> \<open>Drv_Types\<close>, \<open>Drv_Platform\<close>: the build and platform configuration \<open>drv_cfg\<close>, the objects, the
    state \<open>drv\<close> of the module with the trace \<open>calls\<close> of what it asks of the kernel and the NVIDIA
    driver, locks, page protections, PAT, version macros.
  \<^item> \<open>Drv_Mr\<close>, \<open>Drv_Pin\<close>: regions, handles, the free callback; open, release, pin, unpin with every
    error exit (gdrdrv.c). \<open>gdr_free_mr_unlocked\<close> is in two parts, because it drops the lock before
    it gives the pages back and the callback may run in between. What the NVIDIA driver and the
    allocator answer during one operation is a record \<open>ext\<close>.
  \<^item> \<open>Drv_Ioctl\<close>: the parameter blocks of gdrdrv.h, the handlers and the dispatcher.
  \<^item> \<open>Drv_Mmap\<close>: the remapping loops, \<open>gdrdrv_mmap\<close> and \<open>gdrdrv_vma_close\<close>; \<open>io_remap_pfn_range\<close> is
    a parameter.
  \<^item> \<open>Drv_Module\<close>, \<open>Drv_Proc\<close>, \<open>C_Text\<close>: loading, unloading, the proc directory and the text of its
    files, with the decimal output and input of the C library.
  \<^item> \<open>Drv_Dummy\<close>: the stubs of nv-p2p-dummy.c, as an \<open>ext\<close>.

  The lemmas. \<open>Drv_Translate\<close>: a successful mmap installs the translation that the GPU page table
  prescribes. \<open>Drv_Refcount\<close>, \<open>Drv_Safe\<close>, \<open>Drv_Handlers\<close>: the reference count and the ownership of
  regions (\<open>own_inv\<close>) under every handler, and that the handlers return. \<open>Drv_System\<close>: the contract
  \<open>ioctl_spec\<close>, which every ioctl refines, and the step relation \<open>sys_step\<close> of a loaded module (system
  calls, munmap, the callback, and the two halves of an unpin, so that other steps interleave), with
  the invariant of its reachable states \<open>sys_reach\<close>. \<open>Drv_Correct\<close>, \<open>Drv_Answers\<close>: the properties of
  reachable states and the answer of every operation. \<open>Drv_Loops\<close>: the remapping loop as it is
  written, with \<open>while_option\<close>, ends exactly for sizes that are whole pages. \<open>Drv_Findings\<close>: four
  places where the driver does not do what it means to. \<open>Drv_Example\<close>: the machine on which the
  theorems are instantiated.

  A step of \<open>sys_step\<close> assumes of the code outside the repository what its documentation says:
  \<open>get_pages_doc\<close> (a call that succeeds returns a page table), \<open>put_pages_doc\<close> and \<open>put_doc\<close> (giving
  back a page table that is still held succeeds), \<open>kmalloc_doc\<close> (a new object is at a fresh address),
  and \<open>page_cfg\<close> (host pages are of 2 bytes to 64 KB). An mmap step is for whole pages, on a platform
  that has the mapping type of the region (\<open>map_type_ok\<close>), and with a handle of the file
  (\<open>named_region\<close>): without the last the invariant fails, which \<open>Drv_Findings\<close> proves.
\<close>

section \<open>The library\<close>

text \<open>
  \<^item> \<open>Api_Types\<close>: the objects and static variables of gdrapi.c (\<open>lib\<close>) and the system calls it makes,
    as a record \<open>'d os\<close> over a state \<open>'d\<close> of the kernel.
  \<^item> \<open>Api_Ops\<close>: every exported function of gdrapi.c but the copies, with its error exits.
  \<^item> \<open>Copy_Machine\<close>, \<open>Copy_Block\<close>, \<open>Copy_Simd\<close>, \<open>Copy_Portable\<close>, \<open>Copy_Dispatch\<close>: a byte memory with
    a trace of accesses and fences; the vector routines of memcpy_avx.c, memcpy_sse.c and
    memcpy_sse41.c; the portable routines and the entry points of gdrapi.c.
  \<^item> \<open>Api_Log\<close>: \<open>gdr_msg\<close> and the two static variables that select the messages.

  The lemmas. \<open>Copy_Correct\<close>: what the copies move, which fences follow, which accesses are made.
  \<open>Api_Lib\<close>, \<open>Api_Correct\<close>, \<open>Api_Typed\<close>: the library over any kernel, along every sequence of calls
  (\<open>api_step\<close>). \<open>Api_Contract\<close>, \<open>Api_Driver\<close>, \<open>Api_Map\<close>: the library over the driver of the first part.

  Interfaces. \<open>copy_step\<close> (a loop body that moves one block), \<open>copy_loops\<close> (two loops in a row),
  \<open>copy_routine\<close> and \<open>copy_pair\<close> (a routine, and one that reads back) are interpreted on the vector
  routines in \<open>Copy_Simd\<close>. \<open>pin_driver\<close> is what the library relies on when it opens, pins, unpins and
  closes; \<open>driver_env\<close>, a kernel environment of which \<open>kenv_doc\<close> holds, is a sublocale of it by the
  proofs about the handlers of the driver, and \<open>map_env\<close> extends it for mmap and munmap
  (\<open>kenv_maps\<close>). Both are interpreted on \<open>ex_env\<close>, and the properties over the driver are stated for
  every environment with these hypotheses.
\<close>

section \<open>The tools of the BAR benchmarks\<close>

text \<open>
  \<^item> \<open>Bar_Text\<close>, \<open>Bar_Ops\<close>, \<open>Bar_Correct\<close>: tests/pcibarlat/mlc_bar_intercept.c, a preloaded library that
    answers mmap, malloc and the aligned allocation functions from a window of device memory. The
    state \<open>bar\<close> is its static variables, \<open>bar_env\<close> the process it is loaded into; the functions that it
    replaces are the process's, and a call passed on to one is a value of \<open>real_call\<close>. The locale
    \<open>bump_allocator\<close> has the argument for any allocator that only moves a mark upwards, and is
    interpreted on the replaced functions. The initialisation is one step; a call made while it
    runs is one in a state with \<open>init_running\<close> set.
  \<^item> \<open>Physmem\<close>: tests/pcibarlat/driver/pcibarlat_physmem.c, the module that exposes such a window.

  The process guarantees \<open>bar_env_doc\<close>: the page size is a power of two below 4 GB, and a mapping is a
  range of whole pages in the user half of the address space, not at 0.
\<close>

section \<open>Loops\<close>

text \<open>
  No definition has fuel. The loops are total functions, with these measures: the pages left
  (\<open>contig_scan\<close>, \<open>mmap_runs\<close>), the bytes left (\<open>remap_chunks\<close>, \<open>block_loop\<close>, \<open>unroll_words\<close>,
  \<open>memcpy_to_device_mapping\<close>, \<open>memcpy_from_device_mapping\<close>), the value shifted (\<open>page_shift_loop\<close>);
  the loops over lists are structural. \<open>remap_chunks\<close> stops at a size below a page, which the source's
  loop would not; the source excludes such sizes by a BUG_ON, and \<open>chunk_loop_terminates\<close> relates it to
  the loop as written.
\<close>

section \<open>Not modelled\<close>

text \<open>
  \<^item> What the driver prints (printk), and \<open>vfprintf\<close> in the library: output without effect on a
    result. The texts of the proc files are modelled; their open and release functions only call
    \<open>single_open\<close> and \<open>single_release\<close>.
  \<^item> The body of \<open>address_space_init_once\<close> for kernels up to 2.6.32, the tables of operations that
    register the handlers, and the choice of declarations by the preprocessor: one build for one
    kernel is one \<open>drv_cfg\<close>.
  \<^item> The interleaving of two threads inside one critical section: locks are modelled, and steps
    interleave at the points where a handler holds none.
  \<^item> The tests and benchmarks, scripts and packages: they drive the library and hold no logic of
    the driver or the library. (memcpy_avx.c and memcpy_sse41.c in tests/pcibarlat are copies of the
    library's files, which are modelled.)
\<close>

end
